theory Spec2Isabelle
  imports Complex_Main
begin

section \<open>JavaScript strings\<close>

text \<open>
  A JavaScript string is a sequence of UTF-16 code units; it is modelled as a list of
  their numbers. \<open>ascii\<close> embeds an ASCII literal of the source. The markers of the
  source that contain Vietnamese letters are written with the code units of the source file.
\<close>

type_synonym jsstring = "nat list"

definition ascii :: "string \<Rightarrow> jsstring" where
  "ascii s = map of_char s"

text \<open>\<open>s.startsWith(t)\<close> and \<open>s.includes(t)\<close>.\<close>

fun startsWith :: "jsstring \<Rightarrow> jsstring \<Rightarrow> bool" where
  "startsWith s [] = True"
| "startsWith [] (c # t) = False"
| "startsWith (a # s) (c # t) = (a = c \<and> startsWith s t)"

fun includesJS :: "jsstring \<Rightarrow> jsstring \<Rightarrow> bool" where
  "includesJS [] t = (t = [])"
| "includesJS (a # s) t = (startsWith (a # s) t \<or> includesJS s t)"

text \<open>
  Truthiness of an optional string (\<open>if (x)\<close> for \<open>x: string | null | undefined\<close>):
  present and not empty. \<open>a || b\<close> on strings is \<open>orElse\<close>.
\<close>

definition truthy :: "jsstring option \<Rightarrow> bool" where
  "truthy x = (case x of None \<Rightarrow> False | Some s \<Rightarrow> s \<noteq> [])"

definition orElse :: "jsstring option \<Rightarrow> jsstring \<Rightarrow> jsstring" where
  "orElse x d = (case x of None \<Rightarrow> d | Some s \<Rightarrow> if s = [] then d else s)"

text \<open>
  \<open>s.toUpperCase()\<close>. The string is read as code points (a high surrogate followed by a
  low surrogate is one code point, any other code unit is a code point by itself) and each
  code point is replaced by its upper-case mapping, which can be longer than one code unit;
  the mapping of a code point does not depend on its neighbours. The mapping itself is
  the table of the Unicode character database, which belongs to the JavaScript runtime:
  it is a parameter, from the code units of a code point to the code units of its
  upper-case form.
\<close>

definition is_high :: "nat \<Rightarrow> bool" where
  "is_high c \<longleftrightarrow> 0xD800 \<le> c \<and> c \<le> 0xDBFF"

definition is_low :: "nat \<Rightarrow> bool" where
  "is_low c \<longleftrightarrow> 0xDC00 \<le> c \<and> c \<le> 0xDFFF"

fun code_points :: "jsstring \<Rightarrow> jsstring list" where
  "code_points [] = []"
| "code_points [c] = [[c]]"
| "code_points (c # d # r) =
     (if is_high c \<and> is_low d then [c, d] # code_points r else [c] # code_points (d # r))"

definition toUpperCase :: "(jsstring \<Rightarrow> jsstring) \<Rightarrow> jsstring \<Rightarrow> jsstring" where
  "toUpperCase table s = concat (map table (code_points s))"

text \<open>
  The part of the Unicode table that the statements about the classifier rely on: Basic
  Latin and the letters of the Vietnamese alphabet (Latin-1 without the sharp s, whose
  upper-case form has two letters; the letters with breve, stroke, tilde and horn; the
  block U+1EA0 to U+1EFF). \<open>upper_code\<close> is the upper-case form of such a code unit, and
  \<open>agrees_with_unicode\<close> says that a table has these entries.
\<close>

definition latin_vietnamese :: "nat \<Rightarrow> bool" where
  "latin_vietnamese c \<longleftrightarrow>
     c < 128 \<or> (0xC0 \<le> c \<and> c \<le> 0xFE \<and> c \<noteq> 0xDF) \<or>
     c \<in> {0x102, 0x103, 0x110, 0x111, 0x128, 0x129, 0x168, 0x169, 0x1A0, 0x1A1, 0x1AF, 0x1B0} \<or>
     (0x1EA0 \<le> c \<and> c \<le> 0x1EFF)"

definition upper_code :: "nat \<Rightarrow> nat" where
  "upper_code c =
     (if 97 \<le> c \<and> c \<le> 122 then c - 32
      else if 0xE0 \<le> c \<and> c \<le> 0xFE \<and> c \<noteq> 0xF7 then c - 32
      else if c \<in> {0x103, 0x111, 0x129, 0x169, 0x1A1} then c - 1
      else if c = 0x1B0 then 0x1AF
      else if 0x1EA0 \<le> c \<and> c \<le> 0x1EFF \<and> odd c then c - 1
      else c)"

definition agrees_with_unicode :: "(jsstring \<Rightarrow> jsstring) \<Rightarrow> bool" where
  "agrees_with_unicode table \<longleftrightarrow> (\<forall>c. latin_vietnamese c \<longrightarrow> table [c] = [upper_code c])"


section \<open>Error classifier (jobService.ts, mapFriendlyErrorMessage)\<close>

text \<open>The marker \<open>"KH\<dots>NG \<dots> CREDITS"\<close> (U+00D4, U+0110, U+1EE6 are the three letters outside ASCII).\<close>

definition KHONG_DU_CREDITS :: jsstring where
  "KHONG_DU_CREDITS = ascii ''KH'' @ [0xD4] @ ascii ''NG '' @ [0x110, 0x1EE6] @ ascii '' CREDITS''"

text \<open>\<open>mapFriendlyErrorMessage\<close>, over the upper-case table of the runtime.\<close>

definition mapFriendlyErrorMessage :: "(jsstring \<Rightarrow> jsstring) \<Rightarrow> jsstring \<Rightarrow> jsstring" where
  "mapFriendlyErrorMessage table errorMsg =
     (if errorMsg = [] then ascii ''err.sys.google_generic''
      else
        let msg = toUpperCase table errorMsg in
        if includesJS msg KHONG_DU_CREDITS then ascii ''err.credit.insufficient_system''
        else if includesJS msg (ascii ''SAFETY_ERROR'') \<or>
                includesJS msg (ascii ''SAFETY'') \<or>
                includesJS msg (ascii ''BLOCK'') \<or>
                includesJS msg (ascii ''PROHIBITED'') \<or>
                includesJS msg (ascii ''UPLOAD FAILED'') \<or>
                includesJS msg (ascii ''INVALID_ARGUMENT'') \<or>
                includesJS msg (ascii ''400'') \<or>
                includesJS msg (ascii ''IMAGE_ASPECT_RATIO'')
        then ascii ''SAFETY_POLICY_VIOLATION''
        else ascii ''err.sys.google_generic'')"

text \<open>
  The rule set in the words of the specification: the error kinds, and the markers of the
  safety rule (safety, block, prohibited, upload failure, invalid argument, 400, aspect ratio).
\<close>

definition GENERIC_BACKEND_ERROR :: jsstring where
  "GENERIC_BACKEND_ERROR = ascii ''err.sys.google_generic''"

definition INSUFFICIENT_CREDITS :: jsstring where
  "INSUFFICIENT_CREDITS = ascii ''err.credit.insufficient_system''"

definition SAFETY_POLICY_VIOLATION :: jsstring where
  "SAFETY_POLICY_VIOLATION = ascii ''SAFETY_POLICY_VIOLATION''"

definition safety_markers :: "jsstring list" where
  "safety_markers =
     [ascii ''SAFETY_ERROR'', ascii ''SAFETY'', ascii ''BLOCK'', ascii ''PROHIBITED'',
      ascii ''UPLOAD FAILED'', ascii ''INVALID_ARGUMENT'', ascii ''400'',
      ascii ''IMAGE_ASPECT_RATIO'']"


section \<open>Runtime and remote services\<close>

text \<open>
  A thrown value is modelled by its message: \<open>Inl m\<close> is \<open>throw\<close> of an error with
  message \<open>m\<close>, \<open>Inr v\<close> is a normal return of \<open>v\<close>.
\<close>

type_synonym 'a throws = "jsstring + 'a"

record blob =
  blob_type :: jsstring
  blob_bytes :: "nat list"

record response =
  ok :: bool
  body_blob :: "blob throws"

datatype upload_result = Uploaded | UploadError | UploadThrows jsstring

datatype insert_result =
    InsertError jsstring jsstring
  | InsertData "jsstring list option"
  | InsertThrows jsstring

record refund_call =
  refund_user :: jsstring
  refund_amount :: int
  refund_description :: jsstring
  refund_log :: jsstring

text \<open>
  What the browser, the database, the object store and the credit ledger answer is not
  decided by the repository. Each operation takes these answers as a record of functions:
  \<^item> \<open>atob\<close>, \<open>new_Blob\<close>, \<open>fetch\<close>, \<open>encodeURIComponent\<close>: the browser built-ins;
  \<^item> \<open>image_pipeline\<close>: decoding a blob as an image, drawing it on a canvas of at most
    1500 pixels a side and encoding the canvas as WebP (\<open>None\<close>: the image does not load,
    there is no 2D context, or the encoder gives nothing);
  \<^item> \<open>numText\<close>, \<open>random_text\<close>: the decimal text of a number and the text of
    \<open>Math.random().toString(36).substring(2, 9)\<close>;
  \<^item> \<open>storage_upload\<close>, \<open>getPublicUrl\<close>: the object store;
  \<^item> \<open>insert_answer\<close>: what the \<open>generation_jobs\<close> table answers to an insert made at a
    given time; \<open>select_error\<close>: the sweep's query fails; \<open>update_fails\<close>: the update of
    a job's row fails;
  \<^item> \<open>refund_throws\<close>: \<open>refundCredits\<close> rejects this call;
  \<^item> \<open>BACKEND_URL\<close>: the constant of \<open>config\<close>.
\<close>

record runtime =
  atob :: "jsstring \<Rightarrow> jsstring throws"
  new_Blob :: "nat list \<Rightarrow> jsstring \<Rightarrow> blob"
  fetch :: "jsstring \<Rightarrow> response throws"
  encodeURIComponent :: "jsstring \<Rightarrow> jsstring throws"
  image_pipeline :: "blob \<Rightarrow> blob option"
  numText :: "int \<Rightarrow> jsstring"
  random_text :: jsstring
  storage_upload :: "jsstring \<Rightarrow> blob \<Rightarrow> upload_result"
  getPublicUrl :: "jsstring \<Rightarrow> jsstring"
  insert_answer :: "int \<Rightarrow> insert_result"
  select_error :: bool
  update_fails :: "jsstring \<Rightarrow> bool"
  refund_throws :: "refund_call \<Rightarrow> bool"
  BACKEND_URL :: jsstring


section \<open>Jobs and the observable world\<close>

datatype status = pending | processing | completed | failed

text \<open>
  Modelled from the spec: the type \<open>GenerationJob\<close> of \<open>types\<close> is not among the sources;
  the fields are those of the Job entity of the specification, under the column names the
  code uses. Times are milliseconds since the epoch.
\<close>

record job =
  job_id :: jsstring
  user_id :: jsstring
  tool_id :: jsstring
  prompt :: jsstring
  cost :: int
  usage_log_id :: "jsstring option"
  job_status :: status
  result_url :: "jsstring option"
  error_message :: "jsstring option"
  created_at :: int
  updated_at :: int

text \<open>
  The state the operations read and change: the rows of \<open>generation_jobs\<close>, the refunds the
  ledger has applied, the requests sent with \<open>fetch\<close>, the calls of the object store's
  \<open>upload\<close>, the \<open>localStorage\<close> keys present, the delays awaited with \<open>setTimeout\<close>, the
  signed-in user, the signals given to the user interface, and the clock. Time passes
  between operations and while a timer is awaited; within an operation every reading of the
  clock gives the same instant. What is written to the console is not part of the world.
\<close>

datatype ui_signal =
    InsufficientCreditsSignal
  | InputImageError
  | SafetyModal
  | ErrorText jsstring

record world =
  jobs :: "job list"
  refunds :: "refund_call list"
  fetches :: "jsstring list"
  uploads :: "(jsstring \<times> blob) list"
  localStorage :: "jsstring list"
  timers :: "int list"
  session_user :: "jsstring option"
  ui :: "ui_signal list"
  now :: int


section \<open>Asset persister (jobService.ts, compressImage and persistResultToStorage)\<close>

definition BUCKET_NAME :: jsstring where
  "BUCKET_NAME = ascii ''assets''"

definition compressImage :: "runtime \<Rightarrow> blob \<Rightarrow> blob" where
  "compressImage rt b =
     (if \<not> startsWith (blob_type b) (ascii ''image/'') then b
      else case image_pipeline rt b of None \<Rightarrow> b | Some compressedBlob \<Rightarrow> compressedBlob)"

text \<open>\<open>data.split(',')\<close>: element 0, and element 1 when there is one.\<close>

definition split_comma_0 :: "jsstring \<Rightarrow> jsstring" where
  "split_comma_0 data = takeWhile (\<lambda>c. c \<noteq> 44) data"

definition split_comma_1 :: "jsstring \<Rightarrow> jsstring option" where
  "split_comma_1 data =
     (case dropWhile (\<lambda>c. c \<noteq> 44) data of
        [] \<Rightarrow> None
      | _ # rest \<Rightarrow> Some (takeWhile (\<lambda>c. c \<noteq> 44) rest))"

text \<open>
  \<open>s.match(/:(.*?);/)?.[1]\<close>: the first colon from which a semicolon is reached without
  crossing a line terminator; the group is the text between them.
\<close>

definition line_terminator :: "nat \<Rightarrow> bool" where
  "line_terminator c = (c = 10 \<or> c = 13 \<or> c = 0x2028 \<or> c = 0x2029)"

fun lazy_to_semicolon :: "jsstring \<Rightarrow> jsstring option" where
  "lazy_to_semicolon [] = None"
| "lazy_to_semicolon (c # cs) =
     (if c = 59 then Some []
      else if line_terminator c then None
      else map_option ((#) c) (lazy_to_semicolon cs))"

fun match_mime :: "jsstring \<Rightarrow> jsstring option" where
  "match_mime [] = None"
| "match_mime (c # cs) =
     (if c = 58
      then (case lazy_to_semicolon cs of Some g \<Rightarrow> Some g | None \<Rightarrow> match_mime cs)
      else match_mime cs)"

text \<open>A \<open>fetch\<close> is recorded in the world; so is a call of \<open>upload\<close>.\<close>

definition do_fetch :: "runtime \<Rightarrow> jsstring \<Rightarrow> world \<Rightarrow> response throws \<times> world" where
  "do_fetch rt url w = (fetch rt url, w\<lparr>fetches := fetches w @ [url]\<rparr>)"

text \<open>The \<open>data:\<close> branch: split, read the MIME type, decode, build the blob.\<close>

definition decode_data_uri :: "runtime \<Rightarrow> jsstring \<Rightarrow> blob throws" where
  "decode_data_uri rt data =
     (let mime = orElse (match_mime (split_comma_0 data)) (ascii ''image/png'') in
      case atob rt (case split_comma_1 data of None \<Rightarrow> ascii ''undefined'' | Some a \<Rightarrow> a) of
        Inl e \<Rightarrow> Inl e
      | Inr bstr \<Rightarrow> Inr (new_Blob rt (map (\<lambda>c. c mod 256) bstr) mime))"

text \<open>The \<open>blob:\<close> branch: no check of \<open>response.ok\<close>.\<close>

definition fetch_local_blob :: "runtime \<Rightarrow> jsstring \<Rightarrow> world \<Rightarrow> blob throws \<times> world" where
  "fetch_local_blob rt data w =
     (case do_fetch rt data w of
        (Inl e, w1) \<Rightarrow> (Inl e, w1)
      | (Inr r, w1) \<Rightarrow> (body_blob r, w1))"

text \<open>Attempt 1 of the \<open>http\<close> branch, the body of the inner \<open>try\<close>.\<close>

definition direct_fetch :: "runtime \<Rightarrow> jsstring \<Rightarrow> world \<Rightarrow> blob throws \<times> world" where
  "direct_fetch rt data w =
     (case do_fetch rt data w of
        (Inl e, w1) \<Rightarrow> (Inl e, w1)
      | (Inr r, w1) \<Rightarrow>
          if \<not> ok r then (Inl (ascii ''Direct fetch failed''), w1) else (body_blob r, w1))"

text \<open>Attempt 2, the body of the \<open>try\<close> inside the handler of attempt 1.\<close>

definition proxy_fetch :: "runtime \<Rightarrow> jsstring \<Rightarrow> world \<Rightarrow> blob throws \<times> world" where
  "proxy_fetch rt data w =
     (case encodeURIComponent rt data of
        Inl e \<Rightarrow> (Inl e, w)
      | Inr enc \<Rightarrow>
          (let proxyUrl = BACKEND_URL rt @ ascii ''/proxy-download?url='' @ enc in
           case do_fetch rt proxyUrl w of
             (Inl e, w1) \<Rightarrow> (Inl e, w1)
           | (Inr r, w1) \<Rightarrow>
               if \<not> ok r then (Inl (ascii ''Proxy download failed''), w1)
               else (body_blob r, w1)))"

text \<open>
  The whole remote fetch: \<open>None\<close> is the \<open>return null\<close> of the innermost handler.
\<close>

definition fetch_remote :: "runtime \<Rightarrow> jsstring \<Rightarrow> world \<Rightarrow> blob option \<times> world" where
  "fetch_remote rt data w =
     (case direct_fetch rt data w of
        (Inr b, w1) \<Rightarrow> (Some b, w1)
      | (Inl directErr, w1) \<Rightarrow>
          (case proxy_fetch rt data w1 of
             (Inr b, w2) \<Rightarrow> (Some b, w2)
           | (Inl proxyErr, w2) \<Rightarrow> (None, w2)))"

definition remote_extension :: "blob \<Rightarrow> jsstring \<Rightarrow> jsstring" where
  "remote_extension b data =
     (if includesJS (blob_type b) (ascii ''video'') \<or> includesJS data (ascii ''.mp4'')
      then ascii ''mp4''
      else if includesJS (blob_type b) (ascii ''quicktime'') then ascii ''mov''
      else ascii ''webp'')"

text \<open>
  From the blob to the public URL: compress an image, name the file, upload, ask for the
  public URL. \<open>Inr None\<close> is \<open>return null\<close>.
\<close>

definition store_blob ::
  "runtime \<Rightarrow> jsstring \<Rightarrow> blob \<Rightarrow> jsstring \<Rightarrow> world \<Rightarrow> jsstring option throws \<times> world" where
  "store_blob rt userId b0 extension0 w =
     (let (b, extension) =
            (if startsWith (blob_type b0) (ascii ''image/'')
             then (compressImage rt b0, ascii ''webp'')
             else (b0, extension0));
          fileName = userId @ ascii ''/jobs/'' @ numText rt (now w) @ ascii ''_'' @
                     random_text rt @ ascii ''.'' @ extension;
          w1 = w\<lparr>uploads := uploads w @ [(fileName, b)]\<rparr>
      in case storage_upload rt fileName b of
           UploadThrows e \<Rightarrow> (Inl e, w1)
         | UploadError \<Rightarrow> (Inr None, w1)
         | Uploaded \<Rightarrow> (Inr (Some (getPublicUrl rt fileName)), w1))"

text \<open>The body of the outer \<open>try\<close>.\<close>

definition persist_try ::
  "runtime \<Rightarrow> jsstring \<Rightarrow> jsstring \<Rightarrow> world \<Rightarrow> jsstring option throws \<times> world" where
  "persist_try rt userId data w =
     (if includesJS data (ascii ''supabase.co'') \<and> includesJS data BUCKET_NAME
      then (Inr (Some data), w)
      else if startsWith data (ascii ''data:'') then
        (case decode_data_uri rt data of
           Inl e \<Rightarrow> (Inl e, w)
         | Inr b \<Rightarrow> store_blob rt userId b (ascii ''webp'') w)
      else if startsWith data (ascii ''blob:'') then
        (case fetch_local_blob rt data w of
           (Inl e, w1) \<Rightarrow> (Inl e, w1)
         | (Inr b, w1) \<Rightarrow>
             store_blob rt userId b
               (if startsWith (blob_type b) (ascii ''video'') then ascii ''mp4''
                else ascii ''webp'') w1)
      else if startsWith data (ascii ''http'') then
        (case fetch_remote rt data w of
           (None, w1) \<Rightarrow> (Inr None, w1)
         | (Some b, w1) \<Rightarrow> store_blob rt userId b (remote_extension b data) w1)
      else (Inr (Some data), w))"

text \<open>
  \<open>persistResultToStorage\<close>: the \<open>try\<close> with its handler, which logs and returns \<open>null\<close>.
  The result type still has room for a throw, so that "never throws" is a statement.
\<close>

definition persistResultToStorage ::
  "runtime \<Rightarrow> jsstring \<Rightarrow> jsstring \<Rightarrow> world \<Rightarrow> jsstring option throws \<times> world" where
  "persistResultToStorage rt userId data w =
     (case persist_try rt userId data w of
        (Inl e, w1) \<Rightarrow> (Inr None, w1)
      | (Inr r, w1) \<Rightarrow> (Inr r, w1))"

text \<open>The storage URL short cut of the specification: the source carries the bucket marker.\<close>

definition already_durable :: "jsstring \<Rightarrow> bool" where
  "already_durable data \<longleftrightarrow>
     includesJS data (ascii ''supabase.co'') \<and> includesJS data BUCKET_NAME"


text \<open>A remote source: none of the earlier branches takes it and it starts with \<open>http\<close>.\<close>

definition remote_source :: "jsstring \<Rightarrow> bool" where
  "remote_source data \<longleftrightarrow>
     \<not> already_durable data \<and> \<not> startsWith data (ascii ''data:'') \<and>
     \<not> startsWith data (ascii ''blob:'') \<and> startsWith data (ascii ''http'')"

text \<open>
  For the statements about failures. A \<open>data:\<close> source and a \<open>blob:\<close> source are the
  sources the second and the third branch take; \<open>payload\<close> is the text handed to
  \<open>atob\<close>; a local fetch is \<open>unreadable\<close> when the request is rejected or the body
  cannot be read; a remote fetch has \<open>fetch_failed\<close> when the request is rejected, the
  response is not \<open>ok\<close>, or the body cannot be read; \<open>proxy_url\<close> is the address of the
  proxy endpoint for an encoded source; \<open>requested\<close> is the world after the given requests.
\<close>

definition data_source :: "jsstring \<Rightarrow> bool" where
  "data_source data \<longleftrightarrow> \<not> already_durable data \<and> startsWith data (ascii ''data:'')"

definition blob_source :: "jsstring \<Rightarrow> bool" where
  "blob_source data \<longleftrightarrow>
     \<not> already_durable data \<and> \<not> startsWith data (ascii ''data:'') \<and>
     startsWith data (ascii ''blob:'')"

definition payload :: "jsstring \<Rightarrow> jsstring" where
  "payload data = (case split_comma_1 data of None \<Rightarrow> ascii ''undefined'' | Some a \<Rightarrow> a)"

definition unreadable :: "response throws \<Rightarrow> bool" where
  "unreadable answer =
     (case answer of
        Inl e \<Rightarrow> True
      | Inr r \<Rightarrow> (case body_blob r of Inl e \<Rightarrow> True | Inr b \<Rightarrow> False))"

definition fetch_failed :: "response throws \<Rightarrow> bool" where
  "fetch_failed answer =
     (case answer of
        Inl e \<Rightarrow> True
      | Inr r \<Rightarrow> \<not> ok r \<or> (case body_blob r of Inl e \<Rightarrow> True | Inr b \<Rightarrow> False))"

definition proxy_url :: "runtime \<Rightarrow> jsstring \<Rightarrow> jsstring" where
  "proxy_url rt enc = BACKEND_URL rt @ ascii ''/proxy-download?url='' @ enc"

definition requested :: "jsstring list \<Rightarrow> world \<Rightarrow> world" where
  "requested urls w = w\<lparr>fetches := fetches w @ urls\<rparr>"


section \<open>Credit ledger\<close>

text \<open>
  Modelled from the spec: \<open>refundCredits\<close> of \<open>paymentService\<close> is not among the sources.
  The specification gives \<open>refund(userId, amount, description, usageLogId) -> void\<close>; a call
  the ledger accepts is recorded, a call it rejects throws and records nothing.
\<close>

definition refundCredits ::
  "runtime \<Rightarrow> jsstring \<Rightarrow> int \<Rightarrow> jsstring \<Rightarrow> jsstring \<Rightarrow> world \<Rightarrow> unit throws \<times> world" where
  "refundCredits rt userId amount description usageLogId w =
     (let call = \<lparr>refund_user = userId, refund_amount = amount,
                   refund_description = description, refund_log = usageLogId\<rparr>
      in if refund_throws rt call then (Inl (ascii ''Refund failed''), w)
         else (Inr (), w\<lparr>refunds := refunds w @ [call]\<rparr>))"


section \<open>Job store (jobService.ts, createJob and updateJobStatus)\<close>

text \<open>
  The fields a caller hands to \<open>createJob\<close> (\<open>Partial<GenerationJob>\<close>; the lifecycle
  passes exactly these five).
\<close>

record job_data =
  data_user_id :: jsstring
  data_tool_id :: jsstring
  data_prompt :: jsstring
  data_cost :: int
  data_usage_log_id :: "jsstring option"

text \<open>\<open>await new Promise(r => setTimeout(r, ms))\<close>: the delay is recorded and the clock advances.\<close>

definition await_timeout :: "int \<Rightarrow> world \<Rightarrow> world" where
  "await_timeout ms w = w\<lparr>timers := timers w @ [ms], now := now w + ms\<rparr>"

text \<open>The handler of \<open>createJob\<close>: \<open>throw new Error(e.message || "...")\<close>.\<close>

definition CREATE_JOB_FALLBACK :: jsstring where
  "CREATE_JOB_FALLBACK =
     ascii ''Kh'' @ [0xF4] @ ascii ''ng th'' @ [0x1EC3] @ ascii '' kh'' @ [0x1EDF] @ ascii ''i t'' @
     [0x1EA1] @ ascii ''o b'' @ [0x1EA3] @ ascii ''n ghi c'' @ [0xF4] @ ascii ''ng vi'' @ [0x1EC7] @
     ascii ''c.''"

definition rethrow :: "jsstring \<Rightarrow> jsstring" where
  "rethrow message = orElse (Some message) CREATE_JOB_FALLBACK"

definition foreign_key_error :: "jsstring \<Rightarrow> jsstring \<Rightarrow> bool" where
  "foreign_key_error code message \<longleftrightarrow>
     code = ascii ''23503'' \<or> includesJS message (ascii ''foreign key'')"

definition new_row :: "jsstring \<Rightarrow> job_data \<Rightarrow> int \<Rightarrow> job" where
  "new_row newId jobData t =
     \<lparr>job_id = newId, user_id = data_user_id jobData, tool_id = data_tool_id jobData,
      prompt = data_prompt jobData, cost = data_cost jobData,
      usage_log_id = data_usage_log_id jobData, job_status = pending,
      result_url = None, error_message = None, created_at = t, updated_at = t\<rparr>"

definition NO_ID_MESSAGE :: jsstring where
  "NO_ID_MESSAGE = ascii ''Insert succeeded but no ID returned (RLS Issue)''"

definition transaction_markers :: "jsstring list" where
  "transaction_markers =
     [ascii ''opzen_last_charge_id'', ascii ''opzen_pending_tx'', ascii ''opzen_last_log_id'']"

text \<open>
  \<open>createJob(jobData, retries)\<close>; the default of \<open>retries\<close> is 2. The insert is answered
  by the table according to the time at which it is made. \<open>Inl\<close> is the \<open>Error\<close> thrown
  by the handler.
\<close>

function createJob :: "runtime \<Rightarrow> job_data \<Rightarrow> int \<Rightarrow> world \<Rightarrow> jsstring throws \<times> world" where
  "createJob rt jobData retries w =
     (case insert_answer rt (now w) of
        InsertThrows m \<Rightarrow> (Inl (rethrow m), w)
      | InsertError code message \<Rightarrow>
          if retries > 0 \<and> foreign_key_error code message
          then createJob rt jobData (retries - 1) (await_timeout 1000 w)
          else (Inl (rethrow message), w)
      | InsertData data \<Rightarrow>
          (case data of
             None \<Rightarrow> (Inl (rethrow NO_ID_MESSAGE), w)
           | Some [] \<Rightarrow> (Inl (rethrow NO_ID_MESSAGE), w)
           | Some (newId # others) \<Rightarrow>
               (Inr newId,
                w\<lparr>jobs := jobs w @ [new_row newId jobData (now w)],
                  localStorage := filter (\<lambda>k. k \<notin> set transaction_markers) (localStorage w)\<rparr>)))"
  by pat_completeness auto
termination
  by (relation "measure (\<lambda>(rt, jobData, retries, w). nat retries)") auto

text \<open>
  For the statements about retries: the insert made at time \<open>t\<close> is rejected with an error of the
  foreign-key class; and the world after \<open>k\<close> backoffs of one second.
\<close>

definition fk_rejected :: "runtime \<Rightarrow> int \<Rightarrow> bool" where
  "fk_rejected rt t \<longleftrightarrow>
     (case insert_answer rt t of
        InsertError code message \<Rightarrow> foreign_key_error code message
      | _ \<Rightarrow> False)"

definition waited :: "nat \<Rightarrow> world \<Rightarrow> world" where
  "waited k w = w\<lparr>timers := timers w @ replicate k 1000, now := now w + 1000 * int k\<rparr>"

text \<open>
  The object \<open>updates\<close> of \<open>updateJobStatus\<close>: \<open>status\<close> and \<open>updated_at\<close> are always set;
  \<open>error_message\<close> and \<open>result_url\<close> are set only when the key is present (\<open>Some None\<close>
  is the key \<open>error_message\<close> with the value \<open>null\<close>).
\<close>

record updates =
  upd_status :: status
  upd_updated_at :: int
  upd_error_message :: "jsstring option option"
  upd_result_url :: "jsstring option"

definition apply_updates :: "updates \<Rightarrow> job \<Rightarrow> job" where
  "apply_updates u j =
     j\<lparr>job_status := upd_status u,
       updated_at := upd_updated_at u,
       error_message := (case upd_error_message u of None \<Rightarrow> error_message j | Some m \<Rightarrow> m),
       result_url := (case upd_result_url u of None \<Rightarrow> result_url j | Some r \<Rightarrow> Some r)\<rparr>"

text \<open>\<open>.eq('id', jobId).single()\<close>: the row when exactly one has this id.\<close>

definition select_single :: "jsstring \<Rightarrow> job list \<Rightarrow> job option" where
  "select_single jobId rows =
     (case filter (\<lambda>j. job_id j = jobId) rows of [j] \<Rightarrow> Some j | _ \<Rightarrow> None)"

text \<open>\<open>.update(updates).eq('id', jobId)\<close>.\<close>

definition update_rows :: "updates \<Rightarrow> jsstring \<Rightarrow> job list \<Rightarrow> job list" where
  "update_rows u jobId rows = map (\<lambda>j. if job_id j = jobId then apply_updates u j else j) rows"

text \<open>The body of the \<open>try\<close> of \<open>updateJobStatus\<close>.\<close>

definition updateJobStatus_try ::
  "runtime \<Rightarrow> jsstring \<Rightarrow> status \<Rightarrow> jsstring option \<Rightarrow> jsstring option \<Rightarrow> world
     \<Rightarrow> unit throws \<times> world" where
  "updateJobStatus_try rt jobId st resultUrl errorMessage w =
     (let updates0 = \<lparr>upd_status = st, upd_updated_at = now w,
                       upd_error_message = (if st = completed then Some None else None),
                       upd_result_url = None\<rparr>;
          withUrl =
            (case resultUrl of
               None \<Rightarrow> (Inr updates0, w)
             | Some url \<Rightarrow>
                 if url = [] then (Inr updates0, w)
                 else
                   (case select_single jobId (jobs w) of
                      None \<Rightarrow> (Inr (updates0\<lparr>upd_result_url := Some url\<rparr>), w)
                    | Some jobData \<Rightarrow>
                        if user_id jobData = []
                        then (Inr (updates0\<lparr>upd_result_url := Some url\<rparr>), w)
                        else
                          (case persistResultToStorage rt (user_id jobData) url w of
                             (Inl e, w1) \<Rightarrow> (Inl e, w1)
                           | (Inr persistentUrl, w1) \<Rightarrow>
                               (Inr (updates0\<lparr>upd_result_url := Some (orElse persistentUrl url)\<rparr>),
                                w1))))
      in case withUrl of
           (Inl e, w1) \<Rightarrow> (Inl e, w1)
         | (Inr updates1, w1) \<Rightarrow>
             (let updates2 =
                    (if truthy errorMessage
                     then updates1\<lparr>upd_error_message := Some errorMessage\<rparr>
                     else updates1)
              in if update_fails rt jobId then (Inl (ascii ''update failed''), w1)
                 else (Inr (), w1\<lparr>jobs := update_rows updates2 jobId (jobs w1)\<rparr>)))"

text \<open>\<open>updateJobStatus\<close>: the handler logs what the body throws and returns.\<close>

definition updateJobStatus ::
  "runtime \<Rightarrow> jsstring \<Rightarrow> status \<Rightarrow> jsstring option \<Rightarrow> jsstring option \<Rightarrow> world \<Rightarrow> world" where
  "updateJobStatus rt jobId st resultUrl errorMessage w =
     snd (updateJobStatus_try rt jobId st resultUrl errorMessage w)"


text \<open>
  For the statements about \<open>updateJobStatus\<close>: the object it writes, given the result
  URL key \<open>R\<close> it has settled on; what that key can be (nothing when no URL is passed,
  otherwise the URL passed or the public URL of a file whose upload succeeded); and the
  parts of the world it never changes.
\<close>

definition written :: "status \<Rightarrow> int \<Rightarrow> jsstring option \<Rightarrow> jsstring option \<Rightarrow> updates" where
  "written st t errorMessage R =
     \<lparr>upd_status = st, upd_updated_at = t,
      upd_error_message =
        (if truthy errorMessage then Some errorMessage
         else if st = completed then Some None else None),
      upd_result_url = R\<rparr>"

definition url_key :: "runtime \<Rightarrow> jsstring option \<Rightarrow> jsstring option \<Rightarrow> bool" where
  "url_key rt resultUrl R \<longleftrightarrow>
     (case resultUrl of
        None \<Rightarrow> R = None
      | Some url \<Rightarrow>
          if url = [] then R = None
          else R = Some url \<or>
               (\<exists>f b. R = Some (getPublicUrl rt f) \<and> storage_upload rt f b = Uploaded))"

definition same_ledger :: "world \<Rightarrow> world \<Rightarrow> bool" where
  "same_ledger w w1 \<longleftrightarrow>
     jobs w1 = jobs w \<and> refunds w1 = refunds w \<and> now w1 = now w \<and> ui w1 = ui w \<and>
     session_user w1 = session_user w \<and> timers w1 = timers w"


section \<open>Stuck-job reaper (jobService.ts, cleanupStuckJobs)\<close>

definition TIMEOUT_REFUND_DESCRIPTION :: jsstring where
  "TIMEOUT_REFUND_DESCRIPTION =
     ascii ''Ho'' @ [0xE0] @ ascii ''n ti'' @ [0x1EC1] @ ascii ''n t'' @ [0x1EF1] @ ascii '' '' @
     [0x111, 0x1ED9] @ ascii ''ng: Qu'' @ [0xE1] @ ascii '' th'' @ [0x1EDD] @ ascii ''i gian x'' @
     [0x1EED] @ ascii '' l'' @ [0xFD] @ ascii '' (Timeout)''"

definition TIMEOUT_MESSAGE :: jsstring where
  "TIMEOUT_MESSAGE = ascii ''System Timeout: Auto-refunded due to inactivity''"

text \<open>The query: rows of the user in \<open>processing\<close> created before the base threshold.\<close>

definition select_stuck :: "jsstring \<Rightarrow> int \<Rightarrow> job list \<Rightarrow> job list" where
  "select_stuck userId baseThreshold rows =
     filter (\<lambda>j. user_id j = userId \<and> job_status j = processing \<and> created_at j < baseThreshold)
       rows"

text \<open>
  The \<open>for\<close> loop over the rows the query returned. \<open>Inl\<close> leaves the loop: it is a throw
  of \<open>refundCredits\<close>, which nothing inside the loop catches.
\<close>

fun sweep_loop ::
  "runtime \<Rightarrow> jsstring \<Rightarrow> int \<Rightarrow> job list \<Rightarrow> world \<Rightarrow> unit throws \<times> world" where
  "sweep_loop rt userId now_ms [] w = (Inr (), w)"
| "sweep_loop rt userId now_ms (j # rest) w =
     (let isVideo = (tool_id j = ascii ''VideoGeneration'');
          jobTime = created_at j;
          minutesElapsed = real_of_int (now_ms - jobTime) / (1000 * 60)
      in if isVideo \<and> minutesElapsed < 60 then sweep_loop rt userId now_ms rest w
         else
           (case (case usage_log_id j of
                    None \<Rightarrow> (Inr (), w)
                  | Some logId \<Rightarrow>
                      if logId \<noteq> [] \<and> cost j > 0
                      then refundCredits rt userId (cost j) TIMEOUT_REFUND_DESCRIPTION logId w
                      else (Inr (), w)) of
              (Inl e, w1) \<Rightarrow> (Inl e, w1)
            | (Inr u, w1) \<Rightarrow>
                sweep_loop rt userId now_ms rest
                  (updateJobStatus rt (job_id j) failed None (Some TIMEOUT_MESSAGE) w1)))"

text \<open>\<open>cleanupStuckJobs\<close>: the outer handler logs a throw of the loop and returns.\<close>

definition cleanupStuckJobs :: "runtime \<Rightarrow> jsstring \<Rightarrow> world \<Rightarrow> world" where
  "cleanupStuckJobs rt userId w =
     (let baseThreshold = now w - 15 * 60 * 1000 in
      if select_error rt then w
      else
        (let stuckJobs = select_stuck userId baseThreshold (jobs w) in
         if stuckJobs \<noteq> [] then snd (sweep_loop rt userId (now w) stuckJobs w) else w))"


text \<open>
  The sweep in the words of the specification. A job is past its threshold when 60 minutes
  have elapsed for a job of the video-generation tool, and more than 15 minutes for any
  other; a stuck job is a \<open>processing\<close> job of the user past its threshold; it is
  refundable when it has a usage log id and a positive cost; \<open>timeout_refund\<close> is the
  refund the sweep asks for and \<open>timed_out\<close> the row once marked.
\<close>

definition past_threshold :: "int \<Rightarrow> job \<Rightarrow> bool" where
  "past_threshold t j \<longleftrightarrow>
     (if tool_id j = ascii ''VideoGeneration''
      then t - created_at j \<ge> 60 * 60 * 1000
      else t - created_at j > 15 * 60 * 1000)"

definition stuck :: "jsstring \<Rightarrow> int \<Rightarrow> job \<Rightarrow> bool" where
  "stuck userId t j \<longleftrightarrow>
     user_id j = userId \<and> job_status j = processing \<and> past_threshold t j"

definition refundable :: "job \<Rightarrow> bool" where
  "refundable j \<longleftrightarrow> truthy (usage_log_id j) \<and> cost j > 0"

definition timeout_refund :: "jsstring \<Rightarrow> job \<Rightarrow> refund_call" where
  "timeout_refund userId j =
     \<lparr>refund_user = userId, refund_amount = cost j,
      refund_description = TIMEOUT_REFUND_DESCRIPTION,
      refund_log = (case usage_log_id j of None \<Rightarrow> [] | Some logId \<Rightarrow> logId)\<rparr>"

definition timed_out :: "int \<Rightarrow> job \<Rightarrow> job" where
  "timed_out t j = j\<lparr>job_status := failed, updated_at := t, error_message := Some TIMEOUT_MESSAGE\<rparr>"

text \<open>
  What one pass of the loop does when nothing fails: \<open>exempt\<close> is the test that skips a
  video job, \<open>reconcile\<close> the refund followed by the status update.
\<close>

definition fail_row :: "jsstring \<Rightarrow> int \<Rightarrow> job \<Rightarrow> job" where
  "fail_row jobId t r = (if job_id r = jobId then timed_out t r else r)"

definition exempt :: "int \<Rightarrow> job \<Rightarrow> bool" where
  "exempt t j \<longleftrightarrow>
     tool_id j = ascii ''VideoGeneration'' \<and> real_of_int (t - created_at j) / (1000 * 60) < 60"

definition reconcile :: "jsstring \<Rightarrow> job \<Rightarrow> world \<Rightarrow> world" where
  "reconcile userId j w =
     w\<lparr>refunds := refunds w @ (if refundable j then [timeout_refund userId j] else []),
       jobs := map (fail_row (job_id j) (now w)) (jobs w)\<rparr>"


section \<open>Job lifecycle (ViewSync.tsx, handleGenerate)\<close>

text \<open>
  The model keeps what \<open>handleGenerate\<close> does with credits, jobs and error signals. The
  assembly of the prompt and the updates of the page state (loading flag, status message,
  result list, history) have no part in it and are left out.
\<close>

text \<open>
  The generation backend and the page around \<open>handleGenerate\<close>. \<open>generateFlowImage\<close>
  answers the request of the unit with a given index and \<open>upscaleFlowImage\<close> the request
  for a media id and a target resolution; \<open>settle_order\<close> is the order in which the units
  finish (the units run concurrently and the handler keeps the error of the one that failed
  last); \<open>upper_table\<close> is the upper-case table of the runtime. Of a result only \<open>imageUrls\<close> and \<open>mediaIds\<close>
  are read.
\<close>

record flow_result =
  imageUrls :: "jsstring list option"
  mediaIds :: "jsstring list option"

record generation =
  generateFlowImage :: "nat \<Rightarrow> flow_result throws"
  upscaleFlowImage :: "jsstring \<Rightarrow> jsstring \<Rightarrow> jsstring option throws"
  settle_order :: "nat list"
  upper_table :: "jsstring \<Rightarrow> jsstring"

text \<open>
  The props and the state the handler reads. \<open>onDeductCredits\<close> is the callback of the
  credit ledger, when the page was given one: it returns the usage log id or throws.
  \<open>Tool_ViewSync\<close> is the constant \<open>Tool.ViewSync\<close> of \<open>types\<close>.
\<close>

record view_props =
  numberOfImages :: nat
  resolution :: jsstring
  userCredits :: int
  onDeductCredits :: "(int \<Rightarrow> jsstring \<Rightarrow> jsstring option throws) option"
  onInsufficientCredits :: bool
  sourceImage :: bool
  customPrompt :: jsstring
  Tool_ViewSync :: jsstring

definition getCostPerImage :: "jsstring \<Rightarrow> int" where
  "getCostPerImage res =
     (if res = ascii ''Standard'' then 5
      else if res = ascii ''1K'' then 10
      else if res = ascii ''2K'' then 20
      else if res = ascii ''4K'' then 30
      else 5)"

definition totalCost :: "view_props \<Rightarrow> int" where
  "totalCost p = int (numberOfImages p) * getCostPerImage (resolution p)"

text \<open>
  One unit of the batch, the body of the \<open>map\<close> callback: \<open>Inr (Some url)\<close> is the URL it
  returns, \<open>Inr None\<close> its \<open>null\<close> when the backend gave no image, and \<open>Inl e\<close> an error
  caught inside the unit, which returns \<open>null\<close> and leaves \<open>e\<close> in \<open>lastError\<close>.
\<close>

definition generation_unit :: "generation \<Rightarrow> jsstring \<Rightarrow> nat \<Rightarrow> jsstring option throws" where
  "generation_unit g res index =
     (case generateFlowImage g index of
        Inl e \<Rightarrow> Inl e
      | Inr result \<Rightarrow>
          (case imageUrls result of
             None \<Rightarrow> Inr None
           | Some [] \<Rightarrow> Inr None
           | Some (firstUrl # others) \<Rightarrow>
               if res = ascii ''2K'' \<or> res = ascii ''4K'' then
                 (case mediaIds result of
                    None \<Rightarrow> Inr (Some firstUrl)
                  | Some [] \<Rightarrow> Inr (Some firstUrl)
                  | Some (mediaId # moreIds) \<Rightarrow>
                      if mediaId = [] then Inr (Some firstUrl)
                      else
                        (case upscaleFlowImage g mediaId
                                (if res = ascii ''4K''
                                 then ascii ''UPSAMPLE_IMAGE_RESOLUTION_4K''
                                 else ascii ''UPSAMPLE_IMAGE_RESOLUTION_2K'') of
                           Inl e \<Rightarrow> Inl e
                         | Inr upscaledUrl \<Rightarrow> Inr (Some (orElse upscaledUrl firstUrl))))
               else Inr (Some firstUrl)))"

definition units :: "generation \<Rightarrow> view_props \<Rightarrow> jsstring option throws list" where
  "units g p = map (generation_unit g (resolution p)) [0..<numberOfImages p]"

text \<open>\<open>results.filter(url => url !== null)\<close>, in the order of the units.\<close>

definition successfulUrls :: "jsstring option throws list \<Rightarrow> jsstring list" where
  "successfulUrls us =
     concat (map (\<lambda>u. case u of Inr (Some url) \<Rightarrow> [url] | _ \<Rightarrow> []) us)"

text \<open>The error of the unit that failed last, if a unit failed.\<close>

definition lastError :: "generation \<Rightarrow> jsstring option throws list \<Rightarrow> jsstring option" where
  "lastError g us =
     (case concat (map (\<lambda>i. if i < length us
                             then (case us ! i of Inl e \<Rightarrow> [e] | Inr r \<Rightarrow> [])
                             else []) (settle_order g)) of
        [] \<Rightarrow> None
      | e # es \<Rightarrow> Some (last (e # es)))"

definition DEDUCT_DESCRIPTION :: "runtime \<Rightarrow> view_props \<Rightarrow> jsstring" where
  "DEDUCT_DESCRIPTION rt p =
     [0x110, 0x1ED3] @ ascii ''ng b'' @ [0x1ED9] @ ascii '' view ('' @
     numText rt (int (numberOfImages p)) @ ascii '' '' @ [0x1EA3] @ ascii ''nh) - '' @
     resolution p"

definition REFUND_DESCRIPTION :: "jsstring \<Rightarrow> jsstring" where
  "REFUND_DESCRIPTION rawMsg =
     ascii ''Ho'' @ [0xE0] @ ascii ''n ti'' @ [0x1EC1] @ ascii ''n: L'' @ [0x1ED7] @ ascii ''i '' @
     [0x111, 0x1ED3] @ ascii ''ng b'' @ [0x1ED9] @ ascii '' view ('' @ rawMsg @ ascii '')''"

definition GENERATION_FAILED :: jsstring where
  "GENERATION_FAILED =
     ascii ''L'' @ [0x1ED7] @ ascii ''i t'' @ [0x1EA1] @ ascii ''o '' @ [0x1EA3] @ ascii ''nh.''"

text \<open>
  The refund of the \<open>catch\<close> block: issued when a usage log id was obtained and the
  user is still signed in; a rejected refund is logged, not rethrown.
\<close>

definition refund_after_failure ::
  "runtime \<Rightarrow> view_props \<Rightarrow> jsstring option \<Rightarrow> jsstring \<Rightarrow> world \<Rightarrow> world" where
  "refund_after_failure rt p logId rawMsg w =
     (case logId of
        None \<Rightarrow> w
      | Some l \<Rightarrow>
          if l \<noteq> [] \<and> onDeductCredits p \<noteq> None then
            (case session_user w of
               None \<Rightarrow> w
             | Some user \<Rightarrow>
                 snd (refundCredits rt user (totalCost p) (REFUND_DESCRIPTION rawMsg) l w))
          else w)"

text \<open>
  The \<open>catch\<close> block: classify and signal, refund, then mark the job \<open>failed\<close> with
  the raw message.
\<close>

definition failure_handler ::
  "generation \<Rightarrow> runtime \<Rightarrow> view_props \<Rightarrow> jsstring option \<Rightarrow> jsstring option \<Rightarrow> jsstring
     \<Rightarrow> world \<Rightarrow> world" where
  "failure_handler g rt p logId jobId rawMsg w =
     (let friendlyKey = mapFriendlyErrorMessage (upper_table g) rawMsg;
          w1 = w\<lparr>ui := ui w @ [if friendlyKey = ascii ''SAFETY_POLICY_VIOLATION''
                                then SafetyModal else ErrorText friendlyKey]\<rparr>;
          w2 = refund_after_failure rt p logId rawMsg w1
      in case jobId of
           None \<Rightarrow> w2
         | Some j \<Rightarrow> if j \<noteq> [] then updateJobStatus rt j failed None (Some rawMsg) w2 else w2)"

text \<open>
  The handler up to the point where the units are issued. \<open>Settled\<close>: the handler has
  returned (not enough credits, no source image, or an error before the generation, which
  the \<open>catch\<close> block has handled). \<open>Awaiting logId jobId\<close>: the units are running.
\<close>

datatype pending_run = Settled | Awaiting "jsstring option" "jsstring option"

definition handleGenerate_begin ::
  "generation \<Rightarrow> runtime \<Rightarrow> view_props \<Rightarrow> world \<Rightarrow> pending_run \<times> world" where
  "handleGenerate_begin g rt p w =
     (if onDeductCredits p \<noteq> None \<and> userCredits p < totalCost p
      then (Settled,
            if onInsufficientCredits p then w\<lparr>ui := ui w @ [InsufficientCreditsSignal]\<rparr> else w)
      else if \<not> sourceImage p then (Settled, w\<lparr>ui := ui w @ [InputImageError]\<rparr>)
      else
        (case (case onDeductCredits p of
                 None \<Rightarrow> Inr None
               | Some deduct \<Rightarrow> deduct (totalCost p) (DEDUCT_DESCRIPTION rt p)) of
           Inl e \<Rightarrow> (Settled, failure_handler g rt p None None e w)
         | Inr logId \<Rightarrow>
             (case (case session_user w of
                      None \<Rightarrow> (Inr None, w)
                    | Some user \<Rightarrow>
                        if truthy logId then
                          (case createJob rt
                                  \<lparr>data_user_id = user, data_tool_id = Tool_ViewSync p,
                                   data_prompt = orElse (Some (customPrompt p))
                                                   (ascii ''Synced view rendering''),
                                   data_cost = totalCost p, data_usage_log_id = logId\<rparr> 2 w of
                             (Inl e, w1) \<Rightarrow> (Inl e, w1)
                           | (Inr newId, w1) \<Rightarrow> (Inr (Some newId), w1))
                        else (Inr None, w)) of
                (Inl e, w1) \<Rightarrow> (Settled, failure_handler g rt p logId None e w1)
              | (Inr jobId, w1) \<Rightarrow>
                  (Awaiting logId jobId,
                   case jobId of
                     None \<Rightarrow> w1
                   | Some j \<Rightarrow>
                       if j \<noteq> [] then updateJobStatus rt j processing None None w1 else w1))))"

text \<open>The handler from \<open>Promise.all\<close> on.\<close>

definition handleGenerate_settle ::
  "generation \<Rightarrow> runtime \<Rightarrow> view_props \<Rightarrow> jsstring option \<Rightarrow> jsstring option \<Rightarrow> world \<Rightarrow> world" where
  "handleGenerate_settle g rt p logId jobId w =
     (case successfulUrls (units g p) of
        firstUrl # others \<Rightarrow>
          (case jobId of
             None \<Rightarrow> w
           | Some j \<Rightarrow>
               if j \<noteq> [] then updateJobStatus rt j completed (Some firstUrl) None w else w)
      | [] \<Rightarrow>
          failure_handler g rt p logId jobId
            (case lastError g (units g p) of None \<Rightarrow> GENERATION_FAILED | Some e \<Rightarrow> e) w)"

text \<open>\<open>handleGenerate\<close>, when nothing else runs while the units are awaited.\<close>

definition handleGenerate :: "generation \<Rightarrow> runtime \<Rightarrow> view_props \<Rightarrow> world \<Rightarrow> world" where
  "handleGenerate g rt p w =
     (case handleGenerate_begin g rt p w of
        (Settled, w1) \<Rightarrow> w1
      | (Awaiting logId jobId, w1) \<Rightarrow> handleGenerate_settle g rt p logId jobId w1)"

text \<open>Time passing between two operations.\<close>

definition advance :: "int \<Rightarrow> world \<Rightarrow> world" where
  "advance ms w = w\<lparr>now := now w + ms\<rparr>"


text \<open>
  For the statements about refunds: the number of refunds the ledger has applied against a usage log
  id, and the refund the \<open>catch\<close> block asks for.
\<close>

definition refunds_for :: "jsstring \<Rightarrow> world \<Rightarrow> nat" where
  "refunds_for logId w = length (filter (\<lambda>c. refund_log c = logId) (refunds w))"


definition lifecycle_refund :: "view_props \<Rightarrow> jsstring \<Rightarrow> jsstring \<Rightarrow> jsstring \<Rightarrow> refund_call" where
  "lifecycle_refund p user rawMsg logId =
     \<lparr>refund_user = user, refund_amount = totalCost p,
      refund_description = REFUND_DESCRIPTION rawMsg, refund_log = logId\<rparr>"


section \<open>Example runtimes and worlds\<close>

text \<open>
  The built-in \<open>encodeURIComponent\<close> for the example runtimes: the string is read as code
  points; a letter, a digit or one of \<open>- _ . ! ~ * ' ( )\<close> stays, any other code point is
  replaced by the bytes of its UTF-8 form, each written as \<open>%XX\<close>; a surrogate without
  its partner makes the call throw a \<open>URIError\<close>.
\<close>

definition hex_digit :: "nat \<Rightarrow> nat" where
  "hex_digit n = (if n < 10 then 48 + n else 55 + n)"

definition percent :: "nat \<Rightarrow> jsstring" where
  "percent byte = [37, hex_digit (byte div 16), hex_digit (byte mod 16)]"

definition unreserved :: "nat \<Rightarrow> bool" where
  "unreserved c \<longleftrightarrow>
     (65 \<le> c \<and> c \<le> 90) \<or> (97 \<le> c \<and> c \<le> 122) \<or> (48 \<le> c \<and> c \<le> 57) \<or>
     c \<in> {45, 95, 46, 33, 126, 42, 39, 40, 41}"

definition utf8 :: "nat \<Rightarrow> nat list" where
  "utf8 cp =
     (if cp < 0x80 then [cp]
      else if cp < 0x800 then [0xC0 + cp div 64, 0x80 + cp mod 64]
      else if cp < 0x10000 then [0xE0 + cp div 4096, 0x80 + cp div 64 mod 64, 0x80 + cp mod 64]
      else [0xF0 + cp div 262144, 0x80 + cp div 4096 mod 64, 0x80 + cp div 64 mod 64,
            0x80 + cp mod 64])"

fun encode_code_points :: "jsstring list \<Rightarrow> jsstring throws" where
  "encode_code_points [] = Inr []"
| "encode_code_points (cp # rest) =
     (case (case cp of
              [c] \<Rightarrow>
                if is_high c \<or> is_low c then Inl (ascii ''URI malformed'')
                else if unreserved c then Inr [c]
                else Inr (concat (map percent (utf8 c)))
            | [h, l] \<Rightarrow>
                Inr (concat (map percent (utf8 (0x10000 + (h - 0xD800) * 0x400 + (l - 0xDC00)))))
            | _ \<Rightarrow> Inl (ascii ''URI malformed'')) of
        Inl e \<Rightarrow> Inl e
      | Inr enc \<Rightarrow>
          (case encode_code_points rest of Inl e \<Rightarrow> Inl e | Inr tail \<Rightarrow> Inr (enc @ tail)))"

definition percent_encode :: "jsstring \<Rightarrow> jsstring throws" where
  "percent_encode s = encode_code_points (code_points s)"

text \<open>
  Concrete answers of the runtime, used to run the operations: \<open>offline_runtime\<close> fails
  every \<open>fetch\<close> and \<open>atob\<close>, stores every upload and applies every insert, update and
  refund; \<open>proxy_runtime\<close> differs in that the proxy endpoint answers with a PNG.
\<close>

definition offline_runtime :: runtime where
  "offline_runtime =
     \<lparr>atob = (\<lambda>s. Inl (ascii ''InvalidCharacterError'')),
      new_Blob = (\<lambda>bytes mime. \<lparr>blob_type = mime, blob_bytes = bytes\<rparr>),
      fetch = (\<lambda>url. Inl (ascii ''Failed to fetch'')),
      encodeURIComponent = percent_encode,
      image_pipeline = (\<lambda>b. None),
      numText = (\<lambda>n. ascii ''1700000000000''),
      random_text = ascii ''k3j9x2a'',
      storage_upload = (\<lambda>path b. Uploaded),
      getPublicUrl = (\<lambda>path. ascii ''https://p.supabase.co/storage/v1/object/public/assets/'' @ path),
      insert_answer = (\<lambda>t. InsertData (Some [ascii ''job-1''])),
      select_error = False,
      update_fails = (\<lambda>i. False),
      refund_throws = (\<lambda>c. False),
      BACKEND_URL = ascii ''https://api.example''\<rparr>"

definition png_blob :: blob where
  "png_blob = \<lparr>blob_type = ascii ''image/png'', blob_bytes = [137, 80, 78, 71]\<rparr>"

definition proxy_runtime :: runtime where
  "proxy_runtime =
     offline_runtime\<lparr>fetch := (\<lambda>url.
        if startsWith url (ascii ''https://api.example/proxy-download'')
        then Inr \<lparr>ok = True, body_blob = Inr png_blob\<rparr>
        else Inl (ascii ''Failed to fetch''))\<rparr>"

definition empty_world :: world where
  "empty_world =
     \<lparr>jobs = [], refunds = [], fetches = [], uploads = [], localStorage = [], timers = [],
      session_user = Some (ascii ''user-1''), ui = [], now = 1700000000000\<rparr>"

text \<open>What \<open>proxy_runtime\<close> stores for \<open>https://cdn.example/a.png\<close>, and the world after it.\<close>

definition stored_url :: jsstring where
  "stored_url = ascii ''https://p.supabase.co/storage/v1/object/public/assets/user-1/jobs/1700000000000_k3j9x2a.webp''"

definition world_after_store :: world where
  "world_after_store =
     empty_world\<lparr>fetches := [ascii ''https://cdn.example/a.png'',
                    ascii ''https://api.example/proxy-download?url=https%3A%2F%2Fcdn.example%2Fa.png''],
       uploads := [(ascii ''user-1/jobs/1700000000000_k3j9x2a.webp'', png_blob)]\<rparr>"


text \<open>
  \<open>cdn_runtime\<close> answers every request with a PNG; the object store of
  \<open>full_store_runtime\<close> answers every upload with an error; \<open>surrogate_url\<close> is a
  remote source that ends in a high surrogate without its partner.
\<close>

definition cdn_runtime :: runtime where
  "cdn_runtime = offline_runtime\<lparr>fetch := (\<lambda>url. Inr \<lparr>ok = True, body_blob = Inr png_blob\<rparr>)\<rparr>"

definition full_store_runtime :: runtime where
  "full_store_runtime = proxy_runtime\<lparr>storage_upload := (\<lambda>path b. UploadError)\<rparr>"

definition surrogate_url :: jsstring where
  "surrogate_url = ascii ''https://cdn.example/'' @ [0xD83D]"


text \<open>
  \<open>fk_runtime c\<close> rejects every insert made before the time \<open>c\<close> with a foreign-key
  error and accepts it from then on; \<open>view_job\<close> is a job as the view-sync tool creates it.
\<close>

definition fk_runtime :: "int \<Rightarrow> runtime" where
  "fk_runtime clears_at =
     offline_runtime\<lparr>insert_answer := (\<lambda>t.
        if t < clears_at
        then InsertError (ascii ''23503'') (ascii ''violates foreign key constraint'')
        else InsertData (Some [ascii ''job-1'']))\<rparr>"

definition view_job :: job_data where
  "view_job =
     \<lparr>data_user_id = ascii ''user-1'', data_tool_id = ascii ''ViewSync'',
      data_prompt = ascii ''Synced view rendering'', data_cost = 20,
      data_usage_log_id = Some (ascii ''log-1'')\<rparr>"


text \<open>
  A job that the reaper has marked \<open>failed\<close> with the timeout message, and a world that
  holds it.
\<close>

definition timed_out_job :: job where
  "timed_out_job =
     \<lparr>job_id = ascii ''job-1'', user_id = ascii ''user-1'', tool_id = ascii ''ViewSync'',
      prompt = ascii ''Synced view rendering'', cost = 20, usage_log_id = Some (ascii ''log-1''),
      job_status = failed, result_url = None, error_message = Some TIMEOUT_MESSAGE,
      created_at = 1699998800000, updated_at = 1699999990000\<rparr>"

definition late_world :: world where
  "late_world = empty_world\<lparr>jobs := [timed_out_job]\<rparr>"


text \<open>
  A world for the sweep, at a time when job-1 and job-5 are 20 minutes old, the video jobs
  job-2 and job-3 are 40 and 61 minutes old, and job-4 has completed; job-5 has no usage
  log id. \<open>rejecting_runtime\<close> is a ledger that rejects the refund of \<open>log-1\<close>.
\<close>

definition example_job :: "string \<Rightarrow> string \<Rightarrow> status \<Rightarrow> int \<Rightarrow> jsstring option \<Rightarrow> job" where
  "example_job i tool st minutes logId =
     \<lparr>job_id = ascii i, user_id = ascii ''user-1'', tool_id = ascii tool,
      prompt = ascii ''Synced view rendering'', cost = 20, usage_log_id = logId,
      job_status = st, result_url = None, error_message = None,
      created_at = 1700000000000 - minutes * 60000,
      updated_at = 1700000000000 - minutes * 60000\<rparr>"

definition sweep_world :: world where
  "sweep_world =
     empty_world\<lparr>jobs :=
       [example_job ''job-1'' ''ViewSync'' processing 20 (Some (ascii ''log-1'')),
        example_job ''job-2'' ''VideoGeneration'' processing 40 (Some (ascii ''log-2'')),
        example_job ''job-3'' ''VideoGeneration'' processing 61 (Some (ascii ''log-3'')),
        example_job ''job-4'' ''ViewSync'' completed 30 (Some (ascii ''log-4'')),
        example_job ''job-5'' ''ViewSync'' processing 20 None]\<rparr>"

definition rejecting_runtime :: runtime where
  "rejecting_runtime = offline_runtime\<lparr>refund_throws := (\<lambda>c. refund_log c = ascii ''log-1'')\<rparr>"


text \<open>
  An upper-case table for the examples: the Unicode entries of Basic Latin and the
  Vietnamese letters; every other code point is left as it is. The examples upper-case
  text of these letters only.
\<close>

definition example_table :: "jsstring \<Rightarrow> jsstring" where
  "example_table cp = (case cp of [c] \<Rightarrow> [upper_code c] | _ \<Rightarrow> cp)"

text \<open>
  A page that asks for three images at the standard resolution (15 credits), a backend
  whose second unit alone succeeds, one whose units all fail, the job the handler has
  created and marked \<open>processing\<close>, and the world that holds it.
\<close>

definition three_units :: generation where
  "three_units =
     \<lparr>generateFlowImage = (\<lambda>i.
        if i = 1
        then Inr \<lparr>imageUrls = Some [ascii ''https://cdn.example/a.png''], mediaIds = None\<rparr>
        else Inl (ascii ''503 Service Unavailable'')),
      upscaleFlowImage = (\<lambda>mediaId target. Inr None),
      settle_order = [1, 2, 0],
      upper_table = example_table\<rparr>"

definition view_page :: view_props where
  "view_page =
     \<lparr>numberOfImages = 3, resolution = ascii ''Standard'', userCredits = 100,
      onDeductCredits = Some (\<lambda>amount description. Inr (Some (ascii ''log-1''))),
      onInsufficientCredits = True, sourceImage = True, customPrompt = [],
      Tool_ViewSync = ascii ''ViewSync''\<rparr>"

definition running_job :: job where
  "running_job =
     \<lparr>job_id = ascii ''job-1'', user_id = ascii ''user-1'', tool_id = ascii ''ViewSync'',
      prompt = ascii ''Synced view rendering'', cost = 15, usage_log_id = Some (ascii ''log-1''),
      job_status = processing, result_url = None, error_message = None,
      created_at = 1700000000000, updated_at = 1700000000000\<rparr>"

definition running_world :: world where
  "running_world = empty_world\<lparr>jobs := [running_job]\<rparr>"

definition failing_units :: generation where
  "failing_units = three_units\<lparr>generateFlowImage := (\<lambda>i. Inl (ascii ''SAFETY_ERROR: blocked''))\<rparr>"


text \<open>
  The world after a sweep that runs 20 minutes after the handler has started, while its
  units are still awaited.
\<close>

definition swept_world :: world where
  "swept_world =
     cleanupStuckJobs proxy_runtime (ascii ''user-1'') (advance (20 * 60 * 1000) running_world)"


section \<open>Theorems\<close>

subsection \<open>Strings\<close>

lemma startsWith_iff: "startsWith s t \<longleftrightarrow> (\<exists>q. s = t @ q)"
  by (induction s t rule: startsWith.induct) auto

lemma includesJS_iff: "includesJS s t \<longleftrightarrow> (\<exists>p q. s = p @ t @ q)"
proof (induction s)
  case Nil
  then show ?case by simp
next
  case (Cons a s)
  show ?case
  proof
    assume "includesJS (a # s) t"
    then consider "startsWith (a # s) t" | "includesJS s t" by auto
    then show "\<exists>p q. a # s = p @ t @ q"
    proof cases
      case 1
      then obtain q where "a # s = t @ q" by (auto simp: startsWith_iff)
      then have "a # s = [] @ t @ q" by simp
      then show ?thesis by blast
    next
      case 2
      then obtain p q where "s = p @ t @ q" using Cons.IH by blast
      then have "a # s = (a # p) @ t @ q" by simp
      then show ?thesis by blast
    qed
  next
    assume "\<exists>p q. a # s = p @ t @ q"
    then obtain p q where pq: "a # s = p @ t @ q" by blast
    show "includesJS (a # s) t"
    proof (cases p)
      case Nil
      with pq have "startsWith (a # s) t" by (auto simp: startsWith_iff)
      then show ?thesis by simp
    next
      case (Cons b p')
      with pq have "s = p' @ t @ q" by simp
      then have "includesJS s t" using Cons.IH by blast
      then show ?thesis by simp
    qed
  qed
qed

lemma code_points_plain:
  "\<forall>c \<in> set s. \<not> is_high c \<Longrightarrow> code_points (s @ q) = map (\<lambda>c. [c]) s @ code_points q"
proof (induction s)
  case Nil
  then show ?case by simp
next
  case (Cons c s)
  then have ih: "code_points (s @ q) = map (\<lambda>c. [c]) s @ code_points q" and nh: "\<not> is_high c"
    by auto
  show ?case
  proof (cases "s @ q")
    case Nil
    then show ?thesis by simp
  next
    case (Cons d r)
    then have "code_points (c # s @ q) = [c] # code_points (s @ q)" using nh by simp
    then show ?thesis using ih by simp
  qed
qed

subsection \<open>Error classifier\<close>

lemma lv_bound: "latin_vietnamese c \<Longrightarrow> c < 0x1F00"
  unfolding latin_vietnamese_def by auto

lemma lv_not_surrogate: "latin_vietnamese c \<Longrightarrow> \<not> is_high c \<and> \<not> is_low c"
  using lv_bound[of c] by (simp add: is_high_def is_low_def)

lemma lv_ascii: "c < 128 \<Longrightarrow> latin_vietnamese c"
  by (simp add: latin_vietnamese_def)

lemma lv_latin1: "0xC0 \<le> c \<Longrightarrow> c \<le> 0xFE \<Longrightarrow> c \<noteq> 0xDF \<Longrightarrow> latin_vietnamese c"
  by (simp add: latin_vietnamese_def)

lemma lv_block: "0x1EA0 \<le> c \<Longrightarrow> c \<le> 0x1EFF \<Longrightarrow> latin_vietnamese c"
  by (simp add: latin_vietnamese_def)

lemma upper_code_cases:
  "upper_code c = c \<or> (latin_vietnamese c \<and> latin_vietnamese (upper_code c))"
proof -
  consider (a) "97 \<le> c \<and> c \<le> 122"
    | (b) "\<not> (97 \<le> c \<and> c \<le> 122)" "0xE0 \<le> c \<and> c \<le> 0xFE \<and> c \<noteq> 0xF7"
    | (c) "c = 0x103" | (d) "c = 0x111" | (e) "c = 0x129" | (f) "c = 0x169" | (g) "c = 0x1A1"
    | (h) "c = 0x1B0"
    | (i) "0x1EA0 \<le> c \<and> c \<le> 0x1EFF \<and> odd c"
    | (j) "\<not> (97 \<le> c \<and> c \<le> 122)" "\<not> (0xE0 \<le> c \<and> c \<le> 0xFE \<and> c \<noteq> 0xF7)"
          "c \<notin> {0x103, 0x111, 0x129, 0x169, 0x1A1}" "c \<noteq> 0x1B0"
          "\<not> (0x1EA0 \<le> c \<and> c \<le> 0x1EFF \<and> odd c)"
    by blast
  then show ?thesis
  proof cases
    case a
    then have "upper_code c = c - 32" by (simp add: upper_code_def)
    moreover have "latin_vietnamese c" using a by (intro lv_ascii) arith
    moreover have "latin_vietnamese (c - 32)" using a by (intro lv_ascii) arith
    ultimately show ?thesis by simp
  next
    case b
    then have "upper_code c = c - 32" by (simp add: upper_code_def)
    moreover have "latin_vietnamese c" using b by (intro lv_latin1) arith+
    moreover have "latin_vietnamese (c - 32)" using b by (intro lv_latin1) arith+
    ultimately show ?thesis by simp
  next
    case c then show ?thesis by (simp add: upper_code_def latin_vietnamese_def)
  next
    case d then show ?thesis by (simp add: upper_code_def latin_vietnamese_def)
  next
    case e then show ?thesis by (simp add: upper_code_def latin_vietnamese_def)
  next
    case f then show ?thesis by (simp add: upper_code_def latin_vietnamese_def)
  next
    case g then show ?thesis by (simp add: upper_code_def latin_vietnamese_def)
  next
    case h then show ?thesis by (simp add: upper_code_def latin_vietnamese_def)
  next
    case i
    then have "upper_code c = c - 1" by (simp add: upper_code_def)
    moreover have "latin_vietnamese c" using i by (intro lv_block) arith+
    moreover have "c \<noteq> 0x1EA0" using i by auto
    then have "latin_vietnamese (c - 1)" using i by (intro lv_block) arith+
    ultimately show ?thesis by simp
  next
    case j
    have "upper_code c = c" unfolding upper_code_def by (simp only: j if_False)
    then show ?thesis by simp
  qed
qed

lemma upper_code_lv: "latin_vietnamese (upper_code c) = latin_vietnamese c"
  using upper_code_cases[of c] by auto

lemma upper_code_other: "\<not> latin_vietnamese c \<Longrightarrow> upper_code c = c"
  using upper_code_cases[of c] by auto

lemma upper_code_eq:
  assumes "upper_code x = upper_code y"
  shows "x = y \<or> (latin_vietnamese x \<and> latin_vietnamese y)"
proof (cases "latin_vietnamese x")
  case True
  then have "latin_vietnamese (upper_code y)" using assms upper_code_lv[of x] by simp
  then show ?thesis using True by (simp add: upper_code_lv)
next
  case False
  then have "\<not> latin_vietnamese (upper_code y)" using assms upper_code_lv[of x] by simp
  then have "\<not> latin_vietnamese y" by (simp add: upper_code_lv)
  then show ?thesis using False assms by (simp add: upper_code_other)
qed

lemma code_points_append:
  "b = [] \<or> \<not> is_low (hd b) \<Longrightarrow> code_points (a @ b) = code_points a @ code_points b"
proof (induction a rule: code_points.induct)
  case 1
  then show ?case by simp
next
  case (2 c)
  then show ?case by (cases b) auto
next
  case (3 c d r)
  then show ?case by auto
qed

lemma toUpperCase_piece:
  assumes t: "agrees_with_unicode table" and s: "\<forall>c \<in> set s. latin_vietnamese c"
  shows "\<exists>x y. toUpperCase table (p @ s @ q) = x @ map upper_code s @ y"
proof (cases s)
  case Nil
  then have "toUpperCase table (p @ s @ q) = [] @ map upper_code s @ toUpperCase table (p @ q)" by simp
  then show ?thesis by blast
next
  case (Cons c s')
  then have "\<not> is_low (hd (s @ q))" using s lv_not_surrogate[of c] by simp
  then have 1: "code_points (p @ s @ q) = code_points p @ code_points (s @ q)"
    by (simp add: code_points_append)
  have "\<forall>c \<in> set s. \<not> is_high c" using s lv_not_surrogate by blast
  then have 2: "code_points (s @ q) = map (\<lambda>c. [c]) s @ code_points q"
    by (rule code_points_plain)
  have 3: "concat (map table (map (\<lambda>c. [c]) s)) = map upper_code s"
    using s t by (induction s) (auto simp: agrees_with_unicode_def)
  have "toUpperCase table (p @ s @ q) =
          toUpperCase table p @ map upper_code s @ toUpperCase table q"
    using 1 2 3 by (simp add: toUpperCase_def)
  then show ?thesis by blast
qed

lemma variant_units:
  assumes "map upper_code s = m" and "\<forall>c \<in> set m. latin_vietnamese c"
  shows "\<forall>c \<in> set s. latin_vietnamese c"
proof
  fix c assume "c \<in> set s"
  then have "upper_code c \<in> set m" using assms(1) by auto
  then have "latin_vietnamese (upper_code c)" using assms(2) by blast
  then show "latin_vietnamese c" by (simp add: upper_code_lv)
qed

lemma marker_found:
  assumes "agrees_with_unicode table" and "map upper_code s = m" and "\<forall>c \<in> set m. latin_vietnamese c"
  shows "includesJS (toUpperCase table (p @ s @ q)) m"
  using toUpperCase_piece[OF assms(1) variant_units[OF assms(2,3)], of p q] assms(2)
  by (auto simp: includesJS_iff)

lemma markers_units:
  "\<forall>m \<in> set (KHONG_DU_CREDITS # safety_markers). \<forall>c \<in> set m. latin_vietnamese c"
  by (simp add: KHONG_DU_CREDITS_def safety_markers_def ascii_def latin_vietnamese_def)

lemma table_same:
  assumes "agrees_with_unicode table" and "upper_code x = upper_code y"
  shows "table [x] = table [y]"
  using upper_code_eq[OF assms(2)] assms by (auto simp: agrees_with_unicode_def)

lemma surrogate_same:
  assumes "upper_code x = upper_code y"
  shows "is_high x = is_high y" and "is_low x = is_low y" and "is_high x \<or> is_low x \<Longrightarrow> x = y"
  using upper_code_eq[OF assms] lv_not_surrogate[of x] lv_not_surrogate[of y] by auto

lemma code_points_case:
  assumes t: "agrees_with_unicode table"
  shows "map upper_code a = map upper_code b \<Longrightarrow>
         map table (code_points a) = map table (code_points b)"
proof (induction a arbitrary: b rule: code_points.induct)
  case 1
  then show ?case by simp
next
  case (2 c)
  then obtain c' where b: "b = [c']" and e: "upper_code c = upper_code c'" by auto
  then show ?case using table_same[OF t e] by simp
next
  case (3 c d r)
  then obtain c' d' r' where b: "b = c' # d' # r'" and ec: "upper_code c = upper_code c'"
    and ed: "upper_code d = upper_code d'" and er: "map upper_code r = map upper_code r'"
    by (auto simp: map_eq_Cons_conv)
  show ?case
  proof (cases "is_high c \<and> is_low d")
    case True
    then have "c' = c" "d' = d" using surrogate_same(3)[OF ec] surrogate_same(3)[OF ed] by auto
    moreover have "map table (code_points r) = map table (code_points r')"
      using "3.IH"(1)[OF True er] .
    ultimately show ?thesis using True b by simp
  next
    case False
    then have f': "\<not> (is_high c' \<and> is_low d')"
      using surrogate_same(1)[OF ec] surrogate_same(2)[OF ed] by simp
    have "map upper_code (d # r) = map upper_code (d' # r')" using ed er by simp
    then have "map table (code_points (d # r)) = map table (code_points (d' # r'))"
      using "3.IH"(2)[OF False] by blast
    then show ?thesis using False f' b table_same[OF t ec] by auto
  qed
qed

lemma toUpperCase_case:
  assumes "agrees_with_unicode table" and "map upper_code a = map upper_code b"
  shows "toUpperCase table a = toUpperCase table b"
  using code_points_case[OF assms] by (simp add: toUpperCase_def)

lemma classifier_table:
  "mapFriendlyErrorMessage table msg =
           (if msg = [] then GENERIC_BACKEND_ERROR
            else if includesJS (toUpperCase table msg) KHONG_DU_CREDITS then INSUFFICIENT_CREDITS
            else if \<exists>m \<in> set safety_markers. includesJS (toUpperCase table msg) m then SAFETY_POLICY_VIOLATION
            else GENERIC_BACKEND_ERROR)"
    by (simp add: mapFriendlyErrorMessage_def GENERIC_BACKEND_ERROR_def INSUFFICIENT_CREDITS_def
        SAFETY_POLICY_VIOLATION_def safety_markers_def Let_def)

lemma agrees_example: "agrees_with_unicode example_table"
  by (simp add: agrees_with_unicode_def example_table_def)



lemma toUpperCase_plain:
  assumes "agrees_with_unicode table" and "\<forall>c \<in> set s. latin_vietnamese c"
  shows "toUpperCase table s = map upper_code s"
proof -
  have "\<forall>c \<in> set s. \<not> is_high c" using assms(2) lv_not_surrogate by blast
  then have "code_points (s @ []) = map (\<lambda>c. [c]) s @ code_points []" by (rule code_points_plain)
  moreover have "concat (map table (map (\<lambda>c. [c]) s)) = map upper_code s"
    using assms by (induction s) (auto simp: agrees_with_unicode_def)
  ultimately show ?thesis by (simp add: toUpperCase_def)
qed

text \<open>
  C2. For every input string the classifier applies its rules in order to the upper-cased
  message: the empty string gives the generic backend error; a message whose upper-casing
  contains the insufficient-credits marker gives the insufficient-credits kind; any other
  non-empty message whose upper-casing contains one of the safety, block, prohibited,
  upload-failure, invalid-argument, 400 or aspect-ratio markers gives
  \<open>SAFETY_POLICY_VIOLATION\<close>; everything else gives the generic backend error. The
  matching ignores case, for every upper-case table that has the Unicode entries of Basic
  Latin and the Vietnamese letters: a message that contains the credits marker written in
  any mix of upper and lower case gives the insufficient-credits kind; a message that
  contains a safety marker in any case, and to which the credits rule does not apply, gives
  \<open>SAFETY_POLICY_VIOLATION\<close>; two messages that differ only in the case of their letters
  are classified alike; and for a message of Latin and Vietnamese text the rules can be
  read on the message with each letter replaced by its capital.
\<close>

theorem classifier_ordered_rules:
  assumes "agrees_with_unicode table"
  shows "mapFriendlyErrorMessage table msg =
           (if msg = [] then GENERIC_BACKEND_ERROR
            else if includesJS (toUpperCase table msg) KHONG_DU_CREDITS then INSUFFICIENT_CREDITS
            else if \<exists>m \<in> set safety_markers. includesJS (toUpperCase table msg) m
              then SAFETY_POLICY_VIOLATION
            else GENERIC_BACKEND_ERROR)
         \<and> (\<forall>p s q. msg = p @ s @ q \<and> map upper_code s = KHONG_DU_CREDITS \<longrightarrow>
               mapFriendlyErrorMessage table msg = INSUFFICIENT_CREDITS)
         \<and> (\<forall>p s q m. msg = p @ s @ q \<and> m \<in> set safety_markers \<and> map upper_code s = m \<and>
               \<not> includesJS (toUpperCase table msg) KHONG_DU_CREDITS \<longrightarrow>
               mapFriendlyErrorMessage table msg = SAFETY_POLICY_VIOLATION)
         \<and> (\<forall>other. map upper_code other = map upper_code msg \<longrightarrow>
               mapFriendlyErrorMessage table other = mapFriendlyErrorMessage table msg)
         \<and> ((\<forall>c \<in> set msg. latin_vietnamese c) \<longrightarrow>
               mapFriendlyErrorMessage table msg =
                 (if msg = [] then GENERIC_BACKEND_ERROR
                  else if includesJS (map upper_code msg) KHONG_DU_CREDITS then INSUFFICIENT_CREDITS
                  else if \<exists>m \<in> set safety_markers. includesJS (map upper_code msg) m
                    then SAFETY_POLICY_VIOLATION
                  else GENERIC_BACKEND_ERROR))"
proof (intro conjI allI impI)
  show "mapFriendlyErrorMessage table msg =
           (if msg = [] then GENERIC_BACKEND_ERROR
            else if includesJS (toUpperCase table msg) KHONG_DU_CREDITS then INSUFFICIENT_CREDITS
            else if \<exists>m \<in> set safety_markers. includesJS (toUpperCase table msg) m
              then SAFETY_POLICY_VIOLATION
            else GENERIC_BACKEND_ERROR)"
    by (rule classifier_table)
next
  fix p s q
  assume a: "msg = p @ s @ q \<and> map upper_code s = KHONG_DU_CREDITS"
  then have "s \<noteq> []" by (auto simp: KHONG_DU_CREDITS_def ascii_def)
  then have ne: "msg \<noteq> []" using a by simp
  have "includesJS (toUpperCase table msg) KHONG_DU_CREDITS"
    using marker_found[OF assms, of s KHONG_DU_CREDITS p q] a markers_units by simp
  then show "mapFriendlyErrorMessage table msg = INSUFFICIENT_CREDITS"
    using ne by (simp add: classifier_table)
next
  fix p s q m
  assume a: "msg = p @ s @ q \<and> m \<in> set safety_markers \<and> map upper_code s = m \<and>
               \<not> includesJS (toUpperCase table msg) KHONG_DU_CREDITS"
  then have "m \<noteq> []" by (auto simp: safety_markers_def ascii_def)
  then have "s \<noteq> []" using a by auto
  then have ne: "msg \<noteq> []" using a by simp
  have "\<forall>c \<in> set m. latin_vietnamese c" using a markers_units by auto
  then have "includesJS (toUpperCase table msg) m"
    using marker_found[OF assms, of s m p q] a by simp
  then have ex: "\<exists>m \<in> set safety_markers. includesJS (toUpperCase table msg) m" using a by blast
  from a have nc: "\<not> includesJS (toUpperCase table msg) KHONG_DU_CREDITS" by blast
  from ne nc ex show "mapFriendlyErrorMessage table msg = SAFETY_POLICY_VIOLATION"
    by (simp add: classifier_table)
next
  fix other
  assume a: "map upper_code other = map upper_code msg"
  then have u: "toUpperCase table other = toUpperCase table msg"
    using assms by (rule toUpperCase_case[rotated])
  from a have "(other = []) = (msg = [])" by (metis map_is_Nil_conv)
  then show "mapFriendlyErrorMessage table other = mapFriendlyErrorMessage table msg"
    using u by (simp add: classifier_table)
next
  assume "\<forall>c \<in> set msg. latin_vietnamese c"
  then have "toUpperCase table msg = map upper_code msg"
    using assms by (rule toUpperCase_plain[rotated])
  then show "mapFriendlyErrorMessage table msg =
                 (if msg = [] then GENERIC_BACKEND_ERROR
                  else if includesJS (map upper_code msg) KHONG_DU_CREDITS then INSUFFICIENT_CREDITS
                  else if \<exists>m \<in> set safety_markers. includesJS (map upper_code msg) m
                    then SAFETY_POLICY_VIOLATION
                  else GENERIC_BACKEND_ERROR)"
    by (simp add: classifier_table)
qed

theorem classifier_ordered_rules_witness:
  "agrees_with_unicode example_table
   \<and> mapFriendlyErrorMessage example_table
        (ascii ''L'' @ [0x1ED7] @ ascii ''i: kh'' @ [0xF4] @ ascii ''ng '' @ [0x111, 0x1EE7] @ ascii '' credits'')
       = INSUFFICIENT_CREDITS
   \<and> mapFriendlyErrorMessage example_table (ascii ''Request was Blocked by policy'')
       = SAFETY_POLICY_VIOLATION
   \<and> mapFriendlyErrorMessage example_table (ascii ''REQUEST WAS BLOCKED BY POLICY'')
       = mapFriendlyErrorMessage example_table (ascii ''Request was Blocked by policy'')
   \<and> mapFriendlyErrorMessage example_table (ascii ''quota exceeded'') = GENERIC_BACKEND_ERROR"
proof -
  let ?credits = "ascii ''L'' @ [0x1ED7] @ ascii ''i: kh'' @ [0xF4] @ ascii ''ng '' @ [0x111, 0x1EE7] @ ascii '' credits''"
  let ?blocked = "ascii ''Request was Blocked by policy''"
  let ?quota = "ascii ''quota exceeded''"
  have h: "agrees_with_unicode example_table"
    by (simp add: agrees_with_unicode_def example_table_def)
  have c1: "?credits = (ascii ''L'' @ [0x1ED7] @ ascii ''i: '') @
              (ascii ''kh'' @ [0xF4] @ ascii ''ng '' @ [0x111, 0x1EE7] @ ascii '' credits'') @ []"
    by (simp add: ascii_def)
  have c2: "map upper_code (ascii ''kh'' @ [0xF4] @ ascii ''ng '' @ [0x111, 0x1EE7] @ ascii '' credits'')
              = KHONG_DU_CREDITS"
    by (simp add: ascii_def upper_code_def KHONG_DU_CREDITS_def)
  have b1: "?blocked = ascii ''Request was '' @ ascii ''Block'' @ ascii ''ed by policy''"
    by (simp add: ascii_def)
  have b2: "ascii ''BLOCK'' \<in> set safety_markers" by (simp add: safety_markers_def)
  have b3: "map upper_code (ascii ''Block'') = ascii ''BLOCK''"
    by (simp add: ascii_def upper_code_def)
  have bl: "\<forall>c \<in> set ?blocked. latin_vietnamese c"
    by (simp add: ascii_def latin_vietnamese_def)
  have b4: "\<not> includesJS (toUpperCase example_table ?blocked) KHONG_DU_CREDITS"
    unfolding toUpperCase_plain[OF h bl]
    by (simp add: ascii_def upper_code_def KHONG_DU_CREDITS_def)
  have o: "map upper_code (ascii ''REQUEST WAS BLOCKED BY POLICY'') = map upper_code ?blocked"
    by (simp add: ascii_def upper_code_def)
  have ql: "\<forall>c \<in> set ?quota. latin_vietnamese c"
    by (simp add: ascii_def latin_vietnamese_def)
  have q: "(if ?quota = [] then GENERIC_BACKEND_ERROR
            else if includesJS (map upper_code ?quota) KHONG_DU_CREDITS then INSUFFICIENT_CREDITS
            else if \<exists>m \<in> set safety_markers. includesJS (map upper_code ?quota) m
              then SAFETY_POLICY_VIOLATION
            else GENERIC_BACKEND_ERROR) = GENERIC_BACKEND_ERROR"
    by (simp add: ascii_def upper_code_def KHONG_DU_CREDITS_def safety_markers_def)
  note t1 = classifier_ordered_rules[OF h, of ?credits, THEN conjunct2, THEN conjunct1]
  note t2 = classifier_ordered_rules[OF h, of ?blocked, THEN conjunct2, THEN conjunct2]
  note t3 = classifier_ordered_rules[OF h, of ?quota, THEN conjunct2, THEN conjunct2, THEN conjunct2,
      THEN conjunct2]
  have r1: "mapFriendlyErrorMessage example_table ?credits = INSUFFICIENT_CREDITS"
    using t1 c1 c2 by blast
  have r2: "mapFriendlyErrorMessage example_table ?blocked = SAFETY_POLICY_VIOLATION"
    using t2[THEN conjunct1] b1 b2 b3 b4 by blast
  have r3: "mapFriendlyErrorMessage example_table (ascii ''REQUEST WAS BLOCKED BY POLICY'')
       = mapFriendlyErrorMessage example_table ?blocked"
    using t2[THEN conjunct2, THEN conjunct1] o by blast
  have r4: "mapFriendlyErrorMessage example_table ?quota = GENERIC_BACKEND_ERROR"
    using t3 ql q by simp
  from h r1 r2 r3 r4 show ?thesis by (intro conjI)
qed


subsection \<open>Asset persister\<close>

lemma do_fetch_world: "snd (do_fetch rt url w) = w\<lparr>fetches := fetches w @ [url]\<rparr>"
  by (simp add: do_fetch_def)

lemma direct_fetch_world: "snd (direct_fetch rt data w) = w\<lparr>fetches := fetches w @ [data]\<rparr>"
  by (simp add: direct_fetch_def do_fetch_def split: sum.splits)

lemma fetch_local_blob_world: "snd (fetch_local_blob rt data w) = w\<lparr>fetches := fetches w @ [data]\<rparr>"
  by (simp add: fetch_local_blob_def do_fetch_def split: sum.splits)

lemma proxy_fetch_uploads: "uploads (snd (proxy_fetch rt data w)) = uploads w"
  by (simp add: proxy_fetch_def do_fetch_def Let_def split: sum.splits)

lemma fetch_remote_uploads: "uploads (snd (fetch_remote rt data w)) = uploads w"
proof -
  have d: "uploads (snd (direct_fetch rt data w)) = uploads w"
    by (simp add: direct_fetch_world)
  show ?thesis
    using d proxy_fetch_uploads[of rt data "snd (direct_fetch rt data w)"]
    by (auto simp: fetch_remote_def split: prod.splits sum.splits)
qed

lemma store_blob_uploads:
  "\<exists>f b'. uploads (snd (store_blob rt u b e w)) = uploads w @ [(f, b')]"
  by (simp add: store_blob_def Let_def split: upload_result.splits prod.splits)

lemma persist_try_uploads:
  "uploads (snd (persist_try rt u data w)) = uploads w \<or>
   (\<exists>f b. uploads (snd (persist_try rt u data w)) = uploads w @ [(f, b)])"
proof -
  have s: "\<And>b e w'. uploads w' = uploads w \<Longrightarrow> \<exists>f b'. uploads (snd (store_blob rt u b e w')) = uploads w @ [(f, b')]"
    using store_blob_uploads by metis
  have l: "uploads (snd (fetch_local_blob rt data w)) = uploads w"
    by (simp add: fetch_local_blob_world)
  have r: "uploads (snd (fetch_remote rt data w)) = uploads w"
    by (rule fetch_remote_uploads)
  show ?thesis
    unfolding persist_try_def
    using s l r
    by (auto split: sum.splits prod.splits option.splits)
qed

lemma persist_world: "snd (persistResultToStorage rt u data w) = snd (persist_try rt u data w)"
  by (simp add: persistResultToStorage_def split: prod.splits sum.splits)

lemma persist_uploads:
  "uploads (snd (persistResultToStorage rt u data w)) = uploads w \<or>
   (\<exists>f b. uploads (snd (persistResultToStorage rt u data w)) = uploads w @ [(f, b)])"
  using persist_try_uploads[of rt u data w] by (simp add: persist_world)

lemma persist_durable: "already_durable data \<Longrightarrow> persistResultToStorage rt u data w = (Inr (Some data), w)"
  by (simp add: persistResultToStorage_def persist_try_def already_durable_def)

lemma persist_try_result:
  "fst (persist_try rt u data w) = Inr (Some url) \<Longrightarrow>
     url = data \<or>
     (\<exists>f b. url = getPublicUrl rt f \<and> storage_upload rt f b = Uploaded \<and>
            uploads (snd (persist_try rt u data w)) = uploads w @ [(f, b)])"
proof -
  have s: "\<And>b e w'. uploads w' = uploads w \<Longrightarrow> fst (store_blob rt u b e w') = Inr (Some url) \<Longrightarrow>
     (\<exists>f b'. url = getPublicUrl rt f \<and> storage_upload rt f b' = Uploaded \<and>
            uploads (snd (store_blob rt u b e w')) = uploads w @ [(f, b')])"
    by (auto simp: store_blob_def Let_def split: upload_result.splits prod.splits if_splits)
  have l: "uploads (snd (fetch_local_blob rt data w)) = uploads w"
    by (simp add: fetch_local_blob_world)
  have r: "uploads (snd (fetch_remote rt data w)) = uploads w"
    by (rule fetch_remote_uploads)
  assume a: "fst (persist_try rt u data w) = Inr (Some url)"
  show ?thesis
  proof (cases "already_durable data")
    case True
    with a show ?thesis by (simp add: persist_try_def already_durable_def)
  next
    case nd: False
    show ?thesis
    proof (cases "startsWith data (ascii ''data:'')")
      case True
      with a nd s[of w] show ?thesis
        by (auto simp: persist_try_def already_durable_def split: sum.splits)
    next
      case ndata: False
      show ?thesis
      proof (cases "startsWith data (ascii ''blob:'')")
        case True
        with a nd ndata l s[of "snd (fetch_local_blob rt data w)"] show ?thesis
          by (auto simp: persist_try_def already_durable_def split: sum.splits prod.splits)
      next
        case nblob: False
        show ?thesis
        proof (cases "startsWith data (ascii ''http'')")
          case True
          with a nd ndata nblob r s[of "snd (fetch_remote rt data w)"] show ?thesis
            by (auto simp: persist_try_def already_durable_def split: option.splits prod.splits)
        next
          case False
          with a nd ndata nblob show ?thesis
            by (auto simp: persist_try_def already_durable_def)
        qed
      qed
    qed
  qed
qed

lemma persist_fst:
  "fst (persistResultToStorage rt u data w) =
     (case fst (persist_try rt u data w) of Inl e \<Rightarrow> Inr None | Inr r \<Rightarrow> Inr r)"
  by (simp add: persistResultToStorage_def split: prod.splits sum.splits)

lemma persist_remote:
  "remote_source data \<Longrightarrow>
   persist_try rt u data w =
     (case fetch_remote rt data w of
        (None, w1) \<Rightarrow> (Inr None, w1)
      | (Some b, w1) \<Rightarrow> store_blob rt u b (remote_extension b data) w1)"
  by (auto simp: persist_try_def remote_source_def already_durable_def)

lemma store_blob_fetches: "fetches (snd (store_blob rt u b e w)) = fetches w"
  by (simp add: store_blob_def Let_def split: upload_result.splits prod.splits)

lemmas persist_defs =
  persistResultToStorage_def persist_try_def fetch_remote_def direct_fetch_def proxy_fetch_def
  fetch_local_blob_def decode_data_uri_def do_fetch_def store_blob_def compressImage_def
  remote_extension_def already_durable_def remote_source_def BUCKET_NAME_def

lemmas example_defs =
  offline_runtime_def proxy_runtime_def empty_world_def png_blob_def ascii_def

lemma percent_encode_ascii:
  assumes "\<forall>c \<in> set s. c < 128"
  shows "percent_encode s =
           Inr (concat (map (\<lambda>c. if unreserved c then [c] else percent c) s))"
proof -
  have n: "\<forall>c \<in> set s. \<not> is_high c" using assms by (auto simp: is_high_def)
  have "code_points (s @ []) = map (\<lambda>c. [c]) s @ code_points []"
    using n by (rule code_points_plain)
  then have cp: "code_points s = map (\<lambda>c. [c]) s" by simp
  have "encode_code_points (map (\<lambda>c. [c]) s) =
          Inr (concat (map (\<lambda>c. if unreserved c then [c] else percent c) s))"
    using assms
  proof (induction s)
    case Nil
    then show ?case by simp
  next
    case (Cons c s)
    then have c: "c < 128" and ih: "encode_code_points (map (\<lambda>c. [c]) s) =
          Inr (concat (map (\<lambda>c. if unreserved c then [c] else percent c) s))" by auto
    from c have "\<not> is_high c" "\<not> is_low c" "utf8 c = [c]"
      by (auto simp: is_high_def is_low_def utf8_def)
    then show ?case using ih by simp
  qed
  then show ?thesis by (simp add: percent_encode_def cp)
qed

lemma encoded_example:
  "percent_encode (ascii ''https://cdn.example/a.png'') = Inr (ascii ''https%3A%2F%2Fcdn.example%2Fa.png'')"
proof -
  have "\<forall>c \<in> set (ascii ''https://cdn.example/a.png''). c < 128" by (simp add: ascii_def)
  then show ?thesis
    by (simp add: percent_encode_ascii) (simp add: ascii_def unreserved_def percent_def hex_digit_def)
qed

lemma proxy_example:
  "persistResultToStorage proxy_runtime (ascii ''user-1'') (ascii ''https://cdn.example/a.png'') empty_world
     = (Inr (Some stored_url), world_after_store)"
  using encoded_example
  by (simp add: persist_defs example_defs stored_url_def world_after_store_def Let_def)

lemma stored_url_durable: "already_durable stored_url"
  by (simp add: already_durable_def BUCKET_NAME_def stored_url_def ascii_def)

text \<open>
  C10. A source string that is not a storage URL of this system and starts with none of
  \<open>data:\<close>, \<open>blob:\<close> and \<open>http\<close> is returned as it is: the result is the input, not
  \<open>null\<close> and not a throw, and the world is unchanged, so nothing was fetched or uploaded.
\<close>

theorem persist_unrecognized_unchanged:
  assumes "\<not> already_durable data"
    and "\<not> startsWith data (ascii ''data:'')"
    and "\<not> startsWith data (ascii ''blob:'')"
    and "\<not> startsWith data (ascii ''http'')"
  shows "persistResultToStorage rt userId data w = (Inr (Some data), w)"
  using assms by (simp add: persistResultToStorage_def persist_try_def already_durable_def)

theorem persist_unrecognized_unchanged_witness:
  "\<not> already_durable (ascii ''/previews/room.png'')
   \<and> \<not> startsWith (ascii ''/previews/room.png'') (ascii ''data:'')
   \<and> \<not> startsWith (ascii ''/previews/room.png'') (ascii ''blob:'')
   \<and> \<not> startsWith (ascii ''/previews/room.png'') (ascii ''http'')
   \<and> persistResultToStorage offline_runtime (ascii ''user-1'') (ascii ''/previews/room.png'') empty_world
       = (Inr (Some (ascii ''/previews/room.png'')), empty_world)"
proof -
  let ?d = "ascii ''/previews/room.png''"
  have h1: "\<not> already_durable ?d" by (simp add: persist_defs ascii_def)
  have h2: "\<not> startsWith ?d (ascii ''data:'')" by (simp add: ascii_def)
  have h3: "\<not> startsWith ?d (ascii ''blob:'')" by (simp add: ascii_def)
  have h4: "\<not> startsWith ?d (ascii ''http'')" by (simp add: ascii_def)
  from persist_unrecognized_unchanged[OF h1 h2 h3 h4, of offline_runtime "ascii ''user-1''" empty_world]
    h1 h2 h3 h4
  show ?thesis by simp
qed

text \<open>
  C5. A source recognised as a storage URL of this system (it carries the host marker and
  the bucket marker) is returned unchanged and the world with it, so nothing is uploaded.
  Hence persisting the durable result of a first call again returns the same URL and adds
  no upload: the two calls together made the uploads of the first, which is at most one.
\<close>

theorem persist_idempotent_on_durable:
  "(already_durable data \<longrightarrow> persistResultToStorage rt u data w = (Inr (Some data), w))
   \<and> (persistResultToStorage rt u x w = (Inr (Some r), w1) \<and> already_durable r \<longrightarrow>
        persistResultToStorage rt' u r w1 = (Inr (Some r), w1)
        \<and> (uploads w1 = uploads w \<or> (\<exists>f b. uploads w1 = uploads w @ [(f, b)])))"
proof (intro conjI impI)
  assume "already_durable data"
  then show "persistResultToStorage rt u data w = (Inr (Some data), w)" by (rule persist_durable)
next
  assume a: "persistResultToStorage rt u x w = (Inr (Some r), w1) \<and> already_durable r"
  then show "persistResultToStorage rt' u r w1 = (Inr (Some r), w1)" by (simp add: persist_durable)
  from a have "snd (persistResultToStorage rt u x w) = w1" by simp
  with persist_uploads[of rt u x w]
  show "uploads w1 = uploads w \<or> (\<exists>f b. uploads w1 = uploads w @ [(f, b)])" by simp
qed


theorem persist_idempotent_on_durable_witness:
  "already_durable stored_url
   \<and> persistResultToStorage proxy_runtime (ascii ''user-1'') (ascii ''https://cdn.example/a.png'') empty_world
       = (Inr (Some stored_url), world_after_store)
   \<and> persistResultToStorage offline_runtime (ascii ''user-1'') stored_url world_after_store
       = (Inr (Some stored_url), world_after_store)
   \<and> length (uploads world_after_store) = length (uploads empty_world) + 1"
proof -
  note t = persist_idempotent_on_durable[where data = stored_url and rt = proxy_runtime
      and u = "ascii ''user-1''" and w = empty_world and x = "ascii ''https://cdn.example/a.png''"
      and r = stored_url and ?w1.0 = world_after_store and rt' = offline_runtime]
  have "length (uploads world_after_store) = length (uploads empty_world) + 1"
    by (simp add: world_after_store_def empty_world_def)
  with t proxy_example stored_url_durable show ?thesis by simp
qed


lemma persist_decode_failure:
  assumes "data_source data" and "atob rt (payload data) = Inl e"
  shows "persistResultToStorage rt u data w = (Inr None, w)"
  using assms
  by (simp add: persistResultToStorage_def persist_try_def decode_data_uri_def data_source_def
      already_durable_def payload_def Let_def)

lemma persist_blob_failure:
  assumes "blob_source data" and "unreadable (fetch rt data)"
  shows "persistResultToStorage rt u data w = (Inr None, requested [data] w)"
  using assms
  by (auto simp: persistResultToStorage_def persist_try_def fetch_local_blob_def do_fetch_def
      blob_source_def already_durable_def unreadable_def requested_def split: sum.splits)

lemma direct_fetch_failed:
  "fetch_failed (fetch rt data) \<Longrightarrow> \<exists>e. direct_fetch rt data w = (Inl e, requested [data] w)"
  by (auto simp: direct_fetch_def do_fetch_def fetch_failed_def requested_def split: sum.splits)

lemma direct_fetch_ok:
  "\<not> fetch_failed (fetch rt data) \<Longrightarrow> \<exists>b. direct_fetch rt data w = (Inr b, requested [data] w)"
  by (auto simp: direct_fetch_def do_fetch_def fetch_failed_def requested_def split: sum.splits)

lemma proxy_fetch_unencoded:
  "encodeURIComponent rt data = Inl e \<Longrightarrow> proxy_fetch rt data w = (Inl e, w)"
  by (simp add: proxy_fetch_def)

lemma proxy_fetch_failed:
  "encodeURIComponent rt data = Inr enc \<Longrightarrow> fetch_failed (fetch rt (proxy_url rt enc)) \<Longrightarrow>
   \<exists>e. proxy_fetch rt data w = (Inl e, requested [proxy_url rt enc] w)"
  by (auto simp: proxy_fetch_def do_fetch_def fetch_failed_def requested_def proxy_url_def Let_def
      split: sum.splits)

lemma proxy_fetch_ok:
  "encodeURIComponent rt data = Inr enc \<Longrightarrow> fetch rt (proxy_url rt enc) = Inr r \<Longrightarrow> ok r \<Longrightarrow>
   body_blob r = Inr b \<Longrightarrow> proxy_fetch rt data w = (Inr b, requested [proxy_url rt enc] w)"
  by (simp add: proxy_fetch_def do_fetch_def requested_def proxy_url_def Let_def)

lemma proxy_fetch_world:
  "encodeURIComponent rt data = Inr enc \<Longrightarrow>
   snd (proxy_fetch rt data w) = requested [proxy_url rt enc] w"
  by (simp add: proxy_fetch_def do_fetch_def requested_def proxy_url_def Let_def split: sum.splits)

lemma requested_twice: "requested [b] (requested [a] w) = requested [a, b] w"
  by (simp add: requested_def)

lemma store_blob_result:
  "uploads (snd (store_blob rt u b e w')) = uploads w' @ [(f, bl)] \<Longrightarrow>
   fst (store_blob rt u b e w') =
     (case storage_upload rt f bl of
        UploadThrows x \<Rightarrow> Inl x
      | UploadError \<Rightarrow> Inr None
      | Uploaded \<Rightarrow> Inr (Some (getPublicUrl rt f)))"
  by (auto simp: store_blob_def Let_def split: upload_result.splits if_splits)

lemma persist_try_shape:
  "uploads (snd (persist_try rt u data w)) = uploads w \<or>
   (\<exists>b e w'. uploads w' = uploads w \<and> persist_try rt u data w = store_blob rt u b e w')"
proof -
  have l: "uploads (snd (fetch_local_blob rt data w)) = uploads w"
    by (simp add: fetch_local_blob_world)
  have r: "uploads (snd (fetch_remote rt data w)) = uploads w"
    by (rule fetch_remote_uploads)
  show ?thesis
  proof (cases "already_durable data")
    case True
    then show ?thesis by (auto simp: persist_try_def already_durable_def)
  next
    case nd: False
    show ?thesis
    proof (cases "startsWith data (ascii ''data:'')")
      case True
      show ?thesis
      proof (cases "decode_data_uri rt data")
        case (Inl e)
        with True nd show ?thesis by (auto simp: persist_try_def already_durable_def)
      next
        case (Inr b)
        with True nd have "persist_try rt u data w = store_blob rt u b (ascii ''webp'') w"
          by (auto simp: persist_try_def already_durable_def)
        then show ?thesis by blast
      qed
    next
      case ndata: False
      show ?thesis
      proof (cases "startsWith data (ascii ''blob:'')")
        case True
        obtain a w1 where f: "fetch_local_blob rt data w = (a, w1)" by (cases "fetch_local_blob rt data w")
        with l have u: "uploads w1 = uploads w" by simp
        show ?thesis
        proof (cases a)
          case (Inl e)
          with True nd ndata f u show ?thesis by (auto simp: persist_try_def already_durable_def)
        next
          case (Inr b)
          with True nd ndata f have "persist_try rt u data w =
              store_blob rt u b (if startsWith (blob_type b) (ascii ''video'') then ascii ''mp4''
                else ascii ''webp'') w1"
            by (auto simp: persist_try_def already_durable_def)
          with u show ?thesis by blast
        qed
      next
        case nblob: False
        show ?thesis
        proof (cases "startsWith data (ascii ''http'')")
          case True
          obtain a w1 where f: "fetch_remote rt data w = (a, w1)" by (cases "fetch_remote rt data w")
          with r have u: "uploads w1 = uploads w" by simp
          show ?thesis
          proof (cases a)
            case None
            with True nd ndata nblob f u show ?thesis by (auto simp: persist_try_def already_durable_def)
          next
            case (Some b)
            with True nd ndata nblob f have "persist_try rt u data w =
                store_blob rt u b (remote_extension b data) w1"
              by (auto simp: persist_try_def already_durable_def)
            with u show ?thesis by blast
          qed
        next
          case False
          with nd ndata nblob show ?thesis by (auto simp: persist_try_def already_durable_def)
        qed
      qed
    qed
  qed
qed

lemma persist_after_upload:
  assumes "uploads (snd (persistResultToStorage rt u data w)) = uploads w @ [(f, bl)]"
  shows "fst (persistResultToStorage rt u data w) =
           (if storage_upload rt f bl = Uploaded then Inr (Some (getPublicUrl rt f)) else Inr None)"
proof -
  from assms have a: "uploads (snd (persist_try rt u data w)) = uploads w @ [(f, bl)]"
    by (simp add: persist_world)
  then have "uploads (snd (persist_try rt u data w)) \<noteq> uploads w" by simp
  with persist_try_shape[of rt u data w]
  obtain b e w' where w': "uploads w' = uploads w"
    and s: "persist_try rt u data w = store_blob rt u b e w'" by blast
  from a s w' have "uploads (snd (store_blob rt u b e w')) = uploads w' @ [(f, bl)]" by simp
  from store_blob_result[OF this] s
  have "fst (persist_try rt u data w) =
     (case storage_upload rt f bl of
        UploadThrows x \<Rightarrow> Inl x
      | UploadError \<Rightarrow> Inr None
      | Uploaded \<Rightarrow> Inr (Some (getPublicUrl rt f)))" by simp
  then show ?thesis by (simp add: persist_fst split: upload_result.splits)
qed

lemma persist_direct_ok:
  assumes "remote_source data" and "\<not> fetch_failed (fetch rt data)"
  shows "fetches (snd (persistResultToStorage rt u data w)) = fetches w @ [data]"
proof -
  from direct_fetch_ok[OF assms(2), of w] obtain b where
    "direct_fetch rt data w = (Inr b, requested [data] w)" by blast
  then have "fetch_remote rt data w = (Some b, requested [data] w)" by (simp add: fetch_remote_def)
  then show ?thesis using assms(1)
    by (simp add: persist_world persist_remote store_blob_fetches requested_def)
qed

lemma persist_unencoded:
  assumes "remote_source data" and "fetch_failed (fetch rt data)"
    and "encodeURIComponent rt data = Inl e"
  shows "persistResultToStorage rt u data w = (Inr None, requested [data] w)"
proof -
  from direct_fetch_failed[OF assms(2), of w] obtain e1 where
    "direct_fetch rt data w = (Inl e1, requested [data] w)" by blast
  then have "fetch_remote rt data w = (None, requested [data] w)"
    by (simp add: fetch_remote_def proxy_fetch_unencoded[OF assms(3)])
  then show ?thesis using assms(1) by (simp add: persistResultToStorage_def persist_remote)
qed

lemma persist_retry_requests:
  assumes "remote_source data" and "fetch_failed (fetch rt data)"
    and "encodeURIComponent rt data = Inr enc"
  shows "fetches (snd (persistResultToStorage rt u data w)) = fetches w @ [data, proxy_url rt enc]"
proof -
  from direct_fetch_failed[OF assms(2), of w] obtain e1 where
    d: "direct_fetch rt data w = (Inl e1, requested [data] w)" by blast
  obtain a w2 where p: "proxy_fetch rt data (requested [data] w) = (a, w2)"
    by (cases "proxy_fetch rt data (requested [data] w)")
  with proxy_fetch_world[OF assms(3), of "requested [data] w"]
  have w2: "w2 = requested [data, proxy_url rt enc] w" by (simp add: requested_twice)
  have "fetches (snd (fetch_remote rt data w)) = fetches w @ [data, proxy_url rt enc]"
    using d p w2 by (cases a) (simp_all add: fetch_remote_def requested_def)
  then show ?thesis using assms(1)
    by (auto simp: persist_world persist_remote store_blob_fetches split: prod.splits option.splits)
qed

lemma persist_proxy_failed:
  assumes "remote_source data" and "fetch_failed (fetch rt data)"
    and "encodeURIComponent rt data = Inr enc" and "fetch_failed (fetch rt (proxy_url rt enc))"
  shows "persistResultToStorage rt u data w = (Inr None, requested [data, proxy_url rt enc] w)"
proof -
  from direct_fetch_failed[OF assms(2), of w] obtain e1 where
    d: "direct_fetch rt data w = (Inl e1, requested [data] w)" by blast
  from proxy_fetch_failed[OF assms(3,4), of "requested [data] w"] obtain e2 where
    "proxy_fetch rt data (requested [data] w) = (Inl e2, requested [data, proxy_url rt enc] w)"
    by (auto simp: requested_twice)
  with d have "fetch_remote rt data w = (None, requested [data, proxy_url rt enc] w)"
    by (simp add: fetch_remote_def)
  then show ?thesis using assms(1) by (simp add: persistResultToStorage_def persist_remote)
qed

lemma persist_proxy_ok:
  assumes "remote_source data" and "fetch_failed (fetch rt data)"
    and "encodeURIComponent rt data = Inr enc"
    and "fetch rt (proxy_url rt enc) = Inr r" and "ok r" and "body_blob r = Inr b"
  shows "persistResultToStorage rt u data w =
           (case store_blob rt u b (remote_extension b data) (requested [data, proxy_url rt enc] w) of
              (Inl e2, w3) \<Rightarrow> (Inr None, w3)
            | (Inr x, w3) \<Rightarrow> (Inr x, w3))"
    and "\<exists>f b'. uploads (snd (persistResultToStorage rt u data w)) = uploads w @ [(f, b')]"
proof -
  from direct_fetch_failed[OF assms(2), of w] obtain e1 where
    d: "direct_fetch rt data w = (Inl e1, requested [data] w)" by blast
  from proxy_fetch_ok[OF assms(3,4,5,6), of "requested [data] w"]
  have "proxy_fetch rt data (requested [data] w) = (Inr b, requested [data, proxy_url rt enc] w)"
    by (simp add: requested_twice)
  with d have f: "fetch_remote rt data w = (Some b, requested [data, proxy_url rt enc] w)"
    by (simp add: fetch_remote_def)
  then have t: "persist_try rt u data w =
      store_blob rt u b (remote_extension b data) (requested [data, proxy_url rt enc] w)"
    using assms(1) by (simp add: persist_remote)
  then show "persistResultToStorage rt u data w =
           (case store_blob rt u b (remote_extension b data) (requested [data, proxy_url rt enc] w) of
              (Inl e2, w3) \<Rightarrow> (Inr None, w3)
            | (Inr x, w3) \<Rightarrow> (Inr x, w3))"
    by (simp add: persistResultToStorage_def)
  have "uploads (requested [data, proxy_url rt enc] w) = uploads w" by (simp add: requested_def)
  with store_blob_uploads[of rt u b "remote_extension b data" "requested [data, proxy_url rt enc] w"]
  show "\<exists>f b'. uploads (snd (persistResultToStorage rt u data w)) = uploads w @ [(f, b')]"
    using t by (simp add: persist_world)
qed

text \<open>
  C6. \<open>persistResultToStorage\<close> never throws: every run returns. A returned URL is the
  input itself or the public URL of a file whose upload succeeded. A failure ends in
  \<open>null\<close>: a \<open>data:\<close> source that \<open>atob\<close> rejects, with nothing requested or uploaded;
  a \<open>blob:\<close> source whose fetch is rejected or unreadable, after that one request; and
  an upload that the object store does not accept, since after an upload the result is the
  public URL when the store accepted it and \<open>null\<close> otherwise. A remote source whose direct
  fetch succeeds is requested once and the proxy is not asked. When the direct fetch
  fails and the proxy URL cannot be built, because \<open>encodeURIComponent\<close> throws, there is
  no retry and the result is \<open>null\<close>. When it can be built the proxy endpoint is asked
  exactly once, after the direct request; when the proxy fetch fails too the result is
  \<open>null\<close> and nothing is uploaded; when the proxy fetch succeeds the blob is uploaded, so
  that the result is \<open>null\<close> only if this upload fails.
\<close>

theorem persist_never_throws:
  "(\<exists>r. fst (persistResultToStorage rt u data w) = Inr r)
   \<and> (\<forall>url. fst (persistResultToStorage rt u data w) = Inr (Some url) \<longrightarrow>
         url = data \<or>
         (\<exists>f b. url = getPublicUrl rt f \<and> storage_upload rt f b = Uploaded \<and>
                uploads (snd (persistResultToStorage rt u data w)) = uploads w @ [(f, b)]))
   \<and> (data_source data \<and> atob rt (payload data) = Inl e \<longrightarrow>
         persistResultToStorage rt u data w = (Inr None, w))
   \<and> (blob_source data \<and> unreadable (fetch rt data) \<longrightarrow>
         persistResultToStorage rt u data w = (Inr None, requested [data] w))
   \<and> (\<forall>f b. uploads (snd (persistResultToStorage rt u data w)) = uploads w @ [(f, b)] \<longrightarrow>
         fst (persistResultToStorage rt u data w) =
           (if storage_upload rt f b = Uploaded then Inr (Some (getPublicUrl rt f)) else Inr None))
   \<and> (remote_source data \<and> \<not> fetch_failed (fetch rt data) \<longrightarrow>
         fetches (snd (persistResultToStorage rt u data w)) = fetches w @ [data])
   \<and> (remote_source data \<and> fetch_failed (fetch rt data) \<and> encodeURIComponent rt data = Inl e \<longrightarrow>
         persistResultToStorage rt u data w = (Inr None, requested [data] w))
   \<and> (remote_source data \<and> fetch_failed (fetch rt data) \<and> encodeURIComponent rt data = Inr enc \<longrightarrow>
         fetches (snd (persistResultToStorage rt u data w)) = fetches w @ [data, proxy_url rt enc]
         \<and> (fetch_failed (fetch rt (proxy_url rt enc)) \<longrightarrow>
               persistResultToStorage rt u data w =
                 (Inr None, requested [data, proxy_url rt enc] w))
         \<and> (\<forall>r b. fetch rt (proxy_url rt enc) = Inr r \<and> ok r \<and> body_blob r = Inr b \<longrightarrow>
               persistResultToStorage rt u data w =
                 (case store_blob rt u b (remote_extension b data)
                         (requested [data, proxy_url rt enc] w) of
                    (Inl e2, w3) \<Rightarrow> (Inr None, w3)
                  | (Inr x, w3) \<Rightarrow> (Inr x, w3))
               \<and> (\<exists>f b'. uploads (snd (persistResultToStorage rt u data w)) = uploads w @ [(f, b')])))"
proof (intro conjI allI impI)
  show "\<exists>r. fst (persistResultToStorage rt u data w) = Inr r"
    by (simp add: persist_fst split: sum.splits)
next
  fix url
  assume "fst (persistResultToStorage rt u data w) = Inr (Some url)"
  then have "fst (persist_try rt u data w) = Inr (Some url)"
    by (simp add: persist_fst split: sum.splits)
  from persist_try_result[OF this]
  show "url = data \<or>
         (\<exists>f b. url = getPublicUrl rt f \<and> storage_upload rt f b = Uploaded \<and>
                uploads (snd (persistResultToStorage rt u data w)) = uploads w @ [(f, b)])"
    by (simp add: persist_world)
next
  assume "data_source data \<and> atob rt (payload data) = Inl e"
  then show "persistResultToStorage rt u data w = (Inr None, w)"
    using persist_decode_failure by blast
next
  assume "blob_source data \<and> unreadable (fetch rt data)"
  then show "persistResultToStorage rt u data w = (Inr None, requested [data] w)"
    using persist_blob_failure by blast
next
  fix f b
  assume "uploads (snd (persistResultToStorage rt u data w)) = uploads w @ [(f, b)]"
  then show "fst (persistResultToStorage rt u data w) =
           (if storage_upload rt f b = Uploaded then Inr (Some (getPublicUrl rt f)) else Inr None)"
    by (rule persist_after_upload)
next
  assume "remote_source data \<and> \<not> fetch_failed (fetch rt data)"
  then show "fetches (snd (persistResultToStorage rt u data w)) = fetches w @ [data]"
    using persist_direct_ok by blast
next
  assume "remote_source data \<and> fetch_failed (fetch rt data) \<and> encodeURIComponent rt data = Inl e"
  then show "persistResultToStorage rt u data w = (Inr None, requested [data] w)"
    using persist_unencoded by blast
next
  assume "remote_source data \<and> fetch_failed (fetch rt data) \<and> encodeURIComponent rt data = Inr enc"
  then show "fetches (snd (persistResultToStorage rt u data w)) = fetches w @ [data, proxy_url rt enc]"
    using persist_retry_requests by blast
next
  assume "remote_source data \<and> fetch_failed (fetch rt data) \<and> encodeURIComponent rt data = Inr enc"
    and "fetch_failed (fetch rt (proxy_url rt enc))"
  then show "persistResultToStorage rt u data w = (Inr None, requested [data, proxy_url rt enc] w)"
    using persist_proxy_failed by blast
next
  fix r b
  assume a: "remote_source data \<and> fetch_failed (fetch rt data) \<and> encodeURIComponent rt data = Inr enc"
    and b: "fetch rt (proxy_url rt enc) = Inr r \<and> ok r \<and> body_blob r = Inr b"
  from a b have 1: "remote_source data" and 2: "fetch_failed (fetch rt data)"
    and 3: "encodeURIComponent rt data = Inr enc" and 4: "fetch rt (proxy_url rt enc) = Inr r"
    and 5: "ok r" and 6: "body_blob r = Inr b" by blast+
  show "persistResultToStorage rt u data w =
                 (case store_blob rt u b (remote_extension b data)
                         (requested [data, proxy_url rt enc] w) of
                    (Inl e2, w3) \<Rightarrow> (Inr None, w3)
                  | (Inr x, w3) \<Rightarrow> (Inr x, w3))"
    by (rule persist_proxy_ok(1)[OF 1 2 3 4 5 6])
  show "\<exists>f b'. uploads (snd (persistResultToStorage rt u data w)) = uploads w @ [(f, b')]"
    by (rule persist_proxy_ok(2)[OF 1 2 3 4 5 6])
qed

lemma store_example:
  "store_blob proxy_runtime (ascii ''user-1'') png_blob
     (remote_extension png_blob (ascii ''https://cdn.example/a.png''))
     (requested [ascii ''https://cdn.example/a.png'',
                 ascii ''https://api.example/proxy-download?url=https%3A%2F%2Fcdn.example%2Fa.png'']
        empty_world)
   = (Inr (Some stored_url), world_after_store)"
  by (simp add: store_blob_def compressImage_def remote_extension_def requested_def example_defs
      stored_url_def world_after_store_def Let_def)

lemma full_store_example:
  "persistResultToStorage full_store_runtime (ascii ''user-1'') (ascii ''https://cdn.example/a.png'')
     empty_world = (Inr None, world_after_store)"
  using encoded_example
  by (simp add: persist_defs example_defs full_store_runtime_def world_after_store_def Let_def)

lemma surrogate_example:
  "encodeURIComponent offline_runtime surrogate_url = Inl (ascii ''URI malformed'')"
proof -
  have "\<forall>c \<in> set (ascii ''https://cdn.example/''). \<not> is_high c"
    by (simp add: ascii_def is_high_def)
  then have "code_points (ascii ''https://cdn.example/'' @ [0xD83D]) =
      map (\<lambda>c. [c]) (ascii ''https://cdn.example/'') @ code_points [0xD83D]"
    by (rule code_points_plain)
  then show ?thesis
    by (simp add: offline_runtime_def surrogate_url_def percent_encode_def)
       (simp add: ascii_def is_high_def is_low_def unreserved_def utf8_def)
qed

theorem persist_never_throws_witness:
  "data_source (ascii ''data:image/png;base64,AAAA'')
   \<and> atob offline_runtime (payload (ascii ''data:image/png;base64,AAAA''))
       = Inl (ascii ''InvalidCharacterError'')
   \<and> persistResultToStorage offline_runtime (ascii ''user-1'') (ascii ''data:image/png;base64,AAAA'')
        empty_world = (Inr None, empty_world)
   \<and> blob_source (ascii ''blob:https://app.example/1'')
   \<and> unreadable (fetch offline_runtime (ascii ''blob:https://app.example/1''))
   \<and> persistResultToStorage offline_runtime (ascii ''user-1'') (ascii ''blob:https://app.example/1'')
        empty_world = (Inr None, requested [ascii ''blob:https://app.example/1''] empty_world)
   \<and> remote_source (ascii ''https://cdn.example/a.png'')
   \<and> fetch_failed (fetch offline_runtime (ascii ''https://cdn.example/a.png''))
   \<and> encodeURIComponent offline_runtime (ascii ''https://cdn.example/a.png'')
       = Inr (ascii ''https%3A%2F%2Fcdn.example%2Fa.png'')
   \<and> proxy_url offline_runtime (ascii ''https%3A%2F%2Fcdn.example%2Fa.png'')
       = ascii ''https://api.example/proxy-download?url=https%3A%2F%2Fcdn.example%2Fa.png''
   \<and> fetch_failed (fetch offline_runtime
         (ascii ''https://api.example/proxy-download?url=https%3A%2F%2Fcdn.example%2Fa.png''))
   \<and> persistResultToStorage offline_runtime (ascii ''user-1'') (ascii ''https://cdn.example/a.png'')
        empty_world
       = (Inr None,
          requested [ascii ''https://cdn.example/a.png'',
                     ascii ''https://api.example/proxy-download?url=https%3A%2F%2Fcdn.example%2Fa.png'']
            empty_world)
   \<and> remote_source surrogate_url
   \<and> fetch_failed (fetch offline_runtime surrogate_url)
   \<and> encodeURIComponent offline_runtime surrogate_url = Inl (ascii ''URI malformed'')
   \<and> persistResultToStorage offline_runtime (ascii ''user-1'') surrogate_url empty_world
       = (Inr None, requested [surrogate_url] empty_world)
   \<and> \<not> fetch_failed (fetch cdn_runtime (ascii ''https://cdn.example/a.png''))
   \<and> fetches (snd (persistResultToStorage cdn_runtime (ascii ''user-1'')
                     (ascii ''https://cdn.example/a.png'') empty_world))
       = [ascii ''https://cdn.example/a.png'']
   \<and> fetch proxy_runtime
         (ascii ''https://api.example/proxy-download?url=https%3A%2F%2Fcdn.example%2Fa.png'')
       = Inr \<lparr>ok = True, body_blob = Inr png_blob\<rparr>
   \<and> persistResultToStorage proxy_runtime (ascii ''user-1'') (ascii ''https://cdn.example/a.png'')
        empty_world = (Inr (Some stored_url), world_after_store)
   \<and> uploads (snd (persistResultToStorage full_store_runtime (ascii ''user-1'')
                     (ascii ''https://cdn.example/a.png'') empty_world))
       = uploads empty_world @ [(ascii ''user-1/jobs/1700000000000_k3j9x2a.webp'', png_blob)]
   \<and> storage_upload full_store_runtime (ascii ''user-1/jobs/1700000000000_k3j9x2a.webp'') png_blob
       = UploadError
   \<and> fst (persistResultToStorage full_store_runtime (ascii ''user-1'')
              (ascii ''https://cdn.example/a.png'') empty_world) = Inr None"
proof -
  let ?u = "ascii ''user-1''"
  let ?uri = "ascii ''data:image/png;base64,AAAA''"
  let ?blob = "ascii ''blob:https://app.example/1''"
  let ?d = "ascii ''https://cdn.example/a.png''"
  let ?enc = "ascii ''https%3A%2F%2Fcdn.example%2Fa.png''"
  let ?p = "ascii ''https://api.example/proxy-download?url=https%3A%2F%2Fcdn.example%2Fa.png''"
  let ?f = "ascii ''user-1/jobs/1700000000000_k3j9x2a.webp''"
  let ?bad = "ascii ''InvalidCharacterError''"
  let ?mal = "ascii ''URI malformed''"
  have a1: "data_source ?uri"
    by (simp add: data_source_def already_durable_def BUCKET_NAME_def ascii_def)
  have a2: "atob offline_runtime (payload ?uri) = Inl ?bad" by (simp add: offline_runtime_def)
  have a3: "persistResultToStorage offline_runtime ?u ?uri empty_world = (Inr None, empty_world)"
    by (rule persist_never_throws[where e = ?bad, THEN conjunct2, THEN conjunct2, THEN conjunct1,
          THEN mp]) (intro conjI a1 a2)
  have b1: "blob_source ?blob"
    by (simp add: blob_source_def already_durable_def BUCKET_NAME_def ascii_def)
  have b2: "unreadable (fetch offline_runtime ?blob)"
    by (simp add: unreadable_def offline_runtime_def)
  have b3: "persistResultToStorage offline_runtime ?u ?blob empty_world
      = (Inr None, requested [?blob] empty_world)"
    by (rule persist_never_throws[THEN conjunct2, THEN conjunct2, THEN conjunct2, THEN conjunct1,
          THEN mp]) (intro conjI b1 b2)
  have r1: "remote_source ?d"
    by (simp add: remote_source_def already_durable_def BUCKET_NAME_def ascii_def)
  have r2: "fetch_failed (fetch offline_runtime ?d)"
    by (simp add: fetch_failed_def offline_runtime_def)
  have r3: "encodeURIComponent offline_runtime ?d = Inr ?enc"
    by (simp add: offline_runtime_def encoded_example)
  have r4: "proxy_url offline_runtime ?enc = ?p"
    by (simp add: proxy_url_def offline_runtime_def ascii_def)
  have r5: "fetch_failed (fetch offline_runtime ?p)"
    by (simp add: fetch_failed_def offline_runtime_def)
  note retry = persist_never_throws[where rt = offline_runtime and u = ?u and data = ?d
      and w = empty_world and enc = ?enc, THEN conjunct2, THEN conjunct2, THEN conjunct2,
      THEN conjunct2, THEN conjunct2, THEN conjunct2, THEN conjunct2, THEN mp,
      THEN conjunct2, THEN conjunct1, THEN mp, unfolded r4]
  have r6: "persistResultToStorage offline_runtime ?u ?d empty_world
      = (Inr None, requested [?d, ?p] empty_world)"
    by (rule retry) (intro conjI r1 r2 r3, rule r5)
  have s1: "remote_source surrogate_url"
    by (simp add: remote_source_def already_durable_def BUCKET_NAME_def surrogate_url_def ascii_def)
  have s2: "fetch_failed (fetch offline_runtime surrogate_url)"
    by (simp add: fetch_failed_def offline_runtime_def)
  have s3: "encodeURIComponent offline_runtime surrogate_url = Inl ?mal"
    by (rule surrogate_example)
  have s4: "persistResultToStorage offline_runtime ?u surrogate_url empty_world
      = (Inr None, requested [surrogate_url] empty_world)"
    by (rule persist_never_throws[where e = ?mal, THEN conjunct2, THEN conjunct2, THEN conjunct2,
          THEN conjunct2, THEN conjunct2, THEN conjunct2, THEN conjunct1, THEN mp])
       (intro conjI s1 s2 s3)
  have c1: "\<not> fetch_failed (fetch cdn_runtime ?d)"
    by (simp add: fetch_failed_def cdn_runtime_def offline_runtime_def)
  have "fetches (snd (persistResultToStorage cdn_runtime ?u ?d empty_world))
      = fetches empty_world @ [?d]"
    by (rule persist_never_throws[THEN conjunct2, THEN conjunct2, THEN conjunct2, THEN conjunct2,
          THEN conjunct2, THEN conjunct1, THEN mp]) (intro conjI r1 c1)
  then have c2: "fetches (snd (persistResultToStorage cdn_runtime ?u ?d empty_world)) = [?d]"
    by (simp add: empty_world_def)
  have p1: "remote_source ?d \<and> fetch_failed (fetch proxy_runtime ?d) \<and>
      encodeURIComponent proxy_runtime ?d = Inr ?enc"
    using r1 by (simp add: fetch_failed_def proxy_runtime_def offline_runtime_def encoded_example)
      (simp add: ascii_def)
  have p2: "proxy_url proxy_runtime ?enc = ?p"
    by (simp add: proxy_url_def proxy_runtime_def offline_runtime_def ascii_def)
  have p3: "fetch proxy_runtime ?p = Inr \<lparr>ok = True, body_blob = Inr png_blob\<rparr>"
    by (simp add: proxy_runtime_def offline_runtime_def ascii_def)
  note stored = persist_never_throws[where rt = proxy_runtime and u = ?u and data = ?d
      and w = empty_world and enc = ?enc, THEN conjunct2, THEN conjunct2, THEN conjunct2,
      THEN conjunct2, THEN conjunct2, THEN conjunct2, THEN conjunct2, THEN mp,
      THEN conjunct2, THEN conjunct2, unfolded p2, rule_format,
      of "\<lparr>ok = True, body_blob = Inr png_blob\<rparr>" png_blob, THEN conjunct1]
  have "persistResultToStorage proxy_runtime ?u ?d empty_world =
      (case store_blob proxy_runtime ?u png_blob (remote_extension png_blob ?d)
              (requested [?d, ?p] empty_world) of
         (Inl e2, w3) \<Rightarrow> (Inr None, w3)
       | (Inr x, w3) \<Rightarrow> (Inr x, w3))"
    by (rule stored) (rule p1, simp add: p3)
  then have p4: "persistResultToStorage proxy_runtime ?u ?d empty_world
      = (Inr (Some stored_url), world_after_store)"
    by (simp add: store_example)
  have f1: "uploads (snd (persistResultToStorage full_store_runtime ?u ?d empty_world))
      = uploads empty_world @ [(?f, png_blob)]"
    by (simp add: full_store_example) (simp add: world_after_store_def empty_world_def)
  have f2: "storage_upload full_store_runtime ?f png_blob = UploadError"
    by (simp add: full_store_runtime_def)
  have "fst (persistResultToStorage full_store_runtime ?u ?d empty_world) =
      (if storage_upload full_store_runtime ?f png_blob = Uploaded
       then Inr (Some (getPublicUrl full_store_runtime ?f)) else Inr None)"
    by (rule persist_never_throws[THEN conjunct2, THEN conjunct2, THEN conjunct2, THEN conjunct2,
          THEN conjunct1, rule_format]) (rule f1)
  then have f3: "fst (persistResultToStorage full_store_runtime ?u ?d empty_world) = Inr None"
    by (simp add: f2)
  show ?thesis
    by (intro conjI a1 a2 a3 b1 b2 b3 r1 r2 r3 r4 r5 r6 s1 s2 s3 s4 c1 c2 p3 p4 f1 f2 f3)
qed

text \<open>
  Against C6 as it is worded (a remote source whose direct fetch fails is retried exactly
  once through the proxy, and \<open>null\<close> is returned only when the proxy fetch fails too):
  the direct fetch of \<open>surrogate_url\<close> fails and the only request made is the direct one,
  the proxy is never asked, and the result is \<open>null\<close>; and with an object store that
  rejects the upload, the proxy answers with the image and the result is \<open>null\<close> all the
  same.
\<close>

theorem persist_null_without_proxy_failure:
  "remote_source surrogate_url
   \<and> fetch_failed (fetch offline_runtime surrogate_url)
   \<and> persistResultToStorage offline_runtime (ascii ''user-1'') surrogate_url empty_world
       = (Inr None, empty_world\<lparr>fetches := [surrogate_url]\<rparr>)
   \<and> remote_source (ascii ''https://cdn.example/a.png'')
   \<and> fetch_failed (fetch full_store_runtime (ascii ''https://cdn.example/a.png''))
   \<and> fetch full_store_runtime
         (ascii ''https://api.example/proxy-download?url=https%3A%2F%2Fcdn.example%2Fa.png'')
       = Inr \<lparr>ok = True, body_blob = Inr png_blob\<rparr>
   \<and> persistResultToStorage full_store_runtime (ascii ''user-1'') (ascii ''https://cdn.example/a.png'')
        empty_world
       = (Inr None,
          empty_world\<lparr>fetches := [ascii ''https://cdn.example/a.png'',
                 ascii ''https://api.example/proxy-download?url=https%3A%2F%2Fcdn.example%2Fa.png''],
             uploads := [(ascii ''user-1/jobs/1700000000000_k3j9x2a.webp'', png_blob)]\<rparr>)"
proof -
  have s1: "remote_source surrogate_url"
    by (simp add: remote_source_def already_durable_def BUCKET_NAME_def surrogate_url_def ascii_def)
  have s2: "fetch_failed (fetch offline_runtime surrogate_url)"
    by (simp add: fetch_failed_def offline_runtime_def)
  have s3: "persistResultToStorage offline_runtime (ascii ''user-1'') surrogate_url empty_world
       = (Inr None, empty_world\<lparr>fetches := [surrogate_url]\<rparr>)"
    using persist_unencoded[OF s1 s2 surrogate_example, of "ascii ''user-1''" empty_world]
    by (simp add: requested_def empty_world_def)
  have r1: "remote_source (ascii ''https://cdn.example/a.png'')"
    by (simp add: remote_source_def already_durable_def BUCKET_NAME_def ascii_def)
  have r2: "fetch_failed (fetch full_store_runtime (ascii ''https://cdn.example/a.png''))"
    by (simp add: fetch_failed_def full_store_runtime_def proxy_runtime_def offline_runtime_def ascii_def)
  have r3: "fetch full_store_runtime
         (ascii ''https://api.example/proxy-download?url=https%3A%2F%2Fcdn.example%2Fa.png'')
       = Inr \<lparr>ok = True, body_blob = Inr png_blob\<rparr>"
    by (simp add: full_store_runtime_def proxy_runtime_def offline_runtime_def ascii_def)
  have r4: "persistResultToStorage full_store_runtime (ascii ''user-1'') (ascii ''https://cdn.example/a.png'')
        empty_world
       = (Inr None,
          empty_world\<lparr>fetches := [ascii ''https://cdn.example/a.png'',
                 ascii ''https://api.example/proxy-download?url=https%3A%2F%2Fcdn.example%2Fa.png''],
             uploads := [(ascii ''user-1/jobs/1700000000000_k3j9x2a.webp'', png_blob)]\<rparr>)"
    by (simp add: full_store_example world_after_store_def)
  show ?thesis by (intro conjI s1 s2 s3 r1 r2 r3 r4)
qed

subsection \<open>Job store: createJob\<close>

declare createJob.simps [simp del]

lemma waited_0: "waited 0 w = w"
  by (simp add: waited_def)

lemma waited_Suc: "waited k (await_timeout 1000 w) = waited (Suc k) w"
  by (simp add: waited_def await_timeout_def replicate_append_same)

lemma createJob_fk_step:
  assumes "fk_rejected rt (now w)" and "0 < retries"
  shows "createJob rt jd retries w = createJob rt jd (retries - 1) (await_timeout 1000 w)"
  using assms
  by (subst createJob.simps) (simp add: fk_rejected_def split: insert_result.splits)

lemma createJob_after_waits:
  assumes "\<forall>i<k. fk_rejected rt (now w + 1000 * int i)" and "int k \<le> retries"
  shows "createJob rt jd retries w = createJob rt jd (retries - int k) (waited k w)"
  using assms
proof (induction k arbitrary: retries w)
  case 0
  then show ?case by (simp add: waited_0)
next
  case (Suc k)
  from Suc.prems have f0: "fk_rejected rt (now w)" by force
  from Suc.prems have pos: "0 < retries" by simp
  let ?w = "await_timeout 1000 w"
  have later: "\<forall>i<k. fk_rejected rt (now ?w + 1000 * int i)"
  proof (intro allI impI)
    fix i assume "i < k"
    then have "fk_rejected rt (now w + 1000 * int (Suc i))" using Suc.prems by blast
    then show "fk_rejected rt (now ?w + 1000 * int i)"
      by (simp add: await_timeout_def algebra_simps)
  qed
  from Suc.prems have le: "int k \<le> retries - 1" by simp
  have "createJob rt jd retries w = createJob rt jd (retries - 1) ?w"
    using f0 pos by (rule createJob_fk_step)
  also have "\<dots> = createJob rt jd (retries - 1 - int k) (waited k ?w)"
    using later le by (rule Suc.IH)
  finally show ?case by (simp add: waited_Suc algebra_simps)
qed

lemma now_waited: "now (waited k w) = now w + 1000 * int k"
  by (simp add: waited_def)

lemma fk_runtime_answer:
  "insert_answer (fk_runtime c) t =
     (if t < c then InsertError (ascii ''23503'') (ascii ''violates foreign key constraint'')
      else InsertData (Some [ascii ''job-1'']))"
  by (simp add: fk_runtime_def)

lemma fk_runtime_rejected: "fk_rejected (fk_runtime c) t \<longleftrightarrow> t < c"
  by (simp add: fk_rejected_def fk_runtime_answer foreign_key_error_def)

text \<open>
  C7. When the insert is rejected with a foreign-key error, \<open>createJob\<close> waits one second
  and tries again, at most \<open>retries\<close> times (the callers leave the default, 2). After
  \<open>k \<le> retries\<close> such rejections, each followed by a wait of 1000 ms: if the next insert
  returns a row, \<open>createJob\<close> returns its id (the row is stored as \<open>pending\<close> and the
  transaction markers are cleared); if it is rejected again and the retries are used up
  (\<open>k = retries\<close>), or rejected with another error, \<open>createJob\<close> throws; if it returns
  no row, \<open>createJob\<close> throws the no-identifier error.
\<close>

theorem createJob_retry:
  assumes "\<forall>i<k. fk_rejected rt (now w + 1000 * int i)" and "int k \<le> retries"
  shows "(insert_answer rt (now w + 1000 * int k) = InsertData (Some (newId # others)) \<longrightarrow>
            createJob rt jd retries w =
              (Inr newId,
               (waited k w)\<lparr>jobs := jobs w @ [new_row newId jd (now w + 1000 * int k)],
                 localStorage := filter (\<lambda>key. key \<notin> set transaction_markers) (localStorage w)\<rparr>))
       \<and> (insert_answer rt (now w + 1000 * int k) = InsertError code message \<and>
          foreign_key_error code message \<and> int k = retries \<longrightarrow>
            createJob rt jd retries w = (Inl (rethrow message), waited k w))
       \<and> (insert_answer rt (now w + 1000 * int k) = InsertError code message \<and>
          \<not> foreign_key_error code message \<longrightarrow>
            createJob rt jd retries w = (Inl (rethrow message), waited k w))
       \<and> (insert_answer rt (now w + 1000 * int k) = InsertData None \<or>
          insert_answer rt (now w + 1000 * int k) = InsertData (Some []) \<longrightarrow>
            createJob rt jd retries w = (Inl (rethrow NO_ID_MESSAGE), waited k w))"
proof -
  have e: "createJob rt jd retries w = createJob rt jd (retries - int k) (waited k w)"
    using assms by (rule createJob_after_waits)
  let ?t = "now w + 1000 * int k"
  have c1: "createJob rt jd retries w =
              (Inr newId,
               (waited k w)\<lparr>jobs := jobs w @ [new_row newId jd ?t],
                 localStorage := filter (\<lambda>key. key \<notin> set transaction_markers) (localStorage w)\<rparr>)"
    if "insert_answer rt ?t = InsertData (Some (newId # others))"
    unfolding e using that
    by (subst createJob.simps) (simp add: now_waited, simp add: waited_def)
  have c2: "createJob rt jd retries w = (Inl (rethrow message), waited k w)"
    if "insert_answer rt ?t = InsertError code message" and "int k = retries"
    unfolding e using that
    by (subst createJob.simps) (simp add: now_waited)
  have c3: "createJob rt jd retries w = (Inl (rethrow message), waited k w)"
    if "insert_answer rt ?t = InsertError code message" and "\<not> foreign_key_error code message"
    unfolding e using that
    by (subst createJob.simps) (simp add: now_waited)
  have c4: "createJob rt jd retries w = (Inl (rethrow NO_ID_MESSAGE), waited k w)"
    if "insert_answer rt ?t = InsertData None \<or> insert_answer rt ?t = InsertData (Some [])"
    unfolding e using that
    by (subst createJob.simps) (auto simp: now_waited NO_ID_MESSAGE_def)
  from c1 c2 c3 c4 show ?thesis by blast
qed

theorem createJob_retry_witness:
  "fk_rejected (fk_runtime 1700000002000) (now empty_world + 1000 * int 0)
   \<and> fk_rejected (fk_runtime 1700000002000) (now empty_world + 1000 * int 1)
   \<and> int 2 \<le> 2
   \<and> insert_answer (fk_runtime 1700000002000) (now empty_world + 1000 * int 2)
       = InsertData (Some [ascii ''job-1''])
   \<and> fst (createJob (fk_runtime 1700000002000) view_job 2 empty_world) = Inr (ascii ''job-1'')
   \<and> timers (snd (createJob (fk_runtime 1700000002000) view_job 2 empty_world)) = [1000, 1000]
   \<and> fk_rejected (fk_runtime 1700000009000) (now empty_world + 1000 * int 0)
   \<and> fk_rejected (fk_runtime 1700000009000) (now empty_world + 1000 * int 1)
   \<and> insert_answer (fk_runtime 1700000009000) (now empty_world + 1000 * int 2)
       = InsertError (ascii ''23503'') (ascii ''violates foreign key constraint'')
   \<and> foreign_key_error (ascii ''23503'') (ascii ''violates foreign key constraint'')
   \<and> createJob (fk_runtime 1700000009000) view_job 2 empty_world
       = (Inl (ascii ''violates foreign key constraint''), waited 2 empty_world)
   \<and> timers (waited 2 empty_world) = [1000, 1000]"
proof -
  have n: "now empty_world = 1700000000000" by (simp add: empty_world_def)
  have h1: "\<forall>i<2. fk_rejected (fk_runtime 1700000002000) (now empty_world + 1000 * int i)"
    by (simp add: fk_runtime_rejected n)
  have h2: "int 2 \<le> 2" by simp
  have a1: "insert_answer (fk_runtime 1700000002000) (now empty_world + 1000 * int 2)
       = InsertData (Some [ascii ''job-1''])"
    by (simp add: fk_runtime_answer n)
  have h3: "\<forall>i<2. fk_rejected (fk_runtime 1700000009000) (now empty_world + 1000 * int i)"
    by (simp add: fk_runtime_rejected n)
  have a2: "insert_answer (fk_runtime 1700000009000) (now empty_world + 1000 * int 2)
       = InsertError (ascii ''23503'') (ascii ''violates foreign key constraint'')"
    by (simp add: fk_runtime_answer n)
  have fk: "foreign_key_error (ascii ''23503'') (ascii ''violates foreign key constraint'')"
    by (simp add: foreign_key_error_def)
  have rt: "rethrow (ascii ''violates foreign key constraint'') = ascii ''violates foreign key constraint''"
    by (simp add: rethrow_def orElse_def ascii_def)
  have tm: "timers (waited 2 empty_world) = [1000, 1000]"
    by (simp add: waited_def empty_world_def numeral_2_eq_2)
  note t1 = createJob_retry[OF h1 h2, where jd = view_job and newId = "ascii ''job-1''" and others = "[]"]
  note t2 = createJob_retry[OF h3 h2, where jd = view_job and code = "ascii ''23503''"
      and message = "ascii ''violates foreign key constraint''"]
  from t1 a1 have r1: "createJob (fk_runtime 1700000002000) view_job 2 empty_world =
      (Inr (ascii ''job-1''),
       (waited 2 empty_world)\<lparr>jobs := jobs empty_world @ [new_row (ascii ''job-1'') view_job (now empty_world + 1000 * int 2)],
         localStorage := filter (\<lambda>key. key \<notin> set transaction_markers) (localStorage empty_world)\<rparr>)"
    by blast
  from t2 a2 fk have r2: "createJob (fk_runtime 1700000009000) view_job 2 empty_world
       = (Inl (rethrow (ascii ''violates foreign key constraint'')), waited 2 empty_world)"
    by simp
  from r1 have r1a: "fst (createJob (fk_runtime 1700000002000) view_job 2 empty_world) = Inr (ascii ''job-1'')"
    by simp
  from r1 tm have r1b: "timers (snd (createJob (fk_runtime 1700000002000) view_job 2 empty_world)) = [1000, 1000]"
    by simp
  have i1: "fk_rejected (fk_runtime 1700000002000) (now empty_world + 1000 * int 0)"
    and i2: "fk_rejected (fk_runtime 1700000002000) (now empty_world + 1000 * int 1)"
    and i3: "fk_rejected (fk_runtime 1700000009000) (now empty_world + 1000 * int 0)"
    and i4: "fk_rejected (fk_runtime 1700000009000) (now empty_world + 1000 * int 1)"
    by (simp_all add: fk_runtime_rejected n)
  from i1 i2 i3 i4 h2 a1 r1a r1b a2 fk r2 rt tm show ?thesis by simp
qed

subsection \<open>Job store: updateJobStatus\<close>

lemma persist_returns: "\<exists>r. fst (persistResultToStorage rt u data w) = Inr r"
  by (simp add: persist_fst split: sum.splits)

text \<open>Frame: the persister changes only the fetch and upload logs.\<close>

lemma store_blob_inv:
  assumes "\<And>v U. P (v\<lparr>uploads := U\<rparr>) = P v"
  shows "P (snd (store_blob rt u b e w)) = P w"
  using assms by (auto simp: store_blob_def Let_def split: upload_result.splits prod.splits)

lemma fetch_remote_inv:
  assumes "\<And>v F. P (v\<lparr>fetches := F\<rparr>) = P v"
  shows "P (snd (fetch_remote rt data w)) = P w"
  using assms
  by (auto simp: fetch_remote_def direct_fetch_def proxy_fetch_def do_fetch_def Let_def
      split: sum.splits prod.splits)

lemma fetch_local_blob_inv:
  assumes "\<And>v F. P (v\<lparr>fetches := F\<rparr>) = P v"
  shows "P (snd (fetch_local_blob rt data w)) = P w"
  using assms by (simp add: fetch_local_blob_world)

lemma persist_try_inv:
  assumes f: "\<And>v F. P (v\<lparr>fetches := F\<rparr>) = P v" and u: "\<And>v U. P (v\<lparr>uploads := U\<rparr>) = P v"
  shows "P (snd (persist_try rt u data w)) = P w"
proof -
  have s: "\<And>b e v. P (snd (store_blob rt u b e v)) = P v"
    using u by (rule store_blob_inv)
  have l: "P (snd (fetch_local_blob rt data w)) = P w"
    using f by (rule fetch_local_blob_inv)
  have r: "P (snd (fetch_remote rt data w)) = P w"
    using f by (rule fetch_remote_inv)
  show ?thesis
    unfolding persist_try_def
    using s l r
    by (auto split: sum.splits prod.splits option.splits)
qed

lemma persist_inv:
  assumes "\<And>v F. P (v\<lparr>fetches := F\<rparr>) = P v" and "\<And>v U. P (v\<lparr>uploads := U\<rparr>) = P v"
  shows "P (snd (persistResultToStorage rt u data w)) = P w"
  using persist_try_inv[of P, OF assms] by (simp add: persist_world)

lemma persist_same_ledger: "same_ledger w (snd (persistResultToStorage rt u data w))"
  using persist_inv[of "same_ledger w" rt u data w] by (simp add: same_ledger_def)

lemma same_ledger_refl: "same_ledger w w"
  by (simp add: same_ledger_def)

lemma persist_url_key:
  assumes "persistResultToStorage rt u url w = (Inr pu, w1)" and "url \<noteq> []"
  shows "url_key rt (Some url) (Some (orElse pu url))"
proof (cases pu)
  case None
  with assms(2) show ?thesis by (simp add: url_key_def orElse_def)
next
  case (Some x)
  with assms(1) have "fst (persist_try rt u url w) = Inr (Some x)"
    by (simp add: persistResultToStorage_def split: prod.splits sum.splits)
  from persist_try_result[OF this]
  have "x = url \<or> (\<exists>f b. x = getPublicUrl rt f \<and> storage_upload rt f b = Uploaded)"
    by blast
  with Some assms(2) show ?thesis
    by (auto simp: url_key_def orElse_def)
qed

lemma apply_updates_id: "job_id (apply_updates u j) = job_id j"
  by (simp add: apply_updates_def)

lemma update_rows_ids: "map job_id (update_rows u jobId rows) = map job_id rows"
  by (induction rows) (simp_all add: update_rows_def apply_updates_id)

text \<open>What \<open>updateJobStatus\<close> does to the world.\<close>

lemma updateJobStatus_try_effect:
  "\<exists>R w1. same_ledger w w1 \<and> url_key rt resultUrl R \<and>
     updateJobStatus_try rt jobId st resultUrl errorMessage w =
       (if update_fails rt jobId then (Inl (ascii ''update failed''), w1)
        else (Inr (), w1\<lparr>jobs := update_rows (written st (now w) errorMessage R) jobId (jobs w)\<rparr>))"
proof -
  let ?P = "\<lambda>R w1. same_ledger w w1 \<and> url_key rt resultUrl R \<and>
     updateJobStatus_try rt jobId st resultUrl errorMessage w =
       (if update_fails rt jobId then (Inl (ascii ''update failed''), w1)
        else (Inr (), w1\<lparr>jobs := update_rows (written st (now w) errorMessage R) jobId (jobs w)\<rparr>))"
  consider (plain) "resultUrl = None \<or> resultUrl = Some []"
    | (raw) url where "resultUrl = Some url" "url \<noteq> []"
        "select_single jobId (jobs w) = None \<or>
         (\<exists>jd. select_single jobId (jobs w) = Some jd \<and> user_id jd = [])"
    | (persist) url jd where "resultUrl = Some url" "url \<noteq> []"
        "select_single jobId (jobs w) = Some jd" "user_id jd \<noteq> []"
    by (cases resultUrl; cases "select_single jobId (jobs w)") auto
  then show ?thesis
  proof cases
    case plain
    then have "?P None w"
      by (auto simp: updateJobStatus_try_def Let_def written_def url_key_def same_ledger_refl)
    then show ?thesis by blast
  next
    case raw
    then have "?P (Some url) w"
      by (auto simp: updateJobStatus_try_def Let_def written_def url_key_def same_ledger_refl)
    then show ?thesis by blast
  next
    case persist
    obtain r w1 where p: "persistResultToStorage rt (user_id jd) url w = (r, w1)"
      by (cases "persistResultToStorage rt (user_id jd) url w")
    from persist_returns[of rt "user_id jd" url w] p obtain pu where r: "r = Inr pu"
      by auto
    have fr: "same_ledger w w1"
      using persist_same_ledger[of w rt "user_id jd" url] p by simp
    have k: "url_key rt resultUrl (Some (orElse pu url))"
      using persist_url_key[of rt "user_id jd" url w pu w1] p r persist(1,2) by simp
    have j: "jobs w1 = jobs w" using fr by (simp add: same_ledger_def)
    have "updateJobStatus_try rt jobId st resultUrl errorMessage w =
       (if update_fails rt jobId then (Inl (ascii ''update failed''), w1)
        else (Inr (), w1\<lparr>jobs := update_rows (written st (now w) errorMessage (Some (orElse pu url)))
                 jobId (jobs w)\<rparr>))"
      using persist p r j by (auto simp: updateJobStatus_try_def Let_def written_def)
    with fr k have "?P (Some (orElse pu url)) w1" by blast
    then show ?thesis by blast
  qed
qed

lemma updateJobStatus_effect:
  "\<exists>R w1. same_ledger w w1 \<and> url_key rt resultUrl R \<and>
     updateJobStatus rt jobId st resultUrl errorMessage w =
       (if update_fails rt jobId then w1
        else w1\<lparr>jobs := update_rows (written st (now w) errorMessage R) jobId (jobs w)\<rparr>)"
proof -
  obtain R w1 where a: "same_ledger w w1" "url_key rt resultUrl R"
    and t: "updateJobStatus_try rt jobId st resultUrl errorMessage w =
       (if update_fails rt jobId then (Inl (ascii ''update failed''), w1)
        else (Inr (), w1\<lparr>jobs := update_rows (written st (now w) errorMessage R) jobId (jobs w)\<rparr>))"
    using updateJobStatus_try_effect[of w rt resultUrl jobId st errorMessage] by blast
  from t have "updateJobStatus rt jobId st resultUrl errorMessage w =
       (if update_fails rt jobId then w1
        else w1\<lparr>jobs := update_rows (written st (now w) errorMessage R) jobId (jobs w)\<rparr>)"
    by (cases "update_fails rt jobId") (simp_all add: updateJobStatus_def)
  with a show ?thesis by blast
qed

lemma updateJobStatus_frame:
  "refunds (updateJobStatus rt jobId st resultUrl errorMessage w) = refunds w
   \<and> now (updateJobStatus rt jobId st resultUrl errorMessage w) = now w
   \<and> ui (updateJobStatus rt jobId st resultUrl errorMessage w) = ui w
   \<and> session_user (updateJobStatus rt jobId st resultUrl errorMessage w) = session_user w
   \<and> map job_id (jobs (updateJobStatus rt jobId st resultUrl errorMessage w)) = map job_id (jobs w)"
proof -
  obtain R w1 where a: "same_ledger w w1"
    and u: "updateJobStatus rt jobId st resultUrl errorMessage w =
       (if update_fails rt jobId then w1
        else w1\<lparr>jobs := update_rows (written st (now w) errorMessage R) jobId (jobs w)\<rparr>)"
    using updateJobStatus_effect[of w rt resultUrl jobId st errorMessage] by blast
  show ?thesis
    unfolding u using a
    by (cases "update_fails rt jobId") (simp_all add: same_ledger_def update_rows_ids)
qed

lemma updateJobStatus_jobs:
  assumes "\<not> update_fails rt jobId"
  shows "\<exists>R. url_key rt resultUrl R \<and>
           jobs (updateJobStatus rt jobId st resultUrl errorMessage w) =
             update_rows (written st (now w) errorMessage R) jobId (jobs w)"
proof -
  obtain R w1 where a: "url_key rt resultUrl R"
    and u: "updateJobStatus rt jobId st resultUrl errorMessage w =
       (if update_fails rt jobId then w1
        else w1\<lparr>jobs := update_rows (written st (now w) errorMessage R) jobId (jobs w)\<rparr>)"
    using updateJobStatus_effect[of w rt resultUrl jobId st errorMessage] by blast
  from u assms have "jobs (updateJobStatus rt jobId st resultUrl errorMessage w) =
             update_rows (written st (now w) errorMessage R) jobId (jobs w)"
    by simp
  with a show ?thesis by blast
qed

lemma updated_row:
  assumes "j \<in> set (update_rows u jobId rows)" and "job_id j = jobId"
  shows "\<exists>r \<in> set rows. job_id r = jobId \<and> j = apply_updates u r"
proof -
  from assms obtain r where r: "r \<in> set rows" and j: "j = (if job_id r = jobId then apply_updates u r else r)"
    by (auto simp: update_rows_def)
  with assms(2) have "job_id r = jobId"
    by (cases "job_id r = jobId") (simp_all add: apply_updates_id)
  with r j show ?thesis by auto
qed

lemma singleton_by_ids:
  assumes "map job_id rows = [i]"
  shows "\<exists>j. rows = [j] \<and> job_id j = i"
  using assms by (cases rows) auto

lemma updateJobStatus_no_url:
  "updateJobStatus rt jobId st None errorMessage w =
     (if update_fails rt jobId then w
      else w\<lparr>jobs := update_rows
                 \<lparr>upd_status = st, upd_updated_at = now w,
                  upd_error_message =
                    (if truthy errorMessage then Some errorMessage
                     else if st = completed then Some None else None),
                  upd_result_url = None\<rparr> jobId (jobs w)\<rparr>)"
  by (simp add: updateJobStatus_def updateJobStatus_try_def Let_def)

text \<open>
  C3, as the code has it. A call of \<open>updateJobStatus\<close> with status \<open>completed\<close> that
  passes no error message (none, or the empty string), and whose update the table applies,
  leaves every row of the job with \<open>error_message\<close> null and status \<open>completed\<close>,
  whatever message was stored before and whatever result URL is passed; no row is added or
  removed.
\<close>

theorem updateJobStatus_completed_clears:
  assumes "\<not> truthy errorMessage" and "\<not> update_fails rt jobId"
  shows "map job_id (jobs (updateJobStatus rt jobId completed resultUrl errorMessage w))
           = map job_id (jobs w)
         \<and> (\<forall>j \<in> set (jobs (updateJobStatus rt jobId completed resultUrl errorMessage w)).
               job_id j = jobId \<longrightarrow> error_message j = None \<and> job_status j = completed)"
proof -
  obtain R where j: "jobs (updateJobStatus rt jobId completed resultUrl errorMessage w) =
      update_rows (written completed (now w) errorMessage R) jobId (jobs w)"
    using updateJobStatus_jobs[OF assms(2), of resultUrl completed errorMessage w] by blast
  have w: "\<And>r. error_message (apply_updates (written completed (now w) errorMessage R) r) = None
             \<and> job_status (apply_updates (written completed (now w) errorMessage R) r) = completed"
    using assms(1) by (simp add: apply_updates_def written_def)
  have "error_message r = None \<and> job_status r = completed"
    if "r \<in> set (jobs (updateJobStatus rt jobId completed resultUrl errorMessage w))"
      and "job_id r = jobId" for r
  proof -
    from that obtain r0 where "r = apply_updates (written completed (now w) errorMessage R) r0"
      using updated_row[of r "written completed (now w) errorMessage R" jobId "jobs w"]
      unfolding j by blast
    with w show ?thesis by simp
  qed
  moreover have "map job_id (jobs (updateJobStatus rt jobId completed resultUrl errorMessage w))
           = map job_id (jobs w)"
    unfolding j by (rule update_rows_ids)
  ultimately show ?thesis by blast
qed

theorem updateJobStatus_completed_clears_witness:
  "\<not> truthy None
   \<and> \<not> update_fails proxy_runtime (ascii ''job-1'')
   \<and> map error_message (jobs late_world) = [Some TIMEOUT_MESSAGE]
   \<and> map job_id (jobs (updateJobStatus proxy_runtime (ascii ''job-1'') completed
         (Some (ascii ''https://cdn.example/a.png'')) None late_world)) = [ascii ''job-1'']
   \<and> map error_message (jobs (updateJobStatus proxy_runtime (ascii ''job-1'') completed
         (Some (ascii ''https://cdn.example/a.png'')) None late_world)) = [None]"
proof -
  let ?w = "updateJobStatus proxy_runtime (ascii ''job-1'') completed
         (Some (ascii ''https://cdn.example/a.png'')) None late_world"
  have h1: "\<not> truthy None" by (simp add: truthy_def)
  have h2: "\<not> update_fails proxy_runtime (ascii ''job-1'')"
    by (simp add: proxy_runtime_def offline_runtime_def)
  have b: "map error_message (jobs late_world) = [Some TIMEOUT_MESSAGE]"
    and i: "map job_id (jobs late_world) = [ascii ''job-1'']"
    by (simp_all add: late_world_def timed_out_job_def)
  note t = updateJobStatus_completed_clears[OF h1 h2, where resultUrl =
      "Some (ascii ''https://cdn.example/a.png'')" and w = late_world]
  from t i have ids: "map job_id (jobs ?w) = [ascii ''job-1'']" by simp
  then obtain j where j: "jobs ?w = [j]" "job_id j = ascii ''job-1''"
    using singleton_by_ids by blast
  from t j have "error_message j = None" by simp
  with j have "map error_message (jobs ?w) = [None]" by simp
  with h1 h2 b ids show ?thesis by simp
qed


text \<open>
  C3 as stated fails: the error message passed in the same call is written after the
  clearing, so \<open>updateJobStatus(id, 'completed', undefined, 'late failure')\<close> leaves the
  job \<open>completed\<close> with that message.
\<close>

theorem updateJobStatus_completed_with_message:
  "map error_message (jobs (updateJobStatus offline_runtime (ascii ''job-1'') completed None
      (Some (ascii ''late failure'')) late_world)) = [Some (ascii ''late failure'')]
   \<and> map job_status (jobs (updateJobStatus offline_runtime (ascii ''job-1'') completed None
      (Some (ascii ''late failure'')) late_world)) = [completed]"
proof -
  have f: "\<not> update_fails offline_runtime (ascii ''job-1'')"
    by (simp add: offline_runtime_def)
  have t: "truthy (Some (ascii ''late failure''))"
    by (simp add: truthy_def ascii_def)
  have j: "jobs late_world = [timed_out_job]"
    by (simp add: late_world_def)
  have i: "job_id timed_out_job = ascii ''job-1''"
    by (simp add: timed_out_job_def)
  show ?thesis
    by (simp add: updateJobStatus_no_url f t j i update_rows_def apply_updates_def)
qed

subsection \<open>Stuck-job reaper\<close>

lemma exempt_iff:
  "exempt t j \<longleftrightarrow> tool_id j = ascii ''VideoGeneration'' \<and> t - created_at j < 3600000"
proof -
  have "real_of_int (t - created_at j) / (1000 * 60) < 60 \<longleftrightarrow> t - created_at j < 3600000"
    by (simp only: divide_less_eq) (simp, linarith)
  then show ?thesis by (simp only: exempt_def)
qed

lemma sweep_loop_Cons:
  "sweep_loop rt userId t (j # rest) w =
     (if exempt t j then sweep_loop rt userId t rest w
      else
        (case (case usage_log_id j of
                 None \<Rightarrow> (Inr (), w)
               | Some logId \<Rightarrow>
                   if logId \<noteq> [] \<and> cost j > 0
                   then refundCredits rt userId (cost j) TIMEOUT_REFUND_DESCRIPTION logId w
                   else (Inr (), w)) of
           (Inl e, w1) \<Rightarrow> (Inl e, w1)
         | (Inr u, w1) \<Rightarrow>
             sweep_loop rt userId t rest
               (updateJobStatus rt (job_id j) failed None (Some TIMEOUT_MESSAGE) w1)))"
  by (simp only: sweep_loop.simps exempt_def Let_def)

lemma timeout_message_truthy: "truthy (Some TIMEOUT_MESSAGE)"
  by (simp add: truthy_def TIMEOUT_MESSAGE_def ascii_def)

lemma apply_timeout_updates:
  "apply_updates \<lparr>upd_status = failed, upd_updated_at = t,
      upd_error_message = Some (Some TIMEOUT_MESSAGE), upd_result_url = None\<rparr> r = timed_out t r"
  by (simp add: apply_updates_def timed_out_def)

lemma mark_failed:
  assumes "\<not> update_fails rt jobId"
  shows "updateJobStatus rt jobId failed None (Some TIMEOUT_MESSAGE) w =
           w\<lparr>jobs := map (fail_row jobId (now w)) (jobs w)\<rparr>"
  using assms
  by (simp add: updateJobStatus_no_url timeout_message_truthy update_rows_def apply_timeout_updates
      fail_row_def)

lemma refund_accepted:
  assumes "\<not> refund_throws rt \<lparr>refund_user = u, refund_amount = a, refund_description = d, refund_log = l\<rparr>"
  shows "refundCredits rt u a d l w =
           (Inr (), w\<lparr>refunds := refunds w @ [\<lparr>refund_user = u, refund_amount = a, refund_description = d, refund_log = l\<rparr>]\<rparr>)"
  using assms by (simp add: refundCredits_def Let_def)

lemma sweep_step:
  assumes "\<forall>c. \<not> refund_throws rt c" and "\<forall>i. \<not> update_fails rt i"
  shows "sweep_loop rt userId t (j # rest) w =
           (if exempt t j then sweep_loop rt userId t rest w
            else sweep_loop rt userId t rest (reconcile userId j w))"
proof (cases "exempt t j")
  case True
  then show ?thesis by (simp only: sweep_loop_Cons if_True)
next
  case False
  have m: "\<And>v. updateJobStatus rt (job_id j) failed None (Some TIMEOUT_MESSAGE) v =
           v\<lparr>jobs := map (fail_row (job_id j) (now v)) (jobs v)\<rparr>"
    using assms(2) by (simp add: mark_failed)
  have r: "\<And>l. refundCredits rt userId (cost j) TIMEOUT_REFUND_DESCRIPTION l w =
           (Inr (), w\<lparr>refunds := refunds w @ [\<lparr>refund_user = userId, refund_amount = cost j,
              refund_description = TIMEOUT_REFUND_DESCRIPTION, refund_log = l\<rparr>]\<rparr>)"
    using assms(1) by (simp add: refund_accepted)
  show ?thesis
  proof (cases "refundable j")
    case True
    then obtain l where l: "usage_log_id j = Some l" "l \<noteq> []" "cost j > 0"
      by (auto simp: refundable_def truthy_def split: option.splits)
    have "reconcile userId j w =
        (w\<lparr>refunds := refunds w @ [timeout_refund userId j]\<rparr>)
          \<lparr>jobs := map (fail_row (job_id j) (now w)) (jobs w)\<rparr>"
      using True by (simp add: reconcile_def)
    with False l show ?thesis
      using m r[of l] by (simp add: sweep_loop_Cons timeout_refund_def del: sweep_loop.simps)
  next
    case nr: False
    have "reconcile userId j w =
        w\<lparr>jobs := map (fail_row (job_id j) (now w)) (jobs w)\<rparr>"
      using nr by (simp add: reconcile_def)
    with False nr show ?thesis
      using m by (auto simp: sweep_loop_Cons refundable_def truthy_def simp del: sweep_loop.simps split: option.splits)
  qed
qed


lemma sweep_loop_fold:
  assumes "\<forall>c. \<not> refund_throws rt c" and "\<forall>i. \<not> update_fails rt i"
  shows "sweep_loop rt userId t js w =
           (Inr (), fold (reconcile userId) (filter (\<lambda>j. \<not> exempt t j) js) w)"
proof (induction js arbitrary: w)
  case Nil
  show ?case by simp
next
  case (Cons j js)
  show ?case
    using sweep_step[OF assms, of userId t j js w] Cons.IH
    by (simp del: sweep_loop.simps)
qed

lemma reconcile_now: "now (reconcile userId j w) = now w"
  by (simp add: reconcile_def)

lemma fold_reconcile_now: "now (fold (reconcile userId) js w) = now w"
  by (induction js arbitrary: w) (simp_all add: reconcile_now)

lemma fold_reconcile_refunds:
  "refunds (fold (reconcile userId) js w) =
     refunds w @ map (timeout_refund userId) (filter refundable js)"
  by (induction js arbitrary: w) (simp_all add: reconcile_def)

lemma timed_out_twice: "timed_out t (timed_out t r) = timed_out t r"
  by (simp add: timed_out_def)

lemma timed_out_id: "job_id (timed_out t r) = job_id r"
  by (simp add: timed_out_def)

lemma fail_row_then_mark:
  "(if job_id (fail_row i t r) \<in> S then timed_out t (fail_row i t r) else fail_row i t r) =
   (if job_id r \<in> insert i S then timed_out t r else r)"
  by (simp add: fail_row_def timed_out_twice timed_out_id)

lemma fold_reconcile_jobs:
  "jobs (fold (reconcile userId) js w) =
     map (\<lambda>r. if job_id r \<in> job_id ` set js then timed_out (now w) r else r) (jobs w)"
proof (induction js arbitrary: w)
  case Nil
  show ?case by simp
next
  case (Cons j js)
  have "jobs (fold (reconcile userId) (j # js) w) =
          jobs (fold (reconcile userId) js (reconcile userId j w))"
    by simp
  also have "\<dots> = map (\<lambda>r. if job_id r \<in> job_id ` set js then timed_out (now w) r else r)
                     (map (fail_row (job_id j) (now w)) (jobs w))"
    by (simp add: Cons.IH reconcile_now) (simp add: reconcile_def)
  also have "\<dots> = map (\<lambda>r. if job_id r \<in> job_id ` set (j # js) then timed_out (now w) r else r)
                     (jobs w)"
    by (simp add: fail_row_then_mark)
  finally show ?case .
qed

lemma acted_on:
  "filter (\<lambda>j. \<not> exempt t j) (select_stuck userId (t - 900000) rows) =
     filter (stuck userId t) rows"
proof -
  have "\<And>j. (user_id j = userId \<and> job_status j = processing \<and> created_at j < t - 900000)
              \<and> \<not> exempt t j \<longleftrightarrow> stuck userId t j"
    by (auto simp: exempt_iff stuck_def past_threshold_def)
  then show ?thesis
    by (simp add: select_stuck_def)
qed

lemma cleanup_fold:
  assumes "\<not> select_error rt" and "\<forall>c. \<not> refund_throws rt c" and "\<forall>i. \<not> update_fails rt i"
  shows "cleanupStuckJobs rt userId w =
           fold (reconcile userId) (filter (stuck userId (now w)) (jobs w)) w"
proof -
  let ?sel = "select_stuck userId (now w - 900000) (jobs w)"
  have l: "snd (sweep_loop rt userId (now w) ?sel w) =
             fold (reconcile userId) (filter (stuck userId (now w)) (jobs w)) w"
    using sweep_loop_fold[OF assms(2,3), of userId "now w" ?sel w]
    by (simp add: acted_on)
  show ?thesis
  proof (cases "?sel = []")
    case True
    then have "filter (\<lambda>j. \<not> exempt (now w) j) ?sel = []" by simp
    then have "filter (stuck userId (now w)) (jobs w) = []" by (simp only: acted_on)
    with True assms(1) show ?thesis by (simp add: cleanupStuckJobs_def Let_def)
  next
    case False
    with assms(1) l show ?thesis by (simp add: cleanupStuckJobs_def Let_def)
  qed
qed

lemma id_among_stuck:
  assumes "distinct (map job_id rows)" and "r \<in> set rows"
  shows "job_id r \<in> job_id ` set (filter P rows) \<longleftrightarrow> P r"
proof
  assume "job_id r \<in> job_id ` set (filter P rows)"
  then obtain r' where r': "r' \<in> set rows" "P r'" "job_id r' = job_id r" by auto
  from assms(1) have "inj_on job_id (set rows)" by (simp add: distinct_map)
  with r' assms(2) have "r' = r" by (auto dest: inj_onD)
  with r' show "P r" by simp
next
  assume "P r"
  with assms(2) show "job_id r \<in> job_id ` set (filter P rows)" by auto
qed

lemmas sweep_example_defs =
  sweep_world_def example_job_def empty_world_def stuck_def past_threshold_def refundable_def
  timed_out_def timeout_refund_def truthy_def ascii_def

lemma cleanup_effect:
  assumes "\<not> select_error rt" and "\<forall>c. \<not> refund_throws rt c" and "\<forall>i. \<not> update_fails rt i"
    and "distinct (map job_id (jobs w))"
  shows "jobs (cleanupStuckJobs rt userId w) =
           map (\<lambda>j. if stuck userId (now w) j then timed_out (now w) j else j) (jobs w)
         \<and> refunds (cleanupStuckJobs rt userId w) =
           refunds w @ map (timeout_refund userId)
                         (filter refundable (filter (stuck userId (now w)) (jobs w)))"
proof
  have "jobs (cleanupStuckJobs rt userId w) =
          map (\<lambda>r. if job_id r \<in> job_id ` set (filter (stuck userId (now w)) (jobs w))
                    then timed_out (now w) r else r) (jobs w)"
    by (simp add: cleanup_fold[OF assms(1,2,3)] fold_reconcile_jobs)
  also have "\<dots> = map (\<lambda>j. if stuck userId (now w) j then timed_out (now w) j else j) (jobs w)"
    using id_among_stuck[OF assms(4)] by (intro map_cong) simp_all
  finally show "jobs (cleanupStuckJobs rt userId w) =
           map (\<lambda>j. if stuck userId (now w) j then timed_out (now w) j else j) (jobs w)" .
  show "refunds (cleanupStuckJobs rt userId w) =
           refunds w @ map (timeout_refund userId)
                         (filter refundable (filter (stuck userId (now w)) (jobs w)))"
    by (simp add: cleanup_fold[OF assms(1,2,3)] fold_reconcile_refunds)
qed

text \<open>
  C8. When the query, the ledger and the table do not fail, the sweep acts exactly on the
  \<open>processing\<close> jobs of the user past their threshold (60 minutes elapsed for a job of
  the video-generation tool, more than 15 minutes for any other): each of them is marked
  \<open>failed\<close> with the timeout message, every other row is left as it was, and the refunds
  issued are one of \<open>cost\<close> for each of them that has a usage log id and a positive
  cost, in the order of the rows. A video job that is 40 minutes old is left untouched.
\<close>

theorem sweep_acts_on_stuck_jobs:
  assumes "\<not> select_error rt" and "\<forall>c. \<not> refund_throws rt c" and "\<forall>i. \<not> update_fails rt i"
    and "distinct (map job_id (jobs w))"
  shows "jobs (cleanupStuckJobs rt userId w) =
           map (\<lambda>j. if stuck userId (now w) j then timed_out (now w) j else j) (jobs w)
         \<and> refunds (cleanupStuckJobs rt userId w) =
           refunds w @ map (timeout_refund userId)
                         (filter refundable (filter (stuck userId (now w)) (jobs w)))"
  using assms by (rule cleanup_effect)

theorem sweep_acts_on_stuck_jobs_witness:
  "\<not> select_error offline_runtime
   \<and> (\<forall>c. \<not> refund_throws offline_runtime c)
   \<and> (\<forall>i. \<not> update_fails offline_runtime i)
   \<and> distinct (map job_id (jobs sweep_world))
   \<and> map job_status (jobs (cleanupStuckJobs offline_runtime (ascii ''user-1'') sweep_world))
       = [failed, processing, failed, completed, failed]
   \<and> map error_message (jobs (cleanupStuckJobs offline_runtime (ascii ''user-1'') sweep_world))
       = [Some TIMEOUT_MESSAGE, None, Some TIMEOUT_MESSAGE, None, Some TIMEOUT_MESSAGE]
   \<and> map refund_log (refunds (cleanupStuckJobs offline_runtime (ascii ''user-1'') sweep_world))
       = [ascii ''log-1'', ascii ''log-3'']
   \<and> map refund_amount (refunds (cleanupStuckJobs offline_runtime (ascii ''user-1'') sweep_world))
       = [20, 20]"
proof -
  have h1: "\<not> select_error offline_runtime"
    and h2: "\<forall>c. \<not> refund_throws offline_runtime c"
    and h3: "\<forall>i. \<not> update_fails offline_runtime i"
    by (simp_all add: offline_runtime_def)
  have h4: "distinct (map job_id (jobs sweep_world))"
    by (simp add: sweep_example_defs)
  note t = sweep_acts_on_stuck_jobs[OF h1 h2 h3 h4, of "ascii ''user-1''"]
  from t have j: "jobs (cleanupStuckJobs offline_runtime (ascii ''user-1'') sweep_world) =
      map (\<lambda>j. if stuck (ascii ''user-1'') (now sweep_world) j then timed_out (now sweep_world) j else j)
        (jobs sweep_world)"
    by (rule conjunct1)
  from t have r: "refunds (cleanupStuckJobs offline_runtime (ascii ''user-1'') sweep_world) =
      refunds sweep_world @ map (timeout_refund (ascii ''user-1''))
        (filter refundable (filter (stuck (ascii ''user-1'') (now sweep_world)) (jobs sweep_world)))"
    by (rule conjunct2)
  have a: "map job_status (jobs (cleanupStuckJobs offline_runtime (ascii ''user-1'') sweep_world))
       = [failed, processing, failed, completed, failed]"
    unfolding j by (simp add: sweep_example_defs)
  have b: "map error_message (jobs (cleanupStuckJobs offline_runtime (ascii ''user-1'') sweep_world))
       = [Some TIMEOUT_MESSAGE, None, Some TIMEOUT_MESSAGE, None, Some TIMEOUT_MESSAGE]"
    unfolding j by (simp add: sweep_example_defs)
  have c: "map refund_log (refunds (cleanupStuckJobs offline_runtime (ascii ''user-1'') sweep_world))
       = [ascii ''log-1'', ascii ''log-3'']"
    unfolding r by (simp add: sweep_example_defs)
  have d: "map refund_amount (refunds (cleanupStuckJobs offline_runtime (ascii ''user-1'') sweep_world))
       = [20, 20]"
    unfolding r by (simp add: sweep_example_defs)
  from h1 h2 h3 h4 a b c d show ?thesis by blast
qed


text \<open>An error of the status update does not leave the loop: only a refund can.\<close>

lemma sweep_loop_survives_updates:
  assumes "\<forall>c. \<not> refund_throws rt c"
  shows "\<exists>w'. sweep_loop rt userId t js w = (Inr (), w')"
proof (induction js arbitrary: w)
  case Nil
  show ?case by simp
next
  case (Cons j js)
  have r: "\<And>l v. \<exists>v'. refundCredits rt userId (cost j) TIMEOUT_REFUND_DESCRIPTION l v = (Inr (), v')"
    using assms by (simp add: refundCredits_def Let_def)
  show ?case
  proof (cases "exempt t j")
    case True
    then show ?thesis using Cons.IH by (simp add: sweep_loop_Cons del: sweep_loop.simps)
  next
    case False
    show ?thesis
    proof (cases "refundable j")
      case True
      then obtain l where l: "usage_log_id j = Some l" "l \<noteq> []" "cost j > 0"
        by (auto simp: refundable_def truthy_def split: option.splits)
      from r[of l w] obtain v' where
        "refundCredits rt userId (cost j) TIMEOUT_REFUND_DESCRIPTION l w = (Inr (), v')" by blast
      with False l show ?thesis
        using Cons.IH by (simp add: sweep_loop_Cons del: sweep_loop.simps)
    next
      case nr: False
      with False show ?thesis
        using Cons.IH
        by (auto simp: sweep_loop_Cons refundable_def truthy_def simp del: sweep_loop.simps
            split: option.splits)
    qed
  qed
qed

lemma sweep_world_selected:
  "select_stuck (ascii ''user-1'') (now sweep_world - 900000) (jobs sweep_world) =
     [example_job ''job-1'' ''ViewSync'' processing 20 (Some (ascii ''log-1'')),
      example_job ''job-2'' ''VideoGeneration'' processing 40 (Some (ascii ''log-2'')),
      example_job ''job-3'' ''VideoGeneration'' processing 61 (Some (ascii ''log-3'')),
      example_job ''job-5'' ''ViewSync'' processing 20 None]"
  by (simp add: select_stuck_def sweep_world_def example_job_def empty_world_def)

lemma rejected_refund_leaves_loop:
  "sweep_loop rejecting_runtime (ascii ''user-1'') (now sweep_world)
     (example_job ''job-1'' ''ViewSync'' processing 20 (Some (ascii ''log-1'')) # rest) sweep_world
   = (Inl (ascii ''Refund failed''), sweep_world)"
proof -
  let ?j = "example_job ''job-1'' ''ViewSync'' processing 20 (Some (ascii ''log-1''))"
  have e: "\<not> exempt (now sweep_world) ?j"
    by (simp add: exempt_iff example_job_def ascii_def)
  have u: "usage_log_id ?j = Some (ascii ''log-1'')" "cost ?j = 20"
    by (simp_all add: example_job_def)
  have n: "ascii ''log-1'' \<noteq> []" by (simp add: ascii_def)
  have r: "refundCredits rejecting_runtime (ascii ''user-1'') 20 TIMEOUT_REFUND_DESCRIPTION
             (ascii ''log-1'') sweep_world = (Inl (ascii ''Refund failed''), sweep_world)"
    by (simp add: refundCredits_def rejecting_runtime_def Let_def)
  show ?thesis
    using e u n r by (simp add: sweep_loop_Cons del: sweep_loop.simps)
qed

text \<open>
  C9 fails on the code for an error of the refund. With job-1, job-3 and job-5 stuck and a
  ledger that rejects the refund of job-1, the throw of \<open>refundCredits\<close> leaves the loop
  and reaches the handler of \<open>cleanupStuckJobs\<close>: the sweep ends with the world as it
  was. job-3 is stuck and its own refund would be accepted, yet it is neither refunded nor
  marked \<open>failed\<close>.
\<close>

theorem sweep_aborts_on_rejected_refund:
  "stuck (ascii ''user-1'') (now sweep_world)
     (example_job ''job-3'' ''VideoGeneration'' processing 61 (Some (ascii ''log-3'')))
   \<and> \<not> refund_throws rejecting_runtime
         (timeout_refund (ascii ''user-1'')
            (example_job ''job-3'' ''VideoGeneration'' processing 61 (Some (ascii ''log-3''))))
   \<and> cleanupStuckJobs rejecting_runtime (ascii ''user-1'') sweep_world = sweep_world
   \<and> map job_status (jobs sweep_world) = [processing, processing, processing, completed, processing]
   \<and> refunds sweep_world = []"
proof -
  have a: "stuck (ascii ''user-1'') (now sweep_world)
     (example_job ''job-3'' ''VideoGeneration'' processing 61 (Some (ascii ''log-3'')))"
    by (simp add: sweep_example_defs)
  have b: "\<not> refund_throws rejecting_runtime
         (timeout_refund (ascii ''user-1'')
            (example_job ''job-3'' ''VideoGeneration'' processing 61 (Some (ascii ''log-3''))))"
    by (simp add: rejecting_runtime_def timeout_refund_def example_job_def ascii_def)
  have s: "\<not> select_error rejecting_runtime"
    by (simp add: rejecting_runtime_def offline_runtime_def)
  have c: "cleanupStuckJobs rejecting_runtime (ascii ''user-1'') sweep_world = sweep_world"
    using s rejected_refund_leaves_loop
    by (simp add: cleanupStuckJobs_def Let_def sweep_world_selected del: sweep_loop.simps)
  have d: "map job_status (jobs sweep_world) = [processing, processing, processing, completed, processing]"
    and e: "refunds sweep_world = []"
    by (simp_all add: sweep_world_def example_job_def empty_world_def)
  from a b c d e show ?thesis by blast
qed

subsection \<open>Job lifecycle\<close>

lemma successfulUrls_append: "successfulUrls (a @ b) = successfulUrls a @ successfulUrls b"
  by (simp add: successfulUrls_def)

lemma successfulUrls_none:
  assumes "\<forall>u \<in> set us. \<forall>url. u \<noteq> Inr (Some url)"
  shows "successfulUrls us = []"
  using assms
  by (induction us) (auto simp: successfulUrls_def split: sum.splits option.splits)

lemma first_successful_url:
  assumes "i < n" and "f i = Inr (Some url)" and "\<forall>k<i. \<forall>u. f k \<noteq> Inr (Some u)"
  shows "\<exists>others. successfulUrls (map f [0..<n]) = url # others"
proof -
  from assms(1) have "[0..<n] = [0..<i] @ i # [Suc i..<n]"
    by (metis upt_conv_Cons le0 upt_add_eq_append less_imp_add_positive less_or_eq_imp_le add.commute
        add_0)
  then have "map f [0..<n] = map f [0..<i] @ f i # map f [Suc i..<n]" by simp
  moreover have "successfulUrls (map f [0..<i]) = []"
    using assms(3) by (intro successfulUrls_none) auto
  moreover have "successfulUrls (f i # map f [Suc i..<n]) = url # successfulUrls (map f [Suc i..<n])"
    using assms(2) by (simp add: successfulUrls_def)
  ultimately show ?thesis by (simp add: successfulUrls_append)
qed

lemma settle_success:
  assumes "successfulUrls (units g p) = url # others" and "j \<noteq> []"
  shows "handleGenerate_settle g rt p logId (Some j) w =
           updateJobStatus rt j completed (Some url) None w"
  using assms by (simp add: handleGenerate_settle_def)

lemma completed_row:
  assumes "url_key rt (Some url) R" and "url \<noteq> []"
  shows "job_status (apply_updates (written completed t None R) r) = completed
         \<and> error_message (apply_updates (written completed t None R) r) = None
         \<and> (result_url (apply_updates (written completed t None R) r) = Some url \<or>
            (\<exists>f b. result_url (apply_updates (written completed t None R) r) = Some (getPublicUrl rt f)
                   \<and> storage_upload rt f b = Uploaded))"
  using assms by (auto simp: url_key_def apply_updates_def written_def truthy_def)

lemma view_page_cost: "totalCost view_page = 15"
  by (simp add: totalCost_def getCostPerImage_def view_page_def ascii_def)

lemma begin_example:
  "handleGenerate_begin three_units proxy_runtime view_page empty_world =
     (Awaiting (Some (ascii ''log-1'')) (Some (ascii ''job-1'')), running_world)"
proof -
  have c: "createJob proxy_runtime
             \<lparr>data_user_id = ascii ''user-1'', data_tool_id = ascii ''ViewSync'',
              data_prompt = ascii ''Synced view rendering'', data_cost = 15,
              data_usage_log_id = Some (ascii ''log-1'')\<rparr> 2 empty_world =
           (Inr (ascii ''job-1''),
            empty_world\<lparr>jobs := [running_job\<lparr>job_status := pending\<rparr>]\<rparr>)"
    by (subst createJob.simps)
       (simp add: proxy_runtime_def offline_runtime_def empty_world_def new_row_def running_job_def)
  have u: "updateJobStatus proxy_runtime (ascii ''job-1'') processing None None
             (empty_world\<lparr>jobs := [running_job\<lparr>job_status := pending\<rparr>]\<rparr>) = running_world"
    by (simp add: updateJobStatus_no_url proxy_runtime_def offline_runtime_def update_rows_def
        apply_updates_def written_def truthy_def running_world_def running_job_def empty_world_def)
  have n: "ascii ''job-1'' \<noteq> []" "ascii ''log-1'' \<noteq> []" by (simp_all add: ascii_def)
  have s: "session_user empty_world = Some (ascii ''user-1'')" by (simp add: empty_world_def)
  have p: "onDeductCredits view_page = Some (\<lambda>amount description. Inr (Some (ascii ''log-1'')))"
    "userCredits view_page = 100" "sourceImage view_page" "customPrompt view_page = []"
    "Tool_ViewSync view_page = ascii ''ViewSync''"
    by (simp_all add: view_page_def)
  show ?thesis
    by (simp add: handleGenerate_begin_def view_page_cost p s c u n truthy_def orElse_def)
qed


lemma three_units_results:
  "generation_unit three_units (resolution view_page) 0 = Inl (ascii ''503 Service Unavailable'')"
  "generation_unit three_units (resolution view_page) 1 = Inr (Some (ascii ''https://cdn.example/a.png''))"
  "generation_unit three_units (resolution view_page) 2 = Inl (ascii ''503 Service Unavailable'')"
  by (simp_all add: generation_unit_def three_units_def view_page_def ascii_def)

lemma persist_running:
  "persistResultToStorage proxy_runtime (ascii ''user-1'') (ascii ''https://cdn.example/a.png'')
     running_world =
   (Inr (Some stored_url),
    running_world\<lparr>fetches := [ascii ''https://cdn.example/a.png'',
                    ascii ''https://api.example/proxy-download?url=https%3A%2F%2Fcdn.example%2Fa.png''],
       uploads := [(ascii ''user-1/jobs/1700000000000_k3j9x2a.webp'', png_blob)]\<rparr>)"
  using encoded_example
  by (simp add: persist_defs example_defs stored_url_def running_world_def Let_def)

lemma complete_running:
  "jobs (updateJobStatus proxy_runtime (ascii ''job-1'') completed
           (Some (ascii ''https://cdn.example/a.png'')) None running_world) =
     [running_job\<lparr>job_status := completed, result_url := Some stored_url\<rparr>]"
proof -
  have s: "select_single (ascii ''job-1'') [running_job] = Some running_job"
    by (simp add: select_single_def running_job_def)
  have u: "user_id running_job = ascii ''user-1''" "ascii ''user-1'' \<noteq> []"
    "ascii ''https://cdn.example/a.png'' \<noteq> []" "stored_url \<noteq> []"
    by (simp_all add: running_job_def ascii_def stored_url_def)
  have f: "\<not> update_fails proxy_runtime (ascii ''job-1'')"
    by (simp add: proxy_runtime_def offline_runtime_def)
  have j: "jobs running_world = [running_job]" "now running_world = 1700000000000"
    by (simp_all add: running_world_def empty_world_def)
  show ?thesis
    by (simp add: updateJobStatus_def updateJobStatus_try_def Let_def s u f persist_running
        orElse_def truthy_def update_rows_def apply_updates_def j)
       (simp add: running_job_def)
qed

text \<open>
  C4. When the units have settled and at least one returned a URL, the attempt is a success
  whatever the other units did: with \<open>url\<close> the URL of the first unit, in the order of
  the batch, that returned one, the handler makes the single call
  \<open>updateJobStatus(jobId, 'completed', url)\<close>. The job is marked \<open>completed\<close> with no
  error message and with \<open>url\<close>, or the durable copy the job store made of it, as result
  URL; no refund is issued and no error is signalled.
\<close>

theorem partial_success_completes:
  assumes "i < numberOfImages p"
    and "generation_unit g (resolution p) i = Inr (Some url)"
    and "\<forall>k<i. \<forall>u. generation_unit g (resolution p) k \<noteq> Inr (Some u)"
    and "j \<noteq> []" and "url \<noteq> []" and "\<not> update_fails rt j"
  shows "handleGenerate_settle g rt p logId (Some j) w =
           updateJobStatus rt j completed (Some url) None w
         \<and> refunds (handleGenerate_settle g rt p logId (Some j) w) = refunds w
         \<and> ui (handleGenerate_settle g rt p logId (Some j) w) = ui w
         \<and> map job_id (jobs (handleGenerate_settle g rt p logId (Some j) w)) = map job_id (jobs w)
         \<and> (\<forall>r \<in> set (jobs (handleGenerate_settle g rt p logId (Some j) w)).
               job_id r = j \<longrightarrow>
                 job_status r = completed \<and> error_message r = None \<and>
                 (result_url r = Some url \<or>
                  (\<exists>f b. result_url r = Some (getPublicUrl rt f) \<and> storage_upload rt f b = Uploaded)))"
proof -
  obtain others where s: "successfulUrls (units g p) = url # others"
    using first_successful_url[OF assms(1,2,3)] by (auto simp: units_def)
  have e: "handleGenerate_settle g rt p logId (Some j) w =
             updateJobStatus rt j completed (Some url) None w"
    using s assms(4) by (rule settle_success)
  obtain R where k: "url_key rt (Some url) R"
    and js: "jobs (updateJobStatus rt j completed (Some url) None w) =
               update_rows (written completed (now w) None R) j (jobs w)"
    using updateJobStatus_jobs[OF assms(6), of "Some url" completed None w] by blast
  have rows: "job_status r = completed \<and> error_message r = None \<and>
                 (result_url r = Some url \<or>
                  (\<exists>f b. result_url r = Some (getPublicUrl rt f) \<and> storage_upload rt f b = Uploaded))"
    if "r \<in> set (jobs (updateJobStatus rt j completed (Some url) None w))" and "job_id r = j" for r
  proof -
    from that obtain r0 where "r = apply_updates (written completed (now w) None R) r0"
      using updated_row[of r "written completed (now w) None R" j "jobs w"]
      unfolding js by blast
    with completed_row[OF k assms(5), of "now w" r0] show ?thesis by simp
  qed
  from updateJobStatus_frame[of rt j completed "Some url" None w] rows
  show ?thesis unfolding e by blast
qed


theorem partial_success_completes_witness:
  "1 < numberOfImages view_page
   \<and> generation_unit three_units (resolution view_page) 0 = Inl (ascii ''503 Service Unavailable'')
   \<and> generation_unit three_units (resolution view_page) 1 = Inr (Some (ascii ''https://cdn.example/a.png''))
   \<and> generation_unit three_units (resolution view_page) 2 = Inl (ascii ''503 Service Unavailable'')
   \<and> \<not> update_fails proxy_runtime (ascii ''job-1'')
   \<and> map job_status (jobs running_world) = [processing]
   \<and> map job_status (jobs (handleGenerate_settle three_units proxy_runtime view_page
         (Some (ascii ''log-1'')) (Some (ascii ''job-1'')) running_world)) = [completed]
   \<and> map result_url (jobs (handleGenerate_settle three_units proxy_runtime view_page
         (Some (ascii ''log-1'')) (Some (ascii ''job-1'')) running_world)) = [Some stored_url]
   \<and> refunds (handleGenerate_settle three_units proxy_runtime view_page
         (Some (ascii ''log-1'')) (Some (ascii ''job-1'')) running_world) = []
   \<and> ui (handleGenerate_settle three_units proxy_runtime view_page
         (Some (ascii ''log-1'')) (Some (ascii ''job-1'')) running_world) = []"
proof -
  let ?url = "ascii ''https://cdn.example/a.png''"
  let ?after = "handleGenerate_settle three_units proxy_runtime view_page
         (Some (ascii ''log-1'')) (Some (ascii ''job-1'')) running_world"
  have h1: "1 < numberOfImages view_page" by (simp add: view_page_def)
  have h3: "\<forall>k<1. \<forall>u. generation_unit three_units (resolution view_page) k \<noteq> Inr (Some u)"
    using three_units_results(1) by simp
  have h4: "ascii ''job-1'' \<noteq> []" and h5: "?url \<noteq> []" by (simp_all add: ascii_def)
  have h6: "\<not> update_fails proxy_runtime (ascii ''job-1'')"
    by (simp add: proxy_runtime_def offline_runtime_def)
  note t = partial_success_completes[OF h1 three_units_results(2) h3 h4 h5 h6,
      of "Some (ascii ''log-1'')" running_world]
  from t have e: "?after = updateJobStatus proxy_runtime (ascii ''job-1'') completed (Some ?url) None
      running_world"
    by (rule conjunct1)
  from t have r: "refunds ?after = refunds running_world" and u: "ui ?after = ui running_world"
    by blast+
  have b: "map job_status (jobs running_world) = [processing]"
    by (simp add: running_world_def running_job_def)
  have a: "map job_status (jobs ?after) = [completed]" "map result_url (jobs ?after) = [Some stored_url]"
    unfolding e by (simp_all add: complete_running)
  have z: "refunds running_world = []" "ui running_world = []"
    by (simp_all add: running_world_def empty_world_def)
  from h1 three_units_results h6 b a r u z show ?thesis by simp
qed


lemma failed_row:
  "job_status (apply_updates (written failed t m R) r) = failed"
  by (simp add: apply_updates_def written_def)

lemma failure_handler_effect:
  assumes "l \<noteq> []" and "j \<noteq> []" and "onDeductCredits p \<noteq> None"
    and "session_user w = Some user"
    and "\<forall>c. \<not> refund_throws rt c" and "\<not> update_fails rt j"
  shows "refunds (failure_handler g rt p (Some l) (Some j) rawMsg w) =
           refunds w @ [lifecycle_refund p user rawMsg l]
         \<and> (\<forall>r \<in> set (jobs (failure_handler g rt p (Some l) (Some j) rawMsg w)).
               job_id r = j \<longrightarrow> job_status r = failed)"
proof -
  let ?key = "mapFriendlyErrorMessage (upper_table g) rawMsg"
  let ?w1 = "w\<lparr>ui := ui w @ [if ?key = ascii ''SAFETY_POLICY_VIOLATION''
                                then SafetyModal else ErrorText ?key]\<rparr>"
  let ?w2 = "?w1\<lparr>refunds := refunds ?w1 @ [lifecycle_refund p user rawMsg l]\<rparr>"
  have r: "refund_after_failure rt p (Some l) rawMsg ?w1 = ?w2"
    using assms(1,3,4,5)
    by (simp add: refund_after_failure_def refundCredits_def Let_def lifecycle_refund_def)
  have e: "failure_handler g rt p (Some l) (Some j) rawMsg w =
             updateJobStatus rt j failed None (Some rawMsg) ?w2"
    using assms(2) r by (simp add: failure_handler_def Let_def)
  obtain R where js: "jobs (updateJobStatus rt j failed None (Some rawMsg) ?w2) =
               update_rows (written failed (now ?w2) (Some rawMsg) R) j (jobs ?w2)"
    using updateJobStatus_jobs[OF assms(6), of None failed "Some rawMsg" ?w2] by blast
  have rows: "job_status r = failed"
    if "r \<in> set (jobs (updateJobStatus rt j failed None (Some rawMsg) ?w2))" and "job_id r = j" for r
  proof -
    from that obtain r0 where "r = apply_updates (written failed (now ?w2) (Some rawMsg) R) r0"
      using updated_row[of r "written failed (now ?w2) (Some rawMsg) R" j "jobs ?w2"]
      unfolding js by blast
    then show ?thesis by (simp add: failed_row)
  qed
  have "refunds (updateJobStatus rt j failed None (Some rawMsg) ?w2) = refunds ?w2"
    using updateJobStatus_frame[of rt j failed None "Some rawMsg" ?w2] by blast
  then have "refunds (failure_handler g rt p (Some l) (Some j) rawMsg w) =
           refunds w @ [lifecycle_refund p user rawMsg l]"
    unfolding e by simp
  with rows show ?thesis unfolding e by blast
qed

lemma settle_failure:
  assumes "successfulUrls (units g p) = []"
  shows "handleGenerate_settle g rt p logId jobId w =
           failure_handler g rt p logId jobId
             (case lastError g (units g p) of None \<Rightarrow> GENERATION_FAILED | Some e \<Rightarrow> e) w"
  using assms by (simp add: handleGenerate_settle_def)

lemma settle_refunds:
  assumes "l \<noteq> []" and "j \<noteq> []" and "onDeductCredits p \<noteq> None"
    and "session_user w = Some user"
    and "\<forall>c. \<not> refund_throws rt c" and "\<not> update_fails rt j"
  shows "refunds_for l (handleGenerate_settle g rt p (Some l) (Some j) w) =
           refunds_for l w + (if successfulUrls (units g p) = [] then 1 else 0)
         \<and> (\<forall>r \<in> set (jobs (handleGenerate_settle g rt p (Some l) (Some j) w)).
               job_id r = j \<longrightarrow>
               job_status r = (if successfulUrls (units g p) = [] then failed else completed))"
proof (cases "successfulUrls (units g p)")
  case Nil
  let ?m = "case lastError g (units g p) of None \<Rightarrow> GENERATION_FAILED | Some e \<Rightarrow> e"
  have e: "handleGenerate_settle g rt p (Some l) (Some j) w =
             failure_handler g rt p (Some l) (Some j) ?m w"
    using Nil by (rule settle_failure)
  from failure_handler_effect[OF assms, of g ?m]
  show ?thesis unfolding e using Nil by (simp add: refunds_for_def lifecycle_refund_def)
next
  case (Cons url others)
  have e: "handleGenerate_settle g rt p (Some l) (Some j) w =
             updateJobStatus rt j completed (Some url) None w"
    using Cons assms(2) by (rule settle_success)
  obtain R where js: "jobs (updateJobStatus rt j completed (Some url) None w) =
               update_rows (written completed (now w) None R) j (jobs w)"
    using updateJobStatus_jobs[OF assms(6), of "Some url" completed None w] by blast
  have rows: "job_status r = completed"
    if "r \<in> set (jobs (updateJobStatus rt j completed (Some url) None w))" and "job_id r = j" for r
  proof -
    from that obtain r0 where "r = apply_updates (written completed (now w) None R) r0"
      using updated_row[of r "written completed (now w) None R" j "jobs w"]
      unfolding js by blast
    then show ?thesis by (simp add: apply_updates_def written_def)
  qed
  have "refunds (updateJobStatus rt j completed (Some url) None w) = refunds w"
    using updateJobStatus_frame[of rt j completed "Some url" None w] by blast
  with rows show ?thesis unfolding e using Cons by (simp add: refunds_for_def)
qed


lemma refundCredits_jobs: "jobs (snd (refundCredits rt u a d l w)) = jobs w"
  by (simp add: refundCredits_def Let_def)

lemma refund_after_failure_jobs: "jobs (refund_after_failure rt p logId rawMsg w) = jobs w"
  by (simp add: refund_after_failure_def refundCredits_jobs split: option.splits)

lemma failure_handler_ids:
  "map job_id (jobs (failure_handler g rt p logId jobId rawMsg w)) = map job_id (jobs w)"
proof -
  let ?key = "mapFriendlyErrorMessage (upper_table g) rawMsg"
  let ?w1 = "w\<lparr>ui := ui w @ [if ?key = ascii ''SAFETY_POLICY_VIOLATION''
                                then SafetyModal else ErrorText ?key]\<rparr>"
  let ?w2 = "refund_after_failure rt p logId rawMsg ?w1"
  have j2: "jobs ?w2 = jobs w"
    by (simp add: refund_after_failure_jobs)
  have e: "failure_handler g rt p logId jobId rawMsg w =
          (case jobId of
             None \<Rightarrow> ?w2
           | Some j \<Rightarrow> if j \<noteq> [] then updateJobStatus rt j failed None (Some rawMsg) ?w2 else ?w2)"
    by (simp add: failure_handler_def Let_def)
  show ?thesis
  proof (cases jobId)
    case None
    with e j2 show ?thesis by simp
  next
    case (Some j)
    show ?thesis
    proof (cases "j = []")
      case True
      with e Some j2 show ?thesis by simp
    next
      case False
      with e Some have "failure_handler g rt p logId jobId rawMsg w =
          updateJobStatus rt j failed None (Some rawMsg) ?w2" by simp
      with j2 updateJobStatus_frame[of rt j failed None "Some rawMsg" ?w2]
      show ?thesis by simp
    qed
  qed
qed

lemma settle_ids:
  "map job_id (jobs (handleGenerate_settle g rt p logId jobId w)) = map job_id (jobs w)"
proof (cases "successfulUrls (units g p)")
  case Nil
  then show ?thesis by (simp add: settle_failure failure_handler_ids)
next
  case (Cons url others)
  show ?thesis
  proof (cases "\<exists>j. jobId = Some j \<and> j \<noteq> []")
    case True
    then obtain j where j: "jobId = Some j" "j \<noteq> []" by blast
    with Cons have "handleGenerate_settle g rt p logId jobId w =
        updateJobStatus rt j completed (Some url) None w"
      by (simp add: settle_success)
    with updateJobStatus_frame[of rt j completed "Some url" None w] show ?thesis by simp
  next
    case False
    with Cons have "handleGenerate_settle g rt p logId jobId w = w"
      by (cases jobId) (auto simp: handleGenerate_settle_def)
    then show ?thesis by simp
  qed
qed



lemma failing_units_none: "successfulUrls (units failing_units view_page) = []"
  by (simp add: successfulUrls_def units_def generation_unit_def failing_units_def three_units_def
      view_page_def)

lemma three_units_some: "successfulUrls (units three_units view_page) \<noteq> []"
proof -
  have "1 < numberOfImages view_page" by (simp add: view_page_def)
  moreover have "\<forall>k<1. \<forall>u. generation_unit three_units (resolution view_page) k \<noteq> Inr (Some u)"
    using three_units_results(1) by simp
  ultimately obtain others where
    "successfulUrls (map (generation_unit three_units (resolution view_page))
        [0..<numberOfImages view_page]) = ascii ''https://cdn.example/a.png'' # others"
    using first_successful_url[of 1 "numberOfImages view_page"
        "generation_unit three_units (resolution view_page)" "ascii ''https://cdn.example/a.png''"]
      three_units_results(2) by blast
  then show ?thesis by (simp add: units_def)
qed


lemma fold_reconcile_session:
  "session_user (fold (reconcile userId) js w) = session_user w"
  by (induction js arbitrary: w) (simp_all add: reconcile_def)

lemma cleanup_session:
  assumes "\<not> select_error rt" and "\<forall>c. \<not> refund_throws rt c" and "\<forall>i. \<not> update_fails rt i"
  shows "session_user (cleanupStuckJobs rt userId w) = session_user w"
  by (simp add: cleanup_fold[OF assms] fold_reconcile_session)

















lemma proxy_runtime_reliable:
  "\<not> select_error proxy_runtime" "\<forall>c. \<not> refund_throws proxy_runtime c"
  "\<forall>i. \<not> update_fails proxy_runtime i"
  by (simp_all add: proxy_runtime_def offline_runtime_def)

lemma swept_world_state:
  "map job_id (jobs swept_world) = [ascii ''job-1'']"
  "map job_status (jobs swept_world) = [failed]"
  "map refund_log (refunds swept_world) = [ascii ''log-1'']"
  "map refund_amount (refunds swept_world) = [15]"
  "session_user swept_world = Some (ascii ''user-1'')"
proof -
  let ?w = "advance (20 * 60 * 1000) running_world"
  have d: "distinct (map job_id (jobs ?w))"
    by (simp add: advance_def running_world_def)
  note e = cleanup_effect[OF proxy_runtime_reliable d, of "ascii ''user-1''"]
  have st: "stuck (ascii ''user-1'') (now ?w) running_job" "refundable running_job"
    by (simp_all add: stuck_def past_threshold_def refundable_def truthy_def advance_def
        running_world_def running_job_def empty_world_def ascii_def)
  have j: "jobs ?w = [running_job]" "refunds ?w = []"
    by (simp_all add: advance_def running_world_def empty_world_def)
  show "map job_id (jobs swept_world) = [ascii ''job-1'']"
    unfolding swept_world_def e[THEN conjunct1] j using st
    by (simp add: timed_out_def running_job_def)
  show "map job_status (jobs swept_world) = [failed]"
    unfolding swept_world_def e[THEN conjunct1] j using st
    by (simp add: timed_out_def)
  show "map refund_log (refunds swept_world) = [ascii ''log-1'']"
    unfolding swept_world_def e[THEN conjunct2] j using st
    by (simp add: timeout_refund_def running_job_def)
  show "map refund_amount (refunds swept_world) = [15]"
    unfolding swept_world_def e[THEN conjunct2] j using st
    by (simp add: timeout_refund_def running_job_def)
  show "session_user swept_world = Some (ascii ''user-1'')"
    unfolding swept_world_def
    by (simp add: cleanup_session[OF proxy_runtime_reliable] advance_def running_world_def
        empty_world_def)
qed

lemma only_status:
  assumes "map job_id rows = [i]" and "\<forall>r \<in> set rows. job_id r = i \<longrightarrow> job_status r = st"
  shows "map job_status rows = [st]"
proof -
  from singleton_by_ids[OF assms(1)] obtain r where "rows = [r]" "job_id r = i" by blast
  with assms(2) show ?thesis by simp
qed

text \<open>
  A sweep that runs while the units of a lifecycle run are awaited. The job, created and
  marked \<open>processing\<close> by the handler, is 20 minutes old when the sweep refunds it and marks
  it \<open>failed\<close>. When the units then settle with a success the job ends \<open>completed\<close> and
  refunded; when they settle with a failure the handler refunds the same usage log a
  second time.
\<close>

lemma refunded_then_completed:
  "handleGenerate_begin three_units proxy_runtime view_page empty_world =
     (Awaiting (Some (ascii ''log-1'')) (Some (ascii ''job-1'')), running_world)
   \<and> map job_status (jobs swept_world) = [failed]
   \<and> map refund_amount (refunds swept_world) = [15]
   \<and> map job_status (jobs (handleGenerate_settle three_units proxy_runtime view_page
         (Some (ascii ''log-1'')) (Some (ascii ''job-1'')) swept_world)) = [completed]
   \<and> map refund_log (refunds (handleGenerate_settle three_units proxy_runtime view_page
         (Some (ascii ''log-1'')) (Some (ascii ''job-1'')) swept_world)) = [ascii ''log-1'']
   \<and> map refund_amount (refunds (handleGenerate_settle three_units proxy_runtime view_page
         (Some (ascii ''log-1'')) (Some (ascii ''job-1'')) swept_world)) = [15]"
proof -
  let ?after = "handleGenerate_settle three_units proxy_runtime view_page
         (Some (ascii ''log-1'')) (Some (ascii ''job-1'')) swept_world"
  have n: "ascii ''log-1'' \<noteq> []" "ascii ''job-1'' \<noteq> []" by (simp_all add: ascii_def)
  have d: "onDeductCredits view_page \<noteq> None" by (simp add: view_page_def)
  have u: "\<not> update_fails proxy_runtime (ascii ''job-1'')"
    using proxy_runtime_reliable(3) by simp
  obtain url others where s: "successfulUrls (units three_units view_page) = url # others"
    using three_units_some by (cases "successfulUrls (units three_units view_page)") auto
  have e: "?after = updateJobStatus proxy_runtime (ascii ''job-1'') completed (Some url) None swept_world"
    using s n(2) by (rule settle_success)
  have r: "refunds ?after = refunds swept_world"
    unfolding e using updateJobStatus_frame[of proxy_runtime "ascii ''job-1''" completed "Some url" None swept_world]
    by blast
  note t = settle_refunds[OF n d swept_world_state(5) proxy_runtime_reliable(2) u, of three_units]
  have all: "\<forall>r \<in> set (jobs ?after). job_id r = ascii ''job-1'' \<longrightarrow> job_status r = completed"
    using t[THEN conjunct2] by (simp only: three_units_some if_False)
  have ids: "map job_id (jobs ?after) = [ascii ''job-1'']"
    by (simp add: settle_ids swept_world_state(1))
  have c: "map job_status (jobs ?after) = [completed]"
    using ids all by (rule only_status)
  show ?thesis
    using begin_example swept_world_state(2,3,4) c r by simp
qed

lemma refunded_twice:
  "map job_status (jobs (handleGenerate_settle failing_units proxy_runtime view_page
         (Some (ascii ''log-1'')) (Some (ascii ''job-1'')) swept_world)) = [failed]
   \<and> map refund_log (refunds (handleGenerate_settle failing_units proxy_runtime view_page
         (Some (ascii ''log-1'')) (Some (ascii ''job-1'')) swept_world))
       = [ascii ''log-1'', ascii ''log-1'']
   \<and> map refund_amount (refunds (handleGenerate_settle failing_units proxy_runtime view_page
         (Some (ascii ''log-1'')) (Some (ascii ''job-1'')) swept_world)) = [15, 15]"
proof -
  let ?after = "handleGenerate_settle failing_units proxy_runtime view_page
         (Some (ascii ''log-1'')) (Some (ascii ''job-1'')) swept_world"
  let ?m = "case lastError failing_units (units failing_units view_page) of
              None \<Rightarrow> GENERATION_FAILED | Some e \<Rightarrow> e"
  have n: "ascii ''log-1'' \<noteq> []" "ascii ''job-1'' \<noteq> []" by (simp_all add: ascii_def)
  have d: "onDeductCredits view_page \<noteq> None" by (simp add: view_page_def)
  have u: "\<not> update_fails proxy_runtime (ascii ''job-1'')"
    using proxy_runtime_reliable(3) by simp
  have e: "?after = failure_handler failing_units proxy_runtime view_page
             (Some (ascii ''log-1'')) (Some (ascii ''job-1'')) ?m swept_world"
    using failing_units_none by (rule settle_failure)
  note f = failure_handler_effect[OF n d swept_world_state(5) proxy_runtime_reliable(2) u,
      of failing_units ?m]
  have r: "refunds ?after = refunds swept_world @
             [lifecycle_refund view_page (ascii ''user-1'') ?m (ascii ''log-1'')]"
    unfolding e using f by (rule conjunct1)
  have all: "\<forall>r \<in> set (jobs ?after). job_id r = ascii ''job-1'' \<longrightarrow> job_status r = failed"
    unfolding e using f by (rule conjunct2)
  have ids: "map job_id (jobs ?after) = [ascii ''job-1'']"
    by (simp add: settle_ids swept_world_state(1))
  have c: "map job_status (jobs ?after) = [failed]"
    using ids all by (rule only_status)
  show ?thesis
    using c r swept_world_state(3,4) by (simp add: lifecycle_refund_def view_page_cost)
qed

end
